(* ===== verification/Turn_Prelude.thy ===== *)
theory Turn_Prelude
  imports Main "HOL-Library.Word" "HOL-Library.Monad_Syntax"
begin

text \<open>
  Shared vocabulary of the development: the fixed-width integer types of the C
  sources, byte buffers with bounds-checked access, the byte order conversions
  of ns_turn_defs.h and the generic lemmas that the component theories use.

  A buffer is the list of all bytes of the memory object a pointer refers to, so
  that the length of the list is the capacity of the object.  Every load and
  store is an operation of the option monad: None is an access outside of the
  object, which is undefined behaviour in C.  A theorem that a function does not
  return None is therefore a memory-safety theorem.

  Multi-byte loads and stores are those of a little-endian host; the macros
  nswap16, nswap32 and nswap64 are then byte swaps and a load followed by a swap
  reads a big-endian (network order) field.
\<close>

unbundle bit_operations_syntax

section \<open>Integer types\<close>

type_synonym u8 = "8 word"
type_synonym u16 = "16 word"
type_synonym u32 = "32 word"
type_synonym u64 = "64 word"
type_synonym buffer = "u8 list"
type_synonym turn_time_t = u32

named_theorems mem_simps "bounds-checked loads and stores inside a buffer"

section \<open>Byte order\<close>

text \<open>The two bytes of a 16-bit object, lowest address first, and the load of
  such an object; the same for 32 and 64 bits.\<close>

definition host16 :: "u8 \<Rightarrow> u8 \<Rightarrow> u16" where
  "host16 b0 b1 = ucast b0 OR push_bit 8 (ucast b1)"

definition bytes16 :: "u16 \<Rightarrow> u8 list" where
  "bytes16 w = [ucast w, ucast (drop_bit 8 w)]"

definition host32 :: "u8 \<Rightarrow> u8 \<Rightarrow> u8 \<Rightarrow> u8 \<Rightarrow> u32" where
  "host32 b0 b1 b2 b3 =
     ucast b0 OR push_bit 8 (ucast b1) OR push_bit 16 (ucast b2) OR push_bit 24 (ucast b3)"

definition bytes32 :: "u32 \<Rightarrow> u8 list" where
  "bytes32 w = [ucast w, ucast (drop_bit 8 w), ucast (drop_bit 16 w), ucast (drop_bit 24 w)]"

definition host64 :: "u32 \<Rightarrow> u32 \<Rightarrow> u64" where
  "host64 lo hi = ucast lo OR push_bit 32 (ucast hi)"

definition bytes64 :: "u64 \<Rightarrow> u8 list" where
  "bytes64 w = bytes32 (ucast w) @ bytes32 (ucast (drop_bit 32 w))"

definition nswap16 :: "u16 \<Rightarrow> u16" where
  "nswap16 w = push_bit 8 w OR drop_bit 8 w"

definition nswap32 :: "u32 \<Rightarrow> u32" where
  "nswap32 w = host32 (ucast (drop_bit 24 w)) (ucast (drop_bit 16 w)) (ucast (drop_bit 8 w)) (ucast w)"

definition nswap64 :: "u64 \<Rightarrow> u64" where
  "nswap64 w = host64 (nswap32 (ucast (drop_bit 32 w))) (nswap32 (ucast w))"

text \<open>The value of a field in network byte order, most significant byte first.\<close>

definition be16 :: "u8 \<Rightarrow> u8 \<Rightarrow> nat" where
  "be16 hi lo = 256 * unat hi + unat lo"

lemma bit_u8_high [simp]: "8 \<le> k \<Longrightarrow> \<not> bit (a :: u8) k"
  using bit_imp_le_length [of a k] by auto

lemma unat_u8: "unat (a :: u8) < 256"
  using unsigned_less [of a, where 'a = nat] by simp

lemma unat_u16: "unat (a :: u16) < 65536"
  using unsigned_less [of a, where 'a = nat] by simp

lemma unat_u32: "unat (a :: u32) < 4294967296"
  using unsigned_less [of a, where 'a = nat] by simp

lemma sint_u32_small:
  assumes "unat (w :: u32) < 2147483648"
  shows "sint w = int (unat w)"
proof -
  have "signed_take_bit 31 (int n) = int n" if "n < 2147483648" for n
    using that by (simp add: signed_take_bit_int_eq_self_iff)
  from this [OF assms] show ?thesis by (simp add: sint_uint)
qed

lemma nswap16_nswap16 [simp]: "nswap16 (nswap16 w) = w"
  unfolding nswap16_def by (rule bit_word_eqI) (auto simp: bit_simps)

lemma nswap16_host16: "nswap16 (host16 a b) = host16 b a"
  unfolding nswap16_def host16_def
  by (rule bit_word_eqI) (auto simp: bit_simps dest: bit_imp_le_length)

lemma host16_bytes16 [simp]: "host16 (ucast w) (ucast (drop_bit 8 w)) = w"
  unfolding host16_def
  by (rule bit_word_eqI) (auto simp: bit_simps dest: bit_imp_le_length)

lemma host32_bytes32 [simp]:
  "host32 (ucast w) (ucast (drop_bit 8 w)) (ucast (drop_bit 16 w)) (ucast (drop_bit 24 w)) = w"
proof (rule bit_word_eqI)
  fix n assume "n < LENGTH(32)"
  moreover have "n < 8 \<or> 8 \<le> n \<and> n < 16 \<or> 16 \<le> n \<and> n < 24 \<or> 24 \<le> n" by arith
  ultimately show "bit (host32 (ucast w) (ucast (drop_bit 8 w)) (ucast (drop_bit 16 w))
      (ucast (drop_bit 24 w))) n = bit w n"
    unfolding host32_def by (auto simp: bit_simps)
qed

lemma host64_split [simp]: "host64 (ucast w) (ucast (drop_bit 32 w)) = w"
  unfolding host64_def
  by (rule bit_word_eqI) (auto simp: bit_simps dest: bit_imp_le_length)

lemma bytes16_host16 [simp]: "bytes16 (host16 a b) = [a, b]"
  unfolding bytes16_def host16_def
  by (auto intro!: bit_word_eqI simp: bit_simps dest: bit_imp_le_length)

lemma bytes32_host32 [simp]: "bytes32 (host32 a b c d) = [a, b, c, d]"
  unfolding bytes32_def host32_def
  by (auto intro!: bit_word_eqI simp: bit_simps dest: bit_imp_le_length)

lemma nswap32_host32: "nswap32 (host32 a b c d) = host32 d c b a"
  using bytes32_host32 [of a b c d] unfolding nswap32_def bytes32_def by simp

lemma nswap32_nswap32 [simp]: "nswap32 (nswap32 w) = w"
proof -
  have "nswap32 (nswap32 w) =
      nswap32 (host32 (ucast (drop_bit 24 w)) (ucast (drop_bit 16 w)) (ucast (drop_bit 8 w)) (ucast w))"
    by (simp only: nswap32_def [of w])
  then show ?thesis by (simp only: nswap32_host32 host32_bytes32)
qed

lemma nswap16_inj [simp]: "nswap16 a = nswap16 b \<longleftrightarrow> a = b"
  by (metis nswap16_nswap16)

lemma nswap32_inj [simp]: "nswap32 a = nswap32 b \<longleftrightarrow> a = b"
  by (metis nswap32_nswap32)

lemma length_bytes16 [simp]: "length (bytes16 w) = 2"
  by (simp add: bytes16_def)

lemma length_bytes32 [simp]: "length (bytes32 w) = 4"
  by (simp add: bytes32_def)

lemma length_bytes64 [simp]: "length (bytes64 w) = 8"
  by (simp add: bytes64_def)

lemma unat_host16: "unat (host16 a b) = unat a + 256 * unat b"
proof -
  have "host16 a b = ucast a + push_bit 8 (ucast b)"
    unfolding host16_def
    by (rule disjunctive_add [symmetric]) (auto simp: bit_simps dest: bit_imp_le_length)
  then show ?thesis
    using unat_u8 [of a] unat_u8 [of b]
    by (simp add: push_bit_eq_mult unat_word_ariths unsigned_ucast_eq take_bit_eq_mod)
qed

lemma unat_nswap16_host16: "unat (nswap16 (host16 a b)) = be16 a b"
  by (simp add: nswap16_host16 unat_host16 be16_def)

text \<open>Equality of words of 16 and 8 bits, bit by bit with literal indices.\<close>

lemma u16_eqI:
  fixes a b :: u16
  assumes "list_all (\<lambda>n. bit a n = bit b n) [0, 1, 2, 3, 4, 5, 6, 7, 8, 9, 10, 11, 12, 13, 14, 15]"
  shows "a = b"
proof (rule bit_word_eqI)
  fix n assume "n < LENGTH(16)"
  then have "n < 16" by simp
  then have "n \<in> set [0, 1, 2, 3, 4, 5, 6, 7, 8, 9, 10, 11, 12, 13, 14, 15]" by simp arith
  with assms show "bit a n = bit b n" unfolding list_all_iff by blast
qed

lemma u8_eqI:
  fixes a b :: u8
  assumes "list_all (\<lambda>n. bit a n = bit b n) [0, 1, 2, 3, 4, 5, 6, 7]"
  shows "a = b"
proof (rule bit_word_eqI)
  fix n assume "n < LENGTH(8)"
  then have "n < 8" by simp
  then have "n \<in> set [0, 1, 2, 3, 4, 5, 6, 7]" by simp arith
  with assms show "bit a n = bit b n" unfolding list_all_iff by blast
qed

lemma bit_u16_times2: "bit ((x :: u16) * 2) n \<longleftrightarrow> n \<noteq> 0 \<and> n < 16 \<and> bit x (n - 1)"
  by (auto simp: mult.commute [of x] bit_double_iff)

section \<open>Bounds-checked buffer access\<close>

definition rd8 :: "buffer \<Rightarrow> nat \<Rightarrow> u8 option" where
  "rd8 b i = (if i < length b then Some (b ! i) else None)"

definition rd16 :: "buffer \<Rightarrow> nat \<Rightarrow> u16 option" where
  "rd16 b i = (if i + 2 \<le> length b then Some (host16 (b ! i) (b ! (i + 1))) else None)"

definition rd32 :: "buffer \<Rightarrow> nat \<Rightarrow> u32 option" where
  "rd32 b i = (if i + 4 \<le> length b
     then Some (host32 (b ! i) (b ! (i + 1)) (b ! (i + 2)) (b ! (i + 3))) else None)"

definition rd64 :: "buffer \<Rightarrow> nat \<Rightarrow> u64 option" where
  "rd64 b i = do { lo \<leftarrow> rd32 b i; hi \<leftarrow> rd32 b (i + 4); Some (host64 lo hi) }"

text \<open>memcpy out of a buffer and memcpy into a buffer.\<close>

definition load :: "buffer \<Rightarrow> nat \<Rightarrow> nat \<Rightarrow> u8 list option" where
  "load b i n = (if i + n \<le> length b then Some (take n (drop i b)) else None)"

definition patch :: "buffer \<Rightarrow> nat \<Rightarrow> u8 list \<Rightarrow> buffer" where
  "patch b i s = take i b @ s @ drop (i + length s) b"

definition store :: "buffer \<Rightarrow> nat \<Rightarrow> u8 list \<Rightarrow> buffer option" where
  "store b i s = (if i + length s \<le> length b then Some (patch b i s) else None)"

definition wr8 :: "buffer \<Rightarrow> nat \<Rightarrow> u8 \<Rightarrow> buffer option" where
  "wr8 b i w = store b i [w]"

definition wr16 :: "buffer \<Rightarrow> nat \<Rightarrow> u16 \<Rightarrow> buffer option" where
  "wr16 b i w = store b i (bytes16 w)"

definition wr32 :: "buffer \<Rightarrow> nat \<Rightarrow> u32 \<Rightarrow> buffer option" where
  "wr32 b i w = store b i (bytes32 w)"

definition wr64 :: "buffer \<Rightarrow> nat \<Rightarrow> u64 \<Rightarrow> buffer option" where
  "wr64 b i w = store b i (bytes64 w)"

lemma rd8_in [mem_simps]: "i < length b \<Longrightarrow> rd8 b i = Some (b ! i)"
  by (simp add: rd8_def)

lemma rd16_in [mem_simps]: "i + 2 \<le> length b \<Longrightarrow> rd16 b i = Some (host16 (b ! i) (b ! (i + 1)))"
  by (simp add: rd16_def)

lemma rd32_in [mem_simps]:
  "i + 4 \<le> length b \<Longrightarrow>
     rd32 b i = Some (host32 (b ! i) (b ! (i + 1)) (b ! (i + 2)) (b ! (i + 3)))"
  by (simp add: rd32_def)

lemma load_in [mem_simps]: "i + n \<le> length b \<Longrightarrow> load b i n = Some (take n (drop i b))"
  by (simp add: load_def)

lemma store_in [mem_simps]: "i + length s \<le> length b \<Longrightarrow> store b i s = Some (patch b i s)"
  by (simp add: store_def)

lemma length_load: "load b i n = Some l \<Longrightarrow> length l = n"
  by (auto simp: load_def split: if_splits)

lemma store_Some:
  "store b i s = Some b' \<longleftrightarrow> i + length s \<le> length b \<and> b' = patch b i s"
  by (auto simp: store_def)

lemma length_patch [simp]: "i + length s \<le> length b \<Longrightarrow> length (patch b i s) = length b"
  by (simp add: patch_def)

lemma nth_patch:
  "i + length s \<le> length b \<Longrightarrow> j < length b \<Longrightarrow>
     patch b i s ! j = (if j < i then b ! j else if j < i + length s then s ! (j - i) else b ! j)"
  by (auto simp: patch_def nth_append)

lemma take_patch [simp]: "n \<le> i \<Longrightarrow> i \<le> length b \<Longrightarrow> take n (patch b i s) = take n b"
  by (simp add: patch_def)

lemma drop_patch [simp]:
  "i + length s \<le> length b \<Longrightarrow> i + length s \<le> n \<Longrightarrow> drop n (patch b i s) = drop n b"
  by (simp add: patch_def)

lemma take_drop_patch_before [simp]:
  "j + n \<le> i \<Longrightarrow> i \<le> length b \<Longrightarrow> take n (drop j (patch b i s)) = take n (drop j b)"
  by (simp add: take_drop)

lemma take_drop_patch_same [simp]:
  "i + length s \<le> length b \<Longrightarrow> n = length s \<Longrightarrow> take n (drop i (patch b i s)) = s"
  by (simp add: patch_def)

lemma rd8_patch:
  "i + length s \<le> length b \<Longrightarrow> j < i \<or> i + length s \<le> j \<Longrightarrow> rd8 (patch b i s) j = rd8 b j"
  by (auto simp: rd8_def nth_patch)

lemma rd16_patch:
  "i + length s \<le> length b \<Longrightarrow> j + 2 \<le> i \<or> i + length s \<le> j \<Longrightarrow>
     rd16 (patch b i s) j = rd16 b j"
  by (auto simp: rd16_def nth_patch)

lemma rd32_patch:
  "i + length s \<le> length b \<Longrightarrow> j + 4 \<le> i \<or> i + length s \<le> j \<Longrightarrow>
     rd32 (patch b i s) j = rd32 b j"
  by (auto simp: rd32_def nth_patch)

lemma rd16_patch_same [simp]:
  "i + 2 \<le> length b \<Longrightarrow> rd16 (patch b i (bytes16 w)) i = Some w"
  by (simp add: rd16_def nth_patch) (simp add: bytes16_def)

lemma rd32_patch_same [simp]:
  "i + 4 \<le> length b \<Longrightarrow> rd32 (patch b i (bytes32 w)) i = Some w"
  by (simp add: rd32_def nth_patch) (simp add: bytes32_def numeral_2_eq_2 numeral_3_eq_3)

lemma patch_patch_adj:
  "j = i + length s \<Longrightarrow> j + length t \<le> length b \<Longrightarrow> patch (patch b i s) j t = patch b i (s @ t)"
  by (simp add: patch_def ac_simps)

section \<open>Time\<close>

text \<open>turn_time_before of ns_turn_defs.h: the difference of the two 32-bit
  times, read as signed numbers, is negative.\<close>

definition turn_time_before :: "turn_time_t \<Rightarrow> turn_time_t \<Rightarrow> bool" where
  "turn_time_before t1 t2 = (sint t1 - sint t2 < 0)"

end
