(* ===== verification/Ioaddr.thy ===== *)
theory Ioaddr
  imports Turn_Prelude
begin

text \<open>
  Transport addresses: src/client/ns_turn_ioaddr.c and ns_turn_ioaddr.h.

  ioa_addr is a union of sockaddr, sockaddr_in and sockaddr_in6.  The record below
  is an exact view of its 28 bytes in the Linux layout: the family and the port
  are at the same offsets in all members (bytes 0-1 and 2-3); s_addr is bytes 4-7,
  which are the flow label of sockaddr_in6; sin6_addr is bytes 8-23 and
  sin6_scope_id bytes 24-27.  Port and s_addr are the raw fields, in network byte
  order, as a little-endian host loads them.  Functions that accept a NULL pointer
  take an option.
\<close>

section \<open>Data\<close>

record ioa_addr =
  sa_family :: u16
  sin_port :: u16
  s_addr :: u32
  sin6_addr :: "u8 list"
  sin6_scope_id :: u32

record ioa_addr_range =
  range_min :: ioa_addr
  range_max :: ioa_addr

abbreviation (input) AF_INET :: u16 where "AF_INET \<equiv> 2"
abbreviation (input) AF_INET6 :: u16 where "AF_INET6 \<equiv> 10"

text \<open>struct in6_addr has 16 bytes.\<close>

definition wf_addr :: "ioa_addr \<Rightarrow> bool" where
  "wf_addr a \<longleftrightarrow> length (sin6_addr a) = 16"

section \<open>Basic operations\<close>

definition addr_set_any :: ioa_addr where
  "addr_set_any = \<lparr>sa_family = 0, sin_port = 0, s_addr = 0, sin6_addr = replicate 16 0, sin6_scope_id = 0\<rparr>"

definition get_ioa_addr_len :: "ioa_addr \<Rightarrow> u32" where
  "get_ioa_addr_len a =
     (if sa_family a = AF_INET then 16 else if sa_family a = AF_INET6 then 28 else 0)"

fun addr_any :: "ioa_addr option \<Rightarrow> bool" where
  "addr_any None = True"
| "addr_any (Some a) =
     (if sa_family a = AF_INET then s_addr a = 0 \<and> sin_port a = 0
      else if sa_family a = AF_INET6 then
        (if sin_port a \<noteq> 0 then False else \<not> list_ex (\<lambda>c. c \<noteq> 0) (sin6_addr a))
      else True)"

fun addr_any_no_port :: "ioa_addr option \<Rightarrow> bool" where
  "addr_any_no_port None = True"
| "addr_any_no_port (Some a) =
     (if sa_family a = AF_INET then s_addr a = 0
      else if sa_family a = AF_INET6 then \<not> list_ex (\<lambda>c. c \<noteq> 0) (sin6_addr a)
      else True)"

definition hash_int32 :: "u32 \<Rightarrow> u32" where
  "hash_int32 a0 =
     (let a1 = a0 XOR drop_bit 4 a0;
          a2 = (a1 XOR 0xdeadbeef) + push_bit 5 a1
      in a2 XOR drop_bit 11 a2)"

definition hash_int64 :: "u64 \<Rightarrow> u64" where
  "hash_int64 a0 =
     (let a1 = a0 XOR drop_bit 4 a0;
          a2 = (a1 XOR 0xdeadbeefdeadbeef) + push_bit 5 a1
      in a2 XOR drop_bit 11 a2)"

text \<open>The two 64-bit words that memcpy makes of the 16 address bytes.\<close>

definition addr_u64 :: "u8 list \<Rightarrow> nat \<Rightarrow> u64" where
  "addr_u64 l i = host64 (host32 (l ! i) (l ! (i + 1)) (l ! (i + 2)) (l ! (i + 3)))
     (host32 (l ! (i + 4)) (l ! (i + 5)) (l ! (i + 6)) (l ! (i + 7)))"

fun addr_hash :: "ioa_addr option \<Rightarrow> u32" where
  "addr_hash None = 0"
| "addr_hash (Some a) =
     (if sa_family a = AF_INET then hash_int32 (s_addr a + ucast (sin_port a))
      else ucast (push_bit 3 (hash_int64 (addr_u64 (sin6_addr a) 0)) +
                  hash_int64 (addr_u64 (sin6_addr a) 8 + ucast (sin_port a))))"

fun addr_hash_no_port :: "ioa_addr option \<Rightarrow> u32" where
  "addr_hash_no_port None = 0"
| "addr_hash_no_port (Some a) =
     (if sa_family a = AF_INET then hash_int32 (s_addr a)
      else ucast (push_bit 3 (hash_int64 (addr_u64 (sin6_addr a) 0)) +
                  hash_int64 (addr_u64 (sin6_addr a) 8)))"

fun addr_eq :: "ioa_addr option \<Rightarrow> ioa_addr option \<Rightarrow> bool" where
  "addr_eq None a2 = (a2 = None)"
| "addr_eq (Some a1) None = False"
| "addr_eq (Some a1) (Some a2) =
     (if sa_family a1 = sa_family a2 then
        (if sa_family a1 = AF_INET \<and> sin_port a1 = sin_port a2 then s_addr a1 = s_addr a2
         else if sa_family a1 = AF_INET6 \<and> sin_port a1 = sin_port a2
         then sin6_addr a1 = sin6_addr a2
         else False)
      else False)"

fun addr_eq_no_port :: "ioa_addr option \<Rightarrow> ioa_addr option \<Rightarrow> bool" where
  "addr_eq_no_port None a2 = (a2 = None)"
| "addr_eq_no_port (Some a1) None = False"
| "addr_eq_no_port (Some a1) (Some a2) =
     (if sa_family a1 = sa_family a2 then
        (if sa_family a1 = AF_INET then s_addr a1 = s_addr a2
         else if sa_family a1 = AF_INET6 then sin6_addr a1 = sin6_addr a2
         else False)
      else False)"

definition addr_set_port :: "ioa_addr \<Rightarrow> u16 \<Rightarrow> ioa_addr" where
  "addr_set_port a port =
     (if sa_family a = AF_INET then a\<lparr>sin_port := nswap16 port\<rparr>
      else if sa_family a = AF_INET6 then a\<lparr>sin_port := nswap16 port\<rparr>
      else a)"

fun addr_get_port :: "ioa_addr option \<Rightarrow> u16" where
  "addr_get_port None = 0"
| "addr_get_port (Some a) =
     (if sa_family a = AF_INET then nswap16 (sin_port a)
      else if sa_family a = AF_INET6 then nswap16 (sin_port a)
      else 0)"

text \<open>addr_cpy4 and addr_cpy6 copy 16 and 28 bytes over the destination.\<close>

definition addr_cpy4 :: "ioa_addr \<Rightarrow> ioa_addr \<Rightarrow> ioa_addr" where
  "addr_cpy4 dst src = dst\<lparr>sa_family := sa_family src, sin_port := sin_port src,
     s_addr := s_addr src, sin6_addr := take 8 (sin6_addr src) @ drop 8 (sin6_addr dst)\<rparr>"

definition addr_cpy6 :: "ioa_addr \<Rightarrow> ioa_addr \<Rightarrow> ioa_addr" where
  "addr_cpy6 dst src = src"

section \<open>Ranges\<close>

definition ioa_addr_range_set :: "ioa_addr option \<Rightarrow> ioa_addr option \<Rightarrow> ioa_addr_range" where
  "ioa_addr_range_set addr_min addr_max =
     \<lparr>range_min = (case addr_min of Some a \<Rightarrow> a | None \<Rightarrow> addr_set_any),
      range_max = (case addr_max of Some a \<Rightarrow> a | None \<Rightarrow> addr_set_any)\<rparr>"

fun addr_less_eq :: "ioa_addr option \<Rightarrow> ioa_addr option \<Rightarrow> bool" where
  "addr_less_eq None a2 = True"
| "addr_less_eq (Some a1) None = False"
| "addr_less_eq (Some a1) (Some a2) =
     (if sa_family a1 \<noteq> sa_family a2 then sa_family a1 < sa_family a2
      else if sa_family a1 = AF_INET then nswap32 (s_addr a1) \<le> nswap32 (s_addr a2)
      else if sa_family a1 = AF_INET6 then
        \<not> list_ex (\<lambda>i. sin6_addr a1 ! i > sin6_addr a2 ! i) [0..<16]
      else True)"

text \<open>The macro IN6_IS_ADDR_V4MAPPED of the C library: ::ffff:0:0/96.\<close>

definition v4mapped :: "u8 list \<Rightarrow> bool" where
  "v4mapped u \<longleftrightarrow> list_all (\<lambda>i. u ! i = 0) [0..<10] \<and> u ! 10 = 0xff \<and> u ! 11 = 0xff"

fun ioa_addr_in_range :: "ioa_addr_range option \<Rightarrow> ioa_addr option \<Rightarrow> bool" where
  "ioa_addr_in_range (Some rng) (Some addr0) =
     (let addr =
        (if sa_family addr0 = AF_INET6 then
           (let f0 = sa_family (range_min rng);
                range_family = (if f0 = 0 then sa_family (range_max rng) else f0)
            in if range_family = AF_INET \<and> v4mapped (sin6_addr addr0)
               then addr_set_any\<lparr>sa_family := AF_INET,
                      s_addr := host32 (sin6_addr addr0 ! 12) (sin6_addr addr0 ! 13)
                                  (sin6_addr addr0 ! 14) (sin6_addr addr0 ! 15)\<rparr>
               else addr0)
         else addr0)
      in if addr_any (Some (range_min rng)) \<or> addr_less_eq (Some (range_min rng)) (Some addr)
         then (if addr_any (Some (range_max rng)) then True
               else addr_less_eq (Some addr) (Some (range_max rng)))
         else False)"
| "ioa_addr_in_range _ _ = False"

definition ioa_addr_range_cpy :: "ioa_addr_range \<Rightarrow> ioa_addr_range" where
  "ioa_addr_range_cpy src = \<lparr>range_min = range_min src, range_max = range_max src\<rparr>"

section \<open>Address classes\<close>

fun ioa_addr_is_multicast :: "ioa_addr option \<Rightarrow> bool" where
  "ioa_addr_is_multicast None = False"
| "ioa_addr_is_multicast (Some a) =
     (if sa_family a = AF_INET then bytes32 (s_addr a) ! 0 > 223
      else if sa_family a = AF_INET6 then
        (let u = sin6_addr a in if v4mapped u then u ! 12 > 223 else u ! 0 = 255)
      else False)"

fun ioa_addr_is_loopback :: "ioa_addr option \<Rightarrow> bool" where
  "ioa_addr_is_loopback None = False"
| "ioa_addr_is_loopback (Some a) =
     (if sa_family a = AF_INET then bytes32 (s_addr a) ! 0 = 127
      else if sa_family a = AF_INET6 then
        (let u = sin6_addr a in
         if v4mapped u then u ! 12 = 127
         else if u ! 15 = 1 then \<not> list_ex (\<lambda>i. u ! i \<noteq> 0) [0..<15]
         else False)
      else False)"

fun ioa_addr_is_zero :: "ioa_addr option \<Rightarrow> bool" where
  "ioa_addr_is_zero None = False"
| "ioa_addr_is_zero (Some a) =
     (if sa_family a = AF_INET then bytes32 (s_addr a) ! 0 = 0
      else if sa_family a = AF_INET6 then
        (let u = sin6_addr a in
         if v4mapped u then u ! 12 = 0 \<and> u ! 13 = 0 \<and> u ! 14 = 0 \<and> u ! 15 = 0
         else \<not> list_ex (\<lambda>i. u ! i \<noteq> 0) [0..<16])
      else False)"

section \<open>Public and private addresses\<close>

text \<open>The static arrays public_addrs and private_addrs with mcount entries are one
  list of pairs.\<close>

type_synonym addr_mapping = "(ioa_addr \<times> ioa_addr) list"

definition ioa_addr_add_mapping :: "addr_mapping \<Rightarrow> ioa_addr \<Rightarrow> ioa_addr \<Rightarrow> addr_mapping" where
  "ioa_addr_add_mapping m apub apriv = m @ [(apub, apriv)]"

fun map_addr_from_public_to_private :: "addr_mapping \<Rightarrow> ioa_addr \<Rightarrow> ioa_addr" where
  "map_addr_from_public_to_private [] public_addr = public_addr"
| "map_addr_from_public_to_private ((apub, apriv) # m) public_addr =
     (if addr_eq_no_port (Some public_addr) (Some apub)
      then addr_set_port apriv (addr_get_port (Some public_addr))
      else map_addr_from_public_to_private m public_addr)"

fun map_addr_from_private_to_public :: "addr_mapping \<Rightarrow> ioa_addr \<Rightarrow> ioa_addr" where
  "map_addr_from_private_to_public [] private_addr = private_addr"
| "map_addr_from_private_to_public ((apub, apriv) # m) private_addr =
     (if addr_eq_no_port (Some private_addr) (Some apriv)
      then addr_set_port apub (addr_get_port (Some private_addr))
      else map_addr_from_private_to_public m private_addr)"

section \<open>Equality and hashing\<close>

lemma addr_eq_iff:
  "addr_eq (Some a) (Some b) \<longleftrightarrow>
     addr_eq_no_port (Some a) (Some b) \<and> sin_port a = sin_port b"
  by auto

lemma addr_eq_sym: "addr_eq x y = addr_eq y x"
  by (cases x; cases y) auto

lemma addr_eq_trans: "addr_eq x y \<Longrightarrow> addr_eq y z \<Longrightarrow> addr_eq x z"
  by (cases x; cases y; cases z) (auto split: if_splits)

lemma addr_eq_no_port_sym: "addr_eq_no_port x y = addr_eq_no_port y x"
  by (cases x; cases y) auto

lemma addr_eq_no_port_trans: "addr_eq_no_port x y \<Longrightarrow> addr_eq_no_port y z \<Longrightarrow> addr_eq_no_port x z"
  by (cases x; cases y; cases z) (auto split: if_splits)

lemma addr_eq_refl_iff: "addr_eq (Some a) (Some a) \<longleftrightarrow> sa_family a = AF_INET \<or> sa_family a = AF_INET6"
  by auto

lemma addr_eq_no_port_refl_iff:
  "addr_eq_no_port (Some a) (Some a) \<longleftrightarrow> sa_family a = AF_INET \<or> sa_family a = AF_INET6"
  by auto

lemma addr_hash_cong: "addr_eq x y \<Longrightarrow> addr_hash x = addr_hash y"
  by (cases x; cases y) (auto split: if_splits)

lemma addr_hash_no_port_cong: "addr_eq_no_port x y \<Longrightarrow> addr_hash_no_port x = addr_hash_no_port y"
  by (cases x; cases y) (auto split: if_splits)

lemma addr_get_set_port:
  "sa_family a = AF_INET \<or> sa_family a = AF_INET6 \<Longrightarrow> addr_get_port (Some (addr_set_port a p)) = p"
  by (auto simp: addr_set_port_def)

lemma addr_set_port_eq_no_port:
  "sa_family a = AF_INET \<or> sa_family a = AF_INET6 \<Longrightarrow>
     addr_eq_no_port (Some (addr_set_port a p)) (Some a)"
  by (auto simp: addr_set_port_def)

lemma wf_addr_set_any [simp]: "wf_addr addr_set_any"
  by (simp add: wf_addr_def addr_set_any_def)

lemma wf_addr_set_port [simp]: "wf_addr (addr_set_port a p) = wf_addr a"
  by (simp add: wf_addr_def addr_set_port_def)

section \<open>Properties\<close>

text \<open>The IPv4-mapped IPv6 address ::ffff:a.b.c.d of an IPv4 address.\<close>

definition v4map :: "ioa_addr \<Rightarrow> ioa_addr" where
  "v4map a = \<lparr>sa_family = AF_INET6, sin_port = sin_port a, s_addr = 0,
     sin6_addr = replicate 10 0 @ [0xff, 0xff] @ bytes32 (s_addr a), sin6_scope_id = 0\<rparr>"

lemma v4mapped_v4map: "v4mapped (sin6_addr (v4map a))"
  by (simp add: v4map_def v4mapped_def list_all_iff bytes32_def numeral_eq_Suc)

lemma v4map_bytes:
  "sin6_addr (v4map a) ! 12 = bytes32 (s_addr a) ! 0" "sin6_addr (v4map a) ! 13 = bytes32 (s_addr a) ! 1"
  "sin6_addr (v4map a) ! 14 = bytes32 (s_addr a) ! 2" "sin6_addr (v4map a) ! 15 = bytes32 (s_addr a) ! 3"
  by (simp_all add: v4map_def bytes32_def numeral_eq_Suc)

text \<open>Writing an IPv4 address as an IPv4-mapped IPv6 address does not change how the
  address checks see it: the loopback and multicast tests and the test against an IPv4 range
  have the same result for both forms.\<close>

theorem v4mapped_checks_agree:
  assumes "sa_family a = AF_INET" and "sa_family (range_min r) = AF_INET"
  shows "ioa_addr_is_loopback (Some (v4map a)) = ioa_addr_is_loopback (Some a) \<and>
     ioa_addr_is_multicast (Some (v4map a)) = ioa_addr_is_multicast (Some a) \<and>
     ioa_addr_in_range (Some r) (Some (v4map a)) = ioa_addr_in_range (Some r) (Some a)"
proof -
  have fam: "sa_family (v4map a) = AF_INET6" by (simp add: v4map_def)
  have "host32 (sin6_addr (v4map a) ! 12) (sin6_addr (v4map a) ! 13)
      (sin6_addr (v4map a) ! 14) (sin6_addr (v4map a) ! 15) = s_addr a"
    by (simp only: v4map_bytes) (simp add: bytes32_def numeral_3_eq_3)
  then have "ioa_addr_in_range (Some r) (Some (v4map a)) = ioa_addr_in_range (Some r) (Some a)"
    using assms fam v4mapped_v4map [of a] by (simp add: Let_def)
  moreover have "ioa_addr_is_loopback (Some (v4map a)) = ioa_addr_is_loopback (Some a)"
    "ioa_addr_is_multicast (Some (v4map a)) = ioa_addr_is_multicast (Some a)"
    using assms fam v4mapped_v4map [of a] v4map_bytes(1) [of a] by (simp_all add: Let_def)
  ultimately show ?thesis by blast
qed

theorem v4mapped_checks_agree_witness:
  "ioa_addr_is_loopback (Some (v4map (addr_set_any\<lparr>sa_family := AF_INET, s_addr := 0x0100007f\<rparr>)))"
proof -
  let ?a = "addr_set_any\<lparr>sa_family := AF_INET, s_addr := 0x0100007f\<rparr>"
  have "ioa_addr_is_loopback (Some ?a)" by (simp add: bytes32_def)
  then show ?thesis
    using v4mapped_checks_agree [of ?a "\<lparr>range_min = ?a, range_max = ?a\<rparr>"]
    by (simp del: ioa_addr_is_loopback.simps ioa_addr_is_multicast.simps ioa_addr_in_range.simps)
qed

text \<open>The number that the 16 bytes of an IPv6 address denote.\<close>

definition addr6_value :: "u8 list \<Rightarrow> nat" where
  "addr6_value l = foldl (\<lambda>v c. 256 * v + unat c) 0 l"

lemma foldl_value_mono:
  assumes "list_all2 (\<le>) l l'" "v \<le> w"
  shows "foldl (\<lambda>v c. 256 * v + unat c) v l \<le> foldl (\<lambda>v (c :: u8). 256 * v + unat c) w l'"
  using assms
proof (induction l l' arbitrary: v w rule: list_all2_induct)
  case (Cons x xs y ys)
  then have "256 * v + unat x \<le> 256 * w + unat y"
    by (simp add: add_mono word_le_nat_alt)
  with Cons show ?case by simp
qed simp

lemma addr_less_eq6_value:
  assumes "wf_addr a" "wf_addr b" "sa_family a = AF_INET6" "sa_family b = AF_INET6"
    "addr_less_eq (Some a) (Some b)"
  shows "addr6_value (sin6_addr a) \<le> addr6_value (sin6_addr b)"
proof -
  have "\<forall>i < 16. sin6_addr a ! i \<le> sin6_addr b ! i"
    using assms(3-5) by (auto simp: list_ex_iff not_less)
  then have "list_all2 (\<le>) (sin6_addr a) (sin6_addr b)"
    using assms(1,2) by (simp add: list_all2_conv_all_nth wf_addr_def)
  then show ?thesis unfolding addr6_value_def by (rule foldl_value_mono) simp
qed



text \<open>For IPv6 the range test is not complete: the comparison of addr_less_eq is byte by byte
  and not lexicographic, so an address between the bounds of a range may be reported outside.\<close>

theorem ioa_addr_in_range_ipv6_incomplete:
  "\<exists>r a. wf_addr a \<and> sa_family a = AF_INET6 \<and> sa_family (range_min r) = AF_INET6 \<and>
     sa_family (range_max r) = AF_INET6 \<and>
     addr6_value (sin6_addr (range_min r)) \<le> addr6_value (sin6_addr a) \<and>
     addr6_value (sin6_addr a) \<le> addr6_value (sin6_addr (range_max r)) \<and>
     \<not> ioa_addr_in_range (Some r) (Some a)"
proof -
  define ip :: "u8 \<Rightarrow> u8 \<Rightarrow> ioa_addr" where
    "ip = (\<lambda>x y. addr_set_any\<lparr>sa_family := AF_INET6, sin6_addr := [0x20, 1, 0x0d, 0xb8, 0, 0, 0, 0, 0, 0, 0, 0, 0, 0, x, y]\<rparr>)"
  let ?r = "\<lparr>range_min = ip 0 5, range_max = ip 1 0\<rparr>"
  have f: "sa_family (ip x y) = AF_INET6" "wf_addr (ip x y)"
    "sin6_addr (ip x y) = [0x20, 1, 0x0d, 0xb8, 0, 0, 0, 0, 0, 0, 0, 0, 0, 0, x, y]" for x y
    by (simp_all add: ip_def wf_addr_def)
  have "\<not> addr_any (Some (ip 1 0))" by (simp add: f)
  moreover have "\<not> addr_less_eq (Some (ip 0 0xff)) (Some (ip 1 0))"
    by (simp add: f list_ex_iff) (rule bexI [of _ 15], simp_all)
  ultimately have "\<not> ioa_addr_in_range (Some ?r) (Some (ip 0 0xff))"
    by (simp add: f Let_def del: addr_any.simps addr_less_eq.simps)
  moreover have "addr6_value (sin6_addr (ip 0 5)) \<le> addr6_value (sin6_addr (ip 0 0xff))"
    "addr6_value (sin6_addr (ip 0 0xff)) \<le> addr6_value (sin6_addr (ip 1 0))"
    by (simp_all add: f addr6_value_def)
  ultimately show ?thesis using f by (intro exI [of _ ?r] exI [of _ "ip 0 0xff"]) simp
qed

end
