(* ===== verification/Stun_Addr.thy ===== *)
theory Stun_Addr
  imports Ioaddr
begin

text \<open>
  The address attribute codec: src/client/ns_turn_msg_addr.c.

  cfield is the memory from the pointer to the end of its object; None is NULL.  The
  result is the return code together with the objects behind the output pointers,
  which the decoder modifies even on some of its error paths.
\<close>

section \<open>Encoder and decoder\<close>

text \<open>The two loops over the 16 address bytes: four bytes of the magic cookie in
  network order, then the twelve bytes of the transaction id.\<close>

definition xor_addr6 :: "u8 list \<Rightarrow> u32 \<Rightarrow> u8 list \<Rightarrow> u8 list" where
  "xor_addr6 src mc tid =
     map (\<lambda>i. src ! i XOR bytes32 (nswap32 mc) ! i) [0..<4] @
     map (\<lambda>i. src ! (i + 4) XOR tid ! i) [0..<12]"

definition stun_addr_encode ::
    "ioa_addr \<Rightarrow> buffer \<Rightarrow> int \<Rightarrow> bool \<Rightarrow> u32 \<Rightarrow> u8 list \<Rightarrow> (int \<times> buffer \<times> int) option" where
  "stun_addr_encode ca cfield clen xor_ed mc tsx_id =
     (if sa_family ca = AF_INET \<or> sa_family ca = 0 then do {
        c1 \<leftarrow> wr8 cfield 0 0;
        c2 \<leftarrow> wr8 c1 1 1;
        if xor_ed then do {
          c3 \<leftarrow> wr16 c2 2 (sin_port ca XOR nswap16 (ucast (drop_bit 16 mc)));
          c4 \<leftarrow> wr32 c3 4 (s_addr ca XOR nswap32 mc);
          Some (0, c4, 8)
        } else do {
          c3 \<leftarrow> wr16 c2 2 (sin_port ca);
          c4 \<leftarrow> wr32 c3 4 (s_addr ca);
          Some (0, c4, 8)
        }
      } else if sa_family ca = AF_INET6 then do {
        c1 \<leftarrow> wr8 cfield 0 0;
        c2 \<leftarrow> wr8 c1 1 2;
        if xor_ed then do {
          c3 \<leftarrow> wr16 c2 2 (sin_port ca XOR nswap16 (ucast (drop_bit 16 mc)));
          src \<leftarrow> load (sin6_addr ca) 0 16;
          tid \<leftarrow> load tsx_id 0 12;
          c4 \<leftarrow> store c3 4 (xor_addr6 src mc tid);
          Some (0, c4, 20)
        } else do {
          c3 \<leftarrow> wr16 c2 2 (sin_port ca);
          src \<leftarrow> load (sin6_addr ca) 0 16;
          c4 \<leftarrow> store c3 4 src;
          Some (0, c4, 20)
        }
      } else Some (- 1, cfield, clen))"

definition stun_addr_decode ::
    "ioa_addr \<Rightarrow> buffer option \<Rightarrow> int \<Rightarrow> bool \<Rightarrow> u32 \<Rightarrow> u8 list \<Rightarrow> (int \<times> ioa_addr) option" where
  "stun_addr_decode ca cfield_ptr len xor_ed mc tsx_id =
     (case cfield_ptr of None \<Rightarrow> Some (- 1, ca) | Some cfield \<Rightarrow>
      if len < 8 then Some (- 1, ca) else do {
        b0 \<leftarrow> rd8 cfield 0;
        if b0 \<noteq> 0 then Some (- 1, ca) else do {
          b1 \<leftarrow> rd8 cfield 1;
          if b1 = 1 then
            (let ca1 = ca\<lparr>sa_family := AF_INET\<rparr> in
             if len \<noteq> 8 then Some (- 1, ca1) else do {
               port \<leftarrow> rd16 cfield 2;
               ad \<leftarrow> rd32 cfield 4;
               if xor_ed
               then Some (0, ca1\<lparr>sin_port := port XOR nswap16 (ucast (drop_bit 16 mc)),
                                 s_addr := ad XOR nswap32 mc\<rparr>)
               else Some (0, ca1\<lparr>sin_port := port, s_addr := ad\<rparr>)
             })
          else if b1 = 2 then
            (let ca1 = ca\<lparr>sa_family := AF_INET6\<rparr> in
             if len \<noteq> 20 then Some (- 1, ca1) else do {
               port \<leftarrow> rd16 cfield 2;
               ad \<leftarrow> load cfield 4 16;
               if xor_ed
               then do {
                 tid \<leftarrow> load tsx_id 0 12;
                 Some (0, ca1\<lparr>sin_port := port XOR nswap16 (ucast (drop_bit 16 mc)),
                              sin6_addr := xor_addr6 ad mc tid\<rparr>)
               }
               else Some (0, ca1\<lparr>sin_port := port, sin6_addr := ad\<rparr>)
             })
          else Some (- 1, ca)
        }
      })"

section \<open>The wire format\<close>

text \<open>The bytes of the attribute value as a function of the address, the abstract
  view of the encoder.\<close>

definition addr_wire :: "bool \<Rightarrow> u32 \<Rightarrow> u8 list \<Rightarrow> ioa_addr \<Rightarrow> u8 list" where
  "addr_wire xor_ed mc tid a =
     (let port = (if xor_ed then sin_port a XOR nswap16 (ucast (drop_bit 16 mc)) else sin_port a) in
      if sa_family a = AF_INET6
      then [0, 2] @ bytes16 port @
           (if xor_ed then xor_addr6 (sin6_addr a) mc tid else sin6_addr a)
      else [0, 1] @ bytes16 port @
           bytes32 (if xor_ed then s_addr a XOR nswap32 mc else s_addr a))"

lemma length_xor_addr6 [simp]: "length (xor_addr6 src mc tid) = 16"
  by (simp add: xor_addr6_def)

lemma xor_addr6_twice:
  assumes "length src = 16"
  shows "xor_addr6 (xor_addr6 src mc tid) mc tid = src"
proof (rule nth_equalityI)
  show "length (xor_addr6 (xor_addr6 src mc tid) mc tid) = length src" using assms by simp
next
  fix i assume "i < length (xor_addr6 (xor_addr6 src mc tid) mc tid)"
  then have i: "i < 16" by simp
  have nth: "xor_addr6 s mc tid ! i = s ! i XOR (if i < 4 then bytes32 (nswap32 mc) ! i else tid ! (i - 4))"
    for s
  proof (cases "i < 4")
    case False
    then have "i - 4 < 12" "i - 4 + 4 = i" using i by auto
    with False show ?thesis by (simp add: xor_addr6_def nth_append)
  qed (simp add: xor_addr6_def nth_append)
  show "xor_addr6 (xor_addr6 src mc tid) mc tid ! i = src ! i"
    by (simp add: nth xor.assoc)
qed

lemma length_addr_wire:
  "wf_addr a \<Longrightarrow> length (addr_wire x mc tid a) = (if sa_family a = AF_INET6 then 20 else 8)"
  by (simp add: addr_wire_def Let_def wf_addr_def)

lemmas store_defs = wr8_def wr16_def wr32_def store_def

lemma stun_addr_encode_wire:
  assumes "wf_addr a" "length tid = 12" "20 \<le> length c"
    and "sa_family a \<in> {0, AF_INET, AF_INET6}"
  shows "stun_addr_encode a c cl x mc tid =
     Some (0, patch c 0 (addr_wire x mc tid a), (if sa_family a = AF_INET6 then 20 else 8))"
proof -
  have 1: "patch (patch c 0 [u]) (Suc 0) [v] = patch c 0 [u, v]" for u v
    using assms by (simp add: patch_patch_adj)
  have 2: "patch (patch c 0 [u, v]) 2 (bytes16 w) = patch c 0 ([u, v] @ bytes16 w)" for u v w
    using assms by (simp add: patch_patch_adj)
  have 3: "patch (patch c 0 (u # v # bytes16 w)) 4 s = patch c 0 ([u, v] @ bytes16 w @ s)"
    if "length s \<le> 16" for u v w s
    using assms that by (simp add: patch_patch_adj)
  show ?thesis
    using assms
    by (auto simp: stun_addr_encode_def addr_wire_def Let_def store_defs load_def wf_addr_def 1 2 3)
qed

lemma stun_addr_decode_wire:
  assumes "wf_addr a" "length tid = 12" "sa_family a \<in> {0, AF_INET, AF_INET6}"
  shows "stun_addr_decode ca (Some (addr_wire x mc tid a @ rest))
       (if sa_family a = AF_INET6 then 20 else 8) x mc tid =
     Some (0, if sa_family a = AF_INET6
              then ca\<lparr>sa_family := AF_INET6, sin_port := sin_port a, sin6_addr := sin6_addr a\<rparr>
              else ca\<lparr>sa_family := AF_INET, sin_port := sin_port a, s_addr := s_addr a\<rparr>)"
  using assms
  by (auto simp: stun_addr_decode_def addr_wire_def Let_def rd8_def rd16_def rd32_def load_def
      wf_addr_def bytes16_def bytes32_def xor_addr6_twice xor.assoc)

lemma stun_addr_decode_safe:
  assumes "len \<le> int (length c)" "length tid = 12"
  shows "stun_addr_decode ca (Some c) len x mc tid \<noteq> None"
  using assms
  by (auto simp: stun_addr_decode_def Let_def rd8_def rd16_def rd32_def load_def)

lemma stun_addr_decode_family:
  "stun_addr_decode ca c len x mc tid = Some (0, ca') \<Longrightarrow> wf_addr ca \<Longrightarrow>
     wf_addr ca' \<and> (sa_family ca' = AF_INET \<or> sa_family ca' = AF_INET6)"
  by (auto simp: stun_addr_decode_def Let_def wf_addr_def load_def split: option.splits if_splits
      Option.bind_splits)

end
