(* ===== verification/Stun_Msg.thy ===== *)
theory Stun_Msg
  imports Stun_Addr
begin

text \<open>
  The STUN message layer of src/client/ns_turn_msg.c: message header, message
  types and methods, transaction ids, and the reading and appending of attributes.

  A message is a buffer (the whole memory object) with the length argument of the C
  functions.  An attribute reference (stun_attr_ref) is the offset of the attribute
  in the buffer, None for NULL.  Buffer arguments themselves are never NULL here.
  The random source behind turn_random_tid_size is an argument, the 12 bytes that it
  produces.
\<close>

section \<open>Constants of ns_turn_msg_defs.h\<close>

abbreviation (input) STUN_HEADER_LENGTH :: nat where "STUN_HEADER_LENGTH \<equiv> 20"
abbreviation (input) STUN_MAGIC_COOKIE :: u32 where "STUN_MAGIC_COOKIE \<equiv> 0x2112A442"
abbreviation (input) MAX_STUN_MESSAGE_SIZE :: int where "MAX_STUN_MESSAGE_SIZE \<equiv> 65507"
abbreviation (input) FINGERPRINT_XOR :: u32 where "FINGERPRINT_XOR \<equiv> 0x5354554e"
abbreviation (input) STUN_TID_SIZE :: nat where "STUN_TID_SIZE \<equiv> 12"

abbreviation (input) STUN_METHOD_BINDING :: u16 where "STUN_METHOD_BINDING \<equiv> 0x0001"
abbreviation (input) STUN_METHOD_ALLOCATE :: u16 where "STUN_METHOD_ALLOCATE \<equiv> 0x0003"
abbreviation (input) STUN_METHOD_REFRESH :: u16 where "STUN_METHOD_REFRESH \<equiv> 0x0004"
abbreviation (input) STUN_METHOD_SEND :: u16 where "STUN_METHOD_SEND \<equiv> 0x0006"
abbreviation (input) STUN_METHOD_DATA :: u16 where "STUN_METHOD_DATA \<equiv> 0x0007"
abbreviation (input) STUN_METHOD_CREATE_PERMISSION :: u16 where "STUN_METHOD_CREATE_PERMISSION \<equiv> 0x0008"
abbreviation (input) STUN_METHOD_CHANNEL_BIND :: u16 where "STUN_METHOD_CHANNEL_BIND \<equiv> 0x0009"
abbreviation (input) STUN_METHOD_CONNECT :: u16 where "STUN_METHOD_CONNECT \<equiv> 0x000a"
abbreviation (input) STUN_METHOD_CONNECTION_BIND :: u16 where "STUN_METHOD_CONNECTION_BIND \<equiv> 0x000b"
abbreviation (input) STUN_METHOD_CONNECTION_ATTEMPT :: u16 where "STUN_METHOD_CONNECTION_ATTEMPT \<equiv> 0x000c"

abbreviation (input) STUN_ATTRIBUTE_MAPPED_ADDRESS :: u16 where "STUN_ATTRIBUTE_MAPPED_ADDRESS \<equiv> 0x0001"
abbreviation (input) OLD_STUN_ATTRIBUTE_RESPONSE_ADDRESS :: u16 where "OLD_STUN_ATTRIBUTE_RESPONSE_ADDRESS \<equiv> 0x0002"
abbreviation (input) STUN_ATTRIBUTE_CHANGE_REQUEST :: u16 where "STUN_ATTRIBUTE_CHANGE_REQUEST \<equiv> 0x0003"
abbreviation (input) OLD_STUN_ATTRIBUTE_SOURCE_ADDRESS :: u16 where "OLD_STUN_ATTRIBUTE_SOURCE_ADDRESS \<equiv> 0x0004"
abbreviation (input) OLD_STUN_ATTRIBUTE_CHANGED_ADDRESS :: u16 where "OLD_STUN_ATTRIBUTE_CHANGED_ADDRESS \<equiv> 0x0005"
abbreviation (input) STUN_ATTRIBUTE_USERNAME :: u16 where "STUN_ATTRIBUTE_USERNAME \<equiv> 0x0006"
abbreviation (input) STUN_ATTRIBUTE_MESSAGE_INTEGRITY :: u16 where "STUN_ATTRIBUTE_MESSAGE_INTEGRITY \<equiv> 0x0008"
abbreviation (input) STUN_ATTRIBUTE_ERROR_CODE :: u16 where "STUN_ATTRIBUTE_ERROR_CODE \<equiv> 0x0009"
abbreviation (input) STUN_ATTRIBUTE_UNKNOWN_ATTRIBUTES :: u16 where "STUN_ATTRIBUTE_UNKNOWN_ATTRIBUTES \<equiv> 0x000A"
abbreviation (input) OLD_STUN_ATTRIBUTE_REFLECTED_FROM :: u16 where "OLD_STUN_ATTRIBUTE_REFLECTED_FROM \<equiv> 0x000B"
abbreviation (input) STUN_ATTRIBUTE_CHANNEL_NUMBER :: u16 where "STUN_ATTRIBUTE_CHANNEL_NUMBER \<equiv> 0x000C"
abbreviation (input) STUN_ATTRIBUTE_LIFETIME :: u16 where "STUN_ATTRIBUTE_LIFETIME \<equiv> 0x000D"
abbreviation (input) STUN_ATTRIBUTE_BANDWIDTH :: u16 where "STUN_ATTRIBUTE_BANDWIDTH \<equiv> 0x0010"
abbreviation (input) STUN_ATTRIBUTE_XOR_PEER_ADDRESS :: u16 where "STUN_ATTRIBUTE_XOR_PEER_ADDRESS \<equiv> 0x0012"
abbreviation (input) STUN_ATTRIBUTE_DATA :: u16 where "STUN_ATTRIBUTE_DATA \<equiv> 0x0013"
abbreviation (input) STUN_ATTRIBUTE_REALM :: u16 where "STUN_ATTRIBUTE_REALM \<equiv> 0x0014"
abbreviation (input) STUN_ATTRIBUTE_NONCE :: u16 where "STUN_ATTRIBUTE_NONCE \<equiv> 0x0015"
abbreviation (input) STUN_ATTRIBUTE_XOR_RELAYED_ADDRESS :: u16 where "STUN_ATTRIBUTE_XOR_RELAYED_ADDRESS \<equiv> 0x0016"
abbreviation (input) STUN_ATTRIBUTE_REQUESTED_ADDRESS_FAMILY :: u16 where "STUN_ATTRIBUTE_REQUESTED_ADDRESS_FAMILY \<equiv> 0x0017"
abbreviation (input) STUN_ATTRIBUTE_EVEN_PORT :: u16 where "STUN_ATTRIBUTE_EVEN_PORT \<equiv> 0x0018"
abbreviation (input) STUN_ATTRIBUTE_REQUESTED_TRANSPORT :: u16 where "STUN_ATTRIBUTE_REQUESTED_TRANSPORT \<equiv> 0x0019"
abbreviation (input) STUN_ATTRIBUTE_DONT_FRAGMENT :: u16 where "STUN_ATTRIBUTE_DONT_FRAGMENT \<equiv> 0x001A"
abbreviation (input) STUN_ATTRIBUTE_OAUTH_ACCESS_TOKEN :: u16 where "STUN_ATTRIBUTE_OAUTH_ACCESS_TOKEN \<equiv> 0x001B"
abbreviation (input) STUN_ATTRIBUTE_XOR_MAPPED_ADDRESS :: u16 where "STUN_ATTRIBUTE_XOR_MAPPED_ADDRESS \<equiv> 0x0020"
abbreviation (input) STUN_ATTRIBUTE_RESERVATION_TOKEN :: u16 where "STUN_ATTRIBUTE_RESERVATION_TOKEN \<equiv> 0x0022"
abbreviation (input) STUN_ATTRIBUTE_PRIORITY :: u16 where "STUN_ATTRIBUTE_PRIORITY \<equiv> 0x0024"
abbreviation (input) STUN_ATTRIBUTE_PADDING :: u16 where "STUN_ATTRIBUTE_PADDING \<equiv> 0x0026"
abbreviation (input) STUN_ATTRIBUTE_RESPONSE_PORT :: u16 where "STUN_ATTRIBUTE_RESPONSE_PORT \<equiv> 0x0027"
abbreviation (input) STUN_ATTRIBUTE_CONNECTION_ID :: u16 where "STUN_ATTRIBUTE_CONNECTION_ID \<equiv> 0x002A"
abbreviation (input) STUN_ATTRIBUTE_ADDITIONAL_ADDRESS_FAMILY :: u16 where "STUN_ATTRIBUTE_ADDITIONAL_ADDRESS_FAMILY \<equiv> 0x8000"
abbreviation (input) STUN_ATTRIBUTE_ADDRESS_ERROR_CODE :: u16 where "STUN_ATTRIBUTE_ADDRESS_ERROR_CODE \<equiv> 0x8001"
abbreviation (input) STUN_ATTRIBUTE_NEW_BANDWIDTH :: u16 where "STUN_ATTRIBUTE_NEW_BANDWIDTH \<equiv> 0x8010"
abbreviation (input) STUN_ATTRIBUTE_SOFTWARE :: u16 where "STUN_ATTRIBUTE_SOFTWARE \<equiv> 0x8022"
abbreviation (input) STUN_ATTRIBUTE_ALTERNATE_SERVER :: u16 where "STUN_ATTRIBUTE_ALTERNATE_SERVER \<equiv> 0x8023"
abbreviation (input) STUN_ATTRIBUTE_FINGERPRINT :: u16 where "STUN_ATTRIBUTE_FINGERPRINT \<equiv> 0x8028"
abbreviation (input) STUN_ATTRIBUTE_RESPONSE_ORIGIN :: u16 where "STUN_ATTRIBUTE_RESPONSE_ORIGIN \<equiv> 0x802B"
abbreviation (input) STUN_ATTRIBUTE_OTHER_ADDRESS :: u16 where "STUN_ATTRIBUTE_OTHER_ADDRESS \<equiv> 0x802C"
abbreviation (input) STUN_ATTRIBUTE_THIRD_PARTY_AUTHORIZATION :: u16 where "STUN_ATTRIBUTE_THIRD_PARTY_AUTHORIZATION \<equiv> 0x802E"
abbreviation (input) STUN_ATTRIBUTE_ORIGIN :: u16 where "STUN_ATTRIBUTE_ORIGIN \<equiv> 0x802F"
abbreviation (input) STUN_ATTRIBUTE_MOBILITY_TICKET :: u16 where "STUN_ATTRIBUTE_MOBILITY_TICKET \<equiv> 0x8030"

definition STUN_VALID_CHANNEL :: "u16 \<Rightarrow> bool" where
  "STUN_VALID_CHANNEL chn \<longleftrightarrow> 0x4000 \<le> chn \<and> chn \<le> 0x7FFF"

definition IS_STUN_REQUEST :: "u16 \<Rightarrow> bool" where
  "IS_STUN_REQUEST t \<longleftrightarrow> t AND 0x0110 = 0x0000"

definition IS_STUN_INDICATION :: "u16 \<Rightarrow> bool" where
  "IS_STUN_INDICATION t \<longleftrightarrow> t AND 0x0110 = 0x0010"

definition IS_STUN_SUCCESS_RESP :: "u16 \<Rightarrow> bool" where
  "IS_STUN_SUCCESS_RESP t \<longleftrightarrow> t AND 0x0110 = 0x0100"

definition IS_STUN_ERR_RESP :: "u16 \<Rightarrow> bool" where
  "IS_STUN_ERR_RESP t \<longleftrightarrow> t AND 0x0110 = 0x0110"

section \<open>Header, types and methods\<close>

definition stun_get_command_message_len_str :: "buffer \<Rightarrow> nat \<Rightarrow> int option" where
  "stun_get_command_message_len_str buf len =
     (if len < STUN_HEADER_LENGTH then Some (- 1) else do {
        w \<leftarrow> rd16 buf 2;
        let bufLen = unat (nswap16 w) + STUN_HEADER_LENGTH;
        if bufLen > len then Some (- 1) else Some (int bufLen)
      })"

definition stun_set_command_message_len_str :: "buffer \<Rightarrow> int \<Rightarrow> (bool \<times> buffer) option" where
  "stun_set_command_message_len_str buf len =
     (if len < int STUN_HEADER_LENGTH then Some (False, buf) else do {
        b \<leftarrow> wr16 buf 2 (nswap16 (word_of_int (len - int STUN_HEADER_LENGTH)));
        Some (True, b)
      })"

definition stun_make_type :: "u16 \<Rightarrow> u16" where
  "stun_make_type method0 =
     (let method = method0 AND 0x0FFF in
      (method AND 0x000F) OR push_bit 1 (method AND 0x0070) OR
      push_bit 2 (method AND 0x0380) OR push_bit 2 (method AND 0x0C00))"

definition stun_get_method_str :: "buffer \<Rightarrow> nat \<Rightarrow> u16 option" where
  "stun_get_method_str buf len =
     (if len < 2 then Some (- 1) else do {
        w \<leftarrow> rd16 buf 0;
        let tt = nswap16 w;
        Some ((tt AND 0x000F) OR drop_bit 1 (tt AND 0x00E0) OR
              drop_bit 2 (tt AND 0x0E00) OR drop_bit 2 (tt AND 0x3000))
      })"

definition stun_get_msg_type_str :: "buffer \<Rightarrow> nat \<Rightarrow> u16 option" where
  "stun_get_msg_type_str buf len =
     (if len < 2 then Some (- 1) else do {
        w \<leftarrow> rd16 buf 0;
        Some (nswap16 w AND 0x3FFF)
      })"

definition is_channel_msg_str :: "buffer \<Rightarrow> nat \<Rightarrow> bool option" where
  "is_channel_msg_str buf blen =
     (if blen \<ge> 4 then do { w \<leftarrow> rd16 buf 0; Some (STUN_VALID_CHANNEL (nswap16 w)) }
      else Some False)"

definition stun_is_command_message_str :: "buffer \<Rightarrow> nat \<Rightarrow> bool option" where
  "stun_is_command_message_str buf blen =
     (if blen \<ge> STUN_HEADER_LENGTH then do {
        w0 \<leftarrow> rd16 buf 0;
        if \<not> STUN_VALID_CHANNEL (nswap16 w0) then do {
          b0 \<leftarrow> rd8 buf 0;
          if b0 AND 0xC0 = 0 then do {
            ck \<leftarrow> rd32 buf 4;
            if nswap32 ck = STUN_MAGIC_COOKIE then do {
              w1 \<leftarrow> rd16 buf 2;
              let len = nswap16 w1;
              if len AND 0x0003 = 0 then Some (unat len + STUN_HEADER_LENGTH = blen)
              else Some False
            } else Some False
          } else Some False
        } else Some False
      } else Some False)"

text \<open>The cookie output parameter is the second component, None when it is not
  written.\<close>

definition old_stun_is_command_message_str :: "buffer \<Rightarrow> nat \<Rightarrow> (bool \<times> u32 option) option" where
  "old_stun_is_command_message_str buf blen =
     (if blen \<ge> STUN_HEADER_LENGTH then do {
        w0 \<leftarrow> rd16 buf 0;
        if \<not> STUN_VALID_CHANNEL (nswap16 w0) then do {
          b0 \<leftarrow> rd8 buf 0;
          if b0 AND 0xC0 = 0 then do {
            ck \<leftarrow> rd32 buf 4;
            if nswap32 ck \<noteq> STUN_MAGIC_COOKIE then do {
              w1 \<leftarrow> rd16 buf 2;
              let len = nswap16 w1;
              if len AND 0x0003 = 0 \<and> unat len + STUN_HEADER_LENGTH = blen
              then Some (True, Some (nswap32 ck))
              else Some (False, None)
            } else Some (False, None)
          } else Some (False, None)
        } else Some (False, None)
      } else Some (False, None))"

definition stun_is_request_str :: "buffer \<Rightarrow> nat \<Rightarrow> bool option" where
  "stun_is_request_str buf len = do {
     ch \<leftarrow> is_channel_msg_str buf len;
     if ch then Some False else do { t \<leftarrow> stun_get_msg_type_str buf len; Some (IS_STUN_REQUEST t) }
   }"

definition stun_is_success_response_str :: "buffer \<Rightarrow> nat \<Rightarrow> bool option" where
  "stun_is_success_response_str buf len = do {
     ch \<leftarrow> is_channel_msg_str buf len;
     if ch then Some False else do { t \<leftarrow> stun_get_msg_type_str buf len; Some (IS_STUN_SUCCESS_RESP t) }
   }"

definition stun_is_response_str :: "buffer \<Rightarrow> nat \<Rightarrow> bool option" where
  "stun_is_response_str buf len = do {
     ch \<leftarrow> is_channel_msg_str buf len;
     if ch then Some False else do {
       t \<leftarrow> stun_get_msg_type_str buf len;
       if IS_STUN_SUCCESS_RESP t then Some True
       else if IS_STUN_ERR_RESP t then Some True
       else Some False
     }
   }"

definition stun_is_indication_str :: "buffer \<Rightarrow> nat \<Rightarrow> bool option" where
  "stun_is_indication_str buf len = do {
     ch \<leftarrow> is_channel_msg_str buf len;
     if ch then Some False else do { t \<leftarrow> stun_get_msg_type_str buf len; Some (IS_STUN_INDICATION t) }
   }"

definition stun_make_request :: "u16 \<Rightarrow> u16" where
  "stun_make_request method = stun_make_type method AND 0xFEEF"

definition stun_make_indication :: "u16 \<Rightarrow> u16" where
  "stun_make_indication method = (stun_make_type method AND 0xFEEF) OR 0x0010"

definition stun_make_success_response :: "u16 \<Rightarrow> u16" where
  "stun_make_success_response method = (stun_make_type method AND 0xFEEF) OR 0x0100"

definition stun_make_error_response :: "u16 \<Rightarrow> u16" where
  "stun_make_error_response method = stun_make_type method OR 0x0110"

section \<open>Transaction ids\<close>

type_synonym stun_tid = "u8 list"

fun stun_tid_equals :: "stun_tid option \<Rightarrow> stun_tid option \<Rightarrow> bool" where
  "stun_tid_equals (Some id1) (Some id2) = list_all (\<lambda>i. id1 ! i = id2 ! i) [0..<STUN_TID_SIZE]"
| "stun_tid_equals _ _ = False"

definition stun_tid_cpy :: "stun_tid \<Rightarrow> stun_tid option \<Rightarrow> stun_tid option" where
  "stun_tid_cpy id1 id2 = (case id2 of None \<Rightarrow> Some id1 | Some i \<Rightarrow> load i 0 STUN_TID_SIZE)"

definition stun_tid_from_message_str :: "buffer \<Rightarrow> nat \<Rightarrow> stun_tid option" where
  "stun_tid_from_message_str buf len = load buf 8 STUN_TID_SIZE"

definition stun_tid_message_cpy :: "buffer \<Rightarrow> stun_tid \<Rightarrow> buffer option" where
  "stun_tid_message_cpy buf tid = do { t \<leftarrow> load tid 0 STUN_TID_SIZE; store buf 8 t }"

text \<open>rnd are the bytes that stun_tid_generate obtains from the random source.\<close>

definition stun_tid_generate_in_message_str :: "u8 list \<Rightarrow> buffer \<Rightarrow> buffer option" where
  "stun_tid_generate_in_message_str rnd buf = stun_tid_message_cpy buf rnd"

section \<open>Message initialisation\<close>

definition stun_init_buffer_str :: "buffer \<Rightarrow> (buffer \<times> nat) option" where
  "stun_init_buffer_str buf = do {
     b \<leftarrow> store buf 0 (replicate STUN_HEADER_LENGTH 0);
     Some (b, STUN_HEADER_LENGTH)
   }"

definition old_stun_init_command_str :: "u8 list \<Rightarrow> u16 \<Rightarrow> buffer \<Rightarrow> u32 \<Rightarrow> (buffer \<times> nat) option" where
  "old_stun_init_command_str rnd message_type buf cookie = do {
     (b0, len) \<leftarrow> stun_init_buffer_str buf;
     b1 \<leftarrow> wr16 b0 0 (nswap16 (message_type AND 0x3FFF));
     b2 \<leftarrow> wr16 b1 2 0;
     b3 \<leftarrow> wr32 b2 4 (nswap32 cookie);
     b4 \<leftarrow> stun_tid_generate_in_message_str rnd b3;
     Some (b4, len)
   }"

definition stun_init_command_str :: "u8 list \<Rightarrow> u16 \<Rightarrow> buffer \<Rightarrow> (buffer \<times> nat) option" where
  "stun_init_command_str rnd message_type buf = do {
     (b0, len) \<leftarrow> stun_init_buffer_str buf;
     b1 \<leftarrow> wr16 b0 0 (nswap16 (message_type AND 0x3FFF));
     b2 \<leftarrow> wr16 b1 2 0;
     b3 \<leftarrow> wr32 b2 4 (nswap32 STUN_MAGIC_COOKIE);
     b4 \<leftarrow> stun_tid_generate_in_message_str rnd b3;
     Some (b4, len)
   }"

definition stun_init_request_str :: "u8 list \<Rightarrow> u16 \<Rightarrow> buffer \<Rightarrow> (buffer \<times> nat) option" where
  "stun_init_request_str rnd method buf = stun_init_command_str rnd (stun_make_request method) buf"

definition stun_init_indication_str :: "u8 list \<Rightarrow> u16 \<Rightarrow> buffer \<Rightarrow> (buffer \<times> nat) option" where
  "stun_init_indication_str rnd method buf = stun_init_command_str rnd (stun_make_indication method) buf"

text \<open>The tail of the functions that copy the transaction id when one is given.\<close>

definition cpy_tid_opt :: "stun_tid option \<Rightarrow> buffer \<Rightarrow> buffer option" where
  "cpy_tid_opt tid buf = (case tid of None \<Rightarrow> Some buf | Some t \<Rightarrow> stun_tid_message_cpy buf t)"

definition stun_init_success_response_str ::
    "u8 list \<Rightarrow> u16 \<Rightarrow> buffer \<Rightarrow> stun_tid option \<Rightarrow> (buffer \<times> nat) option" where
  "stun_init_success_response_str rnd method buf tid = do {
     (b, len) \<leftarrow> stun_init_command_str rnd (stun_make_success_response method) buf;
     b' \<leftarrow> cpy_tid_opt tid b;
     Some (b', len)
   }"

definition old_stun_init_success_response_str ::
    "u8 list \<Rightarrow> u16 \<Rightarrow> buffer \<Rightarrow> stun_tid option \<Rightarrow> u32 \<Rightarrow> (buffer \<times> nat) option" where
  "old_stun_init_success_response_str rnd method buf tid cookie = do {
     (b, len) \<leftarrow> old_stun_init_command_str rnd (stun_make_success_response method) buf cookie;
     b' \<leftarrow> cpy_tid_opt tid b;
     Some (b', len)
   }"

section \<open>Reading attributes\<close>

type_synonym stun_attr_ref = "nat option"

definition stun_attr_get_type :: "buffer \<Rightarrow> stun_attr_ref \<Rightarrow> int option" where
  "stun_attr_get_type buf attr =
     (case attr of None \<Rightarrow> Some (- 1) | Some p \<Rightarrow> do { w \<leftarrow> rd16 buf p; Some (uint (nswap16 w)) })"

definition stun_attr_get_len :: "buffer \<Rightarrow> stun_attr_ref \<Rightarrow> int option" where
  "stun_attr_get_len buf attr =
     (case attr of None \<Rightarrow> Some (- 1) | Some p \<Rightarrow> do { w \<leftarrow> rd16 buf (p + 2); Some (uint (nswap16 w)) })"

definition stun_attr_get_value :: "buffer \<Rightarrow> stun_attr_ref \<Rightarrow> nat option option" where
  "stun_attr_get_value buf attr =
     (case attr of None \<Rightarrow> Some None | Some p \<Rightarrow> do {
        w \<leftarrow> rd16 buf (p + 2);
        let len = uint (nswap16 w);
        if len < 1 then Some None else Some (Some (p + 4))
      })"

definition stun_get_requested_address_family :: "buffer \<Rightarrow> stun_attr_ref \<Rightarrow> int option" where
  "stun_get_requested_address_family buf attr =
     (case attr of None \<Rightarrow> Some 0 | Some p \<Rightarrow> do {
        w \<leftarrow> rd16 buf (p + 2);
        if uint (nswap16 w) \<noteq> 4 then Some (- 1) else do {
          v \<leftarrow> rd8 buf (p + 4);
          if v = 1 \<or> v = 2 then Some (uint v) else Some (- 1)
        }
      })"

definition stun_attr_get_channel_number :: "buffer \<Rightarrow> stun_attr_ref \<Rightarrow> u16 option" where
  "stun_attr_get_channel_number buf attr = do {
     value \<leftarrow> stun_attr_get_value buf attr;
     case value of None \<Rightarrow> Some 0 | Some v \<Rightarrow> do {
       l \<leftarrow> stun_attr_get_len buf attr;
       if l \<ge> 2 then do {
         w \<leftarrow> rd16 buf v;
         if STUN_VALID_CHANNEL (nswap16 w) then Some (nswap16 w) else Some 0
       } else Some 0
     }
   }"

definition stun_attr_get_bandwidth :: "buffer \<Rightarrow> stun_attr_ref \<Rightarrow> u64 option" where
  "stun_attr_get_bandwidth buf attr = do {
     value \<leftarrow> stun_attr_get_value buf attr;
     case value of None \<Rightarrow> Some 0 | Some v \<Rightarrow> do {
       l \<leftarrow> stun_attr_get_len buf attr;
       if l \<ge> 4 then do {
         w \<leftarrow> rd32 buf v;
         Some (ucast (push_bit 7 (nswap32 w)))
       } else Some 0
     }
   }"

definition stun_attr_get_reservation_token_value :: "buffer \<Rightarrow> stun_attr_ref \<Rightarrow> u64 option" where
  "stun_attr_get_reservation_token_value buf attr = do {
     value \<leftarrow> stun_attr_get_value buf attr;
     case value of None \<Rightarrow> Some 0 | Some v \<Rightarrow> do {
       l \<leftarrow> stun_attr_get_len buf attr;
       if l = 8 then do { w \<leftarrow> rd64 buf v; Some (nswap64 w) } else Some 0
     }
   }"

definition stun_attr_is_addr :: "buffer \<Rightarrow> stun_attr_ref \<Rightarrow> bool option" where
  "stun_attr_is_addr buf attr =
     (case attr of None \<Rightarrow> Some False | Some p \<Rightarrow> do {
        t \<leftarrow> stun_attr_get_type buf attr;
        Some (t \<in> set [0x0020, 0x0012, 0x0016, 0x0001, 0x8023, 0x0002, 0x0004, 0x0005,
                       0x000B, 0x802B, 0x802C])
      })"

definition stun_attr_get_even_port :: "buffer \<Rightarrow> stun_attr_ref \<Rightarrow> u8 option" where
  "stun_attr_get_even_port buf attr = do {
     value \<leftarrow> stun_attr_get_value buf attr;
     case value of None \<Rightarrow> Some 0 | Some v \<Rightarrow> do {
       b \<leftarrow> rd8 buf v;
       if b > 0x7F then Some 1 else Some 0
     }
   }"

text \<open>The rounding of an attribute length to the next multiple of four, which the
  sources write out at each place.\<close>

definition pad4 :: "nat \<Rightarrow> nat" where
  "pad4 n = (let rem4 = n mod 4 in if rem4 \<noteq> 0 then n + 4 - rem4 else n)"

definition stun_attr_check_valid :: "buffer \<Rightarrow> nat \<Rightarrow> nat \<Rightarrow> stun_attr_ref option" where
  "stun_attr_check_valid buf attr remaining =
     (if remaining \<ge> 4 then do {
        l \<leftarrow> stun_attr_get_len buf (Some attr);
        let attrlen = pad4 (nat l);
        if attrlen \<le> remaining - 4 then Some (Some attr) else Some None
      } else Some None)"

definition stun_attr_get_first_str :: "buffer \<Rightarrow> nat \<Rightarrow> stun_attr_ref option" where
  "stun_attr_get_first_str buf len = do {
     bufLen \<leftarrow> stun_get_command_message_len_str buf len;
     if bufLen > int STUN_HEADER_LENGTH
     then stun_attr_check_valid buf STUN_HEADER_LENGTH (nat (bufLen - int STUN_HEADER_LENGTH))
     else Some None
   }"

definition stun_attr_get_next_str :: "buffer \<Rightarrow> nat \<Rightarrow> stun_attr_ref \<Rightarrow> stun_attr_ref option" where
  "stun_attr_get_next_str buf len prev =
     (case prev of None \<Rightarrow> stun_attr_get_first_str buf len | Some p \<Rightarrow> do {
        e \<leftarrow> stun_get_command_message_len_str buf len;
        l \<leftarrow> stun_attr_get_len buf (Some p);
        let attrlen = pad4 (nat l);
        if int attrlen < e - int p - 4
        then (let attr_end = p + 4 + attrlen in
              stun_attr_check_valid buf attr_end (nat (e - int attr_end)))
        else Some None
      })"

text \<open>The loops over the attributes of a message have the shape
  \<^verbatim>\<open>while (attr) { body; attr = stun_attr_get_next_str(buf, len, attr); }\<close> with an early
  exit; go s says that the loop continues after the body has produced the state s.\<close>

lemma command_message_len_cases:
  assumes "stun_get_command_message_len_str buf len = Some e"
  shows "e = - 1 \<or> (\<exists>n. e = int n \<and> STUN_HEADER_LENGTH \<le> n \<and> n \<le> len)"
proof (cases "len < STUN_HEADER_LENGTH")
  case True
  with assms show ?thesis by (simp add: stun_get_command_message_len_str_def)
next
  case False
  with assms obtain w where w: "rd16 buf 2 = Some w"
    by (auto simp: stun_get_command_message_len_str_def split: Option.bind_splits)
  define n where "n = unat (nswap16 w) + STUN_HEADER_LENGTH"
  have "e = (if n > len then - 1 else int n)"
    using assms False w unfolding stun_get_command_message_len_str_def n_def Let_def by auto
  moreover have "STUN_HEADER_LENGTH \<le> n" by (simp add: n_def)
  ultimately show ?thesis by (cases "n > len") auto
qed

lemma stun_attr_get_next_str_mono:
  assumes "stun_attr_get_next_str buf len (Some p) = Some (Some q)"
  shows "p < q \<and> q < len"
proof -
  from assms obtain e where e: "stun_get_command_message_len_str buf len = Some e" "int p + 4 < e"
      and q: "p + 4 \<le> q" "int q < e"
    by (auto simp: stun_attr_get_next_str_def stun_attr_check_valid_def Let_def
        split: Option.bind_splits if_splits)
  with command_message_len_cases [OF e(1)] show ?thesis by auto
qed

function (sequential) attr_while ::
    "buffer \<Rightarrow> nat \<Rightarrow> ('s \<Rightarrow> bool) \<Rightarrow> (nat \<Rightarrow> 's \<Rightarrow> 's option) \<Rightarrow> stun_attr_ref \<Rightarrow> 's \<Rightarrow> 's option" where
  "attr_while buf len go body None s = Some s"
| "attr_while buf len go body (Some p) s = do {
     s' \<leftarrow> body p s;
     if go s' then do {
       q \<leftarrow> stun_attr_get_next_str buf len (Some p);
       attr_while buf len go body q s'
     } else Some s'
   }"
  by pat_completeness auto
termination
proof (relation "measure (\<lambda>(buf, len, go, body, q, s). case q of None \<Rightarrow> 0 | Some p \<Rightarrow> Suc (len - p))")
  show "wf (measure (\<lambda>(buf, len, go, body, q, s). case q of None \<Rightarrow> 0 | Some p \<Rightarrow> Suc (len - p)))"
    by simp
qed (auto split: option.split dest: stun_attr_get_next_str_mono)

definition stun_attr_get_first_by_type_str :: "buffer \<Rightarrow> nat \<Rightarrow> u16 \<Rightarrow> stun_attr_ref option" where
  "stun_attr_get_first_by_type_str buf len attr_type = do {
     attr \<leftarrow> stun_attr_get_first_str buf len;
     attr_while buf len (\<lambda>found. found = None)
       (\<lambda>p found. do {
          t \<leftarrow> stun_attr_get_type buf (Some p);
          if t = uint attr_type then Some (Some p) else Some found
        }) attr None
   }"

definition xor_attr :: "int \<Rightarrow> bool" where
  "xor_attr attr_type \<longleftrightarrow> attr_type = uint STUN_ATTRIBUTE_XOR_MAPPED_ADDRESS \<or>
     attr_type = uint STUN_ATTRIBUTE_XOR_PEER_ADDRESS \<or>
     attr_type = uint STUN_ATTRIBUTE_XOR_RELAYED_ADDRESS"

text \<open>m are the static tables of ns_turn_ioaddr.c.  The value pointer passed to the
  decoder is the rest of the buffer from the value on.\<close>

definition stun_attr_get_addr_str ::
    "addr_mapping \<Rightarrow> buffer \<Rightarrow> nat \<Rightarrow> stun_attr_ref \<Rightarrow> ioa_addr option \<Rightarrow> (bool \<times> ioa_addr) option" where
  "stun_attr_get_addr_str m buf len attr default_addr = do {
     tid \<leftarrow> stun_tid_from_message_str buf len;
     attr_type \<leftarrow> stun_attr_get_type buf attr;
     if attr_type < 0 then Some (False, addr_set_any) else do {
       let xor_ed = xor_attr attr_type;
       cfield \<leftarrow> stun_attr_get_value buf attr;
       case cfield of None \<Rightarrow> Some (False, addr_set_any) | Some v \<Rightarrow> do {
         l \<leftarrow> stun_attr_get_len buf attr;
         (r, public_addr) \<leftarrow>
           stun_addr_decode addr_set_any (Some (drop v buf)) l xor_ed STUN_MAGIC_COOKIE tid;
         if r < 0 then Some (False, addr_set_any) else do {
           let ca = map_addr_from_public_to_private m public_addr;
           case default_addr of
             None \<Rightarrow> Some (True, ca)
           | Some d \<Rightarrow>
               if addr_any_no_port (Some ca) \<and> \<not> addr_any_no_port (Some d)
               then Some (True, addr_set_port d (addr_get_port (Some ca)))
               else Some (True, ca)
         }
       }
     }
   }"

definition stun_attr_get_first_addr_str ::
    "addr_mapping \<Rightarrow> buffer \<Rightarrow> nat \<Rightarrow> u16 \<Rightarrow> ioa_addr \<Rightarrow> ioa_addr option \<Rightarrow> (bool \<times> ioa_addr) option" where
  "stun_attr_get_first_addr_str m buf len attr_type ca default_addr = do {
     attr \<leftarrow> stun_attr_get_first_str buf len;
     attr_while buf len (\<lambda>(found, _). \<not> found)
       (\<lambda>p (found, ca). do {
          is_addr \<leftarrow> stun_attr_is_addr buf (Some p);
          t \<leftarrow> stun_attr_get_type buf (Some p);
          if is_addr \<and> uint attr_type = t
          then stun_attr_get_addr_str m buf len (Some p) default_addr
          else Some (found, ca)
        }) attr (False, ca)
   }"

definition stun_attr_get_first_channel_number_str :: "buffer \<Rightarrow> nat \<Rightarrow> u16 option" where
  "stun_attr_get_first_channel_number_str buf len = do {
     attr \<leftarrow> stun_attr_get_first_str buf len;
     attr_while buf len (\<lambda>ret. ret = 0)
       (\<lambda>p ret. do {
          t \<leftarrow> stun_attr_get_type buf (Some p);
          if t = uint STUN_ATTRIBUTE_CHANNEL_NUMBER then do {
            r \<leftarrow> stun_attr_get_channel_number buf (Some p);
            if STUN_VALID_CHANNEL r then Some r else Some ret
          } else Some ret
        }) attr 0
   }"

definition stun_attr_get_change_request_str :: "buffer \<Rightarrow> stun_attr_ref \<Rightarrow> (bool \<times> bool) option option" where
  "stun_attr_get_change_request_str buf attr = do {
     l \<leftarrow> stun_attr_get_len buf attr;
     if l = 4 then do {
       value \<leftarrow> stun_attr_get_value buf attr;
       case value of None \<Rightarrow> Some None | Some v \<Rightarrow> do {
         b \<leftarrow> rd8 buf (v + 3);
         Some (Some (b AND 0x04 \<noteq> 0, b AND 0x02 \<noteq> 0))
       }
     } else Some None
   }"

definition stun_attr_get_response_port_str :: "buffer \<Rightarrow> stun_attr_ref \<Rightarrow> int option" where
  "stun_attr_get_response_port_str buf attr = do {
     l \<leftarrow> stun_attr_get_len buf attr;
     if l \<ge> 2 then do {
       value \<leftarrow> stun_attr_get_value buf attr;
       case value of None \<Rightarrow> Some (- 1) | Some v \<Rightarrow> do { w \<leftarrow> rd16 buf v; Some (uint (nswap16 w)) }
     } else Some (- 1)
   }"

definition stun_attr_get_padding_len_str :: "buffer \<Rightarrow> stun_attr_ref \<Rightarrow> int option" where
  "stun_attr_get_padding_len_str buf attr = do {
     len \<leftarrow> stun_attr_get_len buf attr;
     if len < 0 then Some (- 1) else Some (uint (word_of_int len :: u16))
   }"

section \<open>Appending attributes\<close>

text \<open>A value pointer of None is NULL.  Where the message length of the buffer is
  invalid (clen is -1), the code writes through a pointer before the buffer.\<close>

definition stun_attr_add_str ::
    "buffer \<Rightarrow> nat \<Rightarrow> u16 \<Rightarrow> u8 list option \<Rightarrow> int \<Rightarrow> (bool \<times> buffer \<times> nat) option" where
  "stun_attr_add_str buf len attr avalue0 alen0 = do {
     let alen = (if avalue0 = None then 0 else if alen0 < 0 then 0 else alen0);
     let avalue = (case avalue0 of None \<Rightarrow> [0] | Some v \<Rightarrow> v);
     clen \<leftarrow> stun_get_command_message_len_str buf len;
     let newlen0 = clen + 4 + alen;
     let newlenrem4 = newlen0 mod 4;
     let paddinglen = (if newlenrem4 \<noteq> 0 then 4 - newlenrem4 else 0);
     let newlen = newlen0 + paddinglen;
     if newlen \<ge> MAX_STUN_MESSAGE_SIZE then Some (False, buf, len)
     else if clen < 0 then None
     else do {
       (_, b1) \<leftarrow> stun_set_command_message_len_str buf newlen;
       b2 \<leftarrow> wr16 b1 (nat clen) (nswap16 attr);
       b3 \<leftarrow> wr16 b2 (nat clen + 2) (nswap16 (word_of_int alen));
       b4 \<leftarrow> (if alen > 0 then do { v \<leftarrow> load avalue 0 (nat alen); store b3 (nat clen + 4) v }
              else Some b3);
       b5 \<leftarrow> store b4 (nat clen + 4 + nat alen) (replicate (nat paddinglen) 0);
       Some (True, b5, nat newlen)
     }
   }"

text \<open>The local array cfield has 64 bytes; the encoder sets the bytes that are used.\<close>

definition stun_attr_add_addr_str ::
    "addr_mapping \<Rightarrow> buffer \<Rightarrow> nat \<Rightarrow> u16 \<Rightarrow> ioa_addr \<Rightarrow> (bool \<times> buffer \<times> nat) option" where
  "stun_attr_add_addr_str m buf len attr_type ca = do {
     tid \<leftarrow> stun_tid_from_message_str buf len;
     let xor_ed = xor_attr (uint attr_type);
     let public_addr = map_addr_from_private_to_public m ca;
     (r, cfield, clen) \<leftarrow>
       stun_addr_encode public_addr (replicate 64 0) 0 xor_ed STUN_MAGIC_COOKIE tid;
     if r < 0 then Some (False, buf, len)
     else stun_attr_add_str buf len attr_type (Some cfield) clen
   }"

definition stun_attr_add_channel_number_str :: "buffer \<Rightarrow> nat \<Rightarrow> u16 \<Rightarrow> (bool \<times> buffer \<times> nat) option" where
  "stun_attr_add_channel_number_str buf len chnumber =
     stun_attr_add_str buf len STUN_ATTRIBUTE_CHANNEL_NUMBER
       (Some (bytes16 (nswap16 chnumber) @ bytes16 0)) 4"

definition stun_attr_add_bandwidth_str :: "buffer \<Rightarrow> nat \<Rightarrow> u64 \<Rightarrow> (bool \<times> buffer \<times> nat) option" where
  "stun_attr_add_bandwidth_str buf len bps0 =
     (let bps = ucast (drop_bit 7 bps0) :: u32 in
      stun_attr_add_str buf len STUN_ATTRIBUTE_NEW_BANDWIDTH (Some (bytes32 (nswap32 bps))) 4)"

definition stun_attr_add_change_request_str ::
    "buffer \<Rightarrow> nat \<Rightarrow> bool \<Rightarrow> bool \<Rightarrow> (bool \<times> buffer \<times> nat) option" where
  "stun_attr_add_change_request_str buf len change_ip change_port =
     (let v3 = (if change_ip then (if change_port then 0x06 else 0x04)
                else if change_port then 0x02 else 0) in
      stun_attr_add_str buf len STUN_ATTRIBUTE_CHANGE_REQUEST (Some [0, 0, 0, v3]) 4)"

definition stun_attr_add_response_port_str :: "buffer \<Rightarrow> nat \<Rightarrow> u16 \<Rightarrow> (bool \<times> buffer \<times> nat) option" where
  "stun_attr_add_response_port_str buf len port =
     stun_attr_add_str buf len STUN_ATTRIBUTE_RESPONSE_PORT
       (Some (bytes16 (nswap16 port) @ [0, 0])) 4"

definition stun_attr_add_padding_str :: "buffer \<Rightarrow> nat \<Rightarrow> u16 \<Rightarrow> (bool \<times> buffer \<times> nat) option" where
  "stun_attr_add_padding_str buf len padding_len =
     stun_attr_add_str buf len STUN_ATTRIBUTE_PADDING
       (Some (replicate (unat padding_len) 0)) (uint padding_len)"

end
