(* ===== verification/Stun_Attrs.thy ===== *)
theory Stun_Attrs
  imports Stun_Msg
begin

text \<open>
  The attribute sequence of a message as an abstract object.  attr_chain is the list
  of the offsets of the well-formed attributes between two positions of a buffer,
  attrs the list of the (type, value) pairs found there.  The reading functions of
  Stun_Msg are shown to work on this list without ever leaving the buffer, and
  stun_attr_add_str is shown to append one pair to it.
\<close>

section \<open>Fields of an attribute\<close>

definition atype :: "buffer \<Rightarrow> nat \<Rightarrow> nat" where
  "atype b p = be16 (b ! p) (b ! (p + 1))"

definition alen :: "buffer \<Rightarrow> nat \<Rightarrow> nat" where
  "alen b p = be16 (b ! (p + 2)) (b ! (p + 3))"

definition avalue :: "buffer \<Rightarrow> nat \<Rightarrow> u8 list" where
  "avalue b p = take (alen b p) (drop (p + 4) b)"

lemma uint_nswap16_host16: "uint (nswap16 (host16 a b)) = int (be16 a b)"
  using arg_cong [OF unat_nswap16_host16 [of a b], of int] by simp

lemma get_type_in [mem_simps]:
  "p + 2 \<le> length b \<Longrightarrow> stun_attr_get_type b (Some p) = Some (int (atype b p))"
  by (simp add: stun_attr_get_type_def rd16_def atype_def uint_nswap16_host16)

lemma get_len_in [mem_simps]:
  "p + 4 \<le> length b \<Longrightarrow> stun_attr_get_len b (Some p) = Some (int (alen b p))"
  by (simp add: stun_attr_get_len_def rd16_def alen_def uint_nswap16_host16 numeral_3_eq_3)

lemma get_value_in [mem_simps]:
  "p + 4 \<le> length b \<Longrightarrow>
     stun_attr_get_value b (Some p) = Some (if alen b p = 0 then None else Some (p + 4))"
  by (auto simp: stun_attr_get_value_def rd16_def alen_def uint_nswap16_host16 numeral_3_eq_3 Let_def)

lemma pad4_eq: "pad4 n = 4 * ((n + 3) div 4)"
proof -
  define q r where "q = n div 4" and "r = n mod 4"
  then have n: "n = r + 4 * q" and "r < 4" by simp_all
  then have "r = 0 \<or> r = 1 \<or> r = 2 \<or> r = 3" by arith
  then show ?thesis unfolding n by (auto simp: pad4_def Let_def)
qed

lemma le_pad4: "n \<le> pad4 n"
  unfolding pad4_eq by presburger

lemma pad4_dvd [simp]: "4 dvd pad4 n"
  by (simp add: pad4_eq)

section \<open>The chain of attributes\<close>

function attr_chain :: "buffer \<Rightarrow> nat \<Rightarrow> nat \<Rightarrow> nat list" where
  "attr_chain b e p =
     (if p + 4 \<le> e \<and> p + 4 + pad4 (alen b p) \<le> e
      then p # attr_chain b e (p + 4 + pad4 (alen b p)) else [])"
  by pat_completeness auto
termination by (relation "measure (\<lambda>(b, e, p). e - p)") auto

declare attr_chain.simps [simp del]

text \<open>Where the chain stops.\<close>

function attr_stop :: "buffer \<Rightarrow> nat \<Rightarrow> nat \<Rightarrow> nat" where
  "attr_stop b e p =
     (if p + 4 \<le> e \<and> p + 4 + pad4 (alen b p) \<le> e
      then attr_stop b e (p + 4 + pad4 (alen b p)) else p)"
  by pat_completeness auto
termination by (relation "measure (\<lambda>(b, e, p). e - p)") auto

declare attr_stop.simps [simp del]

definition hd_opt :: "'a list \<Rightarrow> 'a option" where
  "hd_opt xs = (case xs of [] \<Rightarrow> None | x # _ \<Rightarrow> Some x)"

lemma hd_opt_simps [simp]: "hd_opt [] = None" "hd_opt (x # xs) = Some x"
  by (simp_all add: hd_opt_def)

text \<open>The end of the message that the header announces, if it fits.\<close>

definition msg_end :: "buffer \<Rightarrow> nat \<Rightarrow> nat option" where
  "msg_end b len =
     (let n = be16 (b ! 2) (b ! 3) + STUN_HEADER_LENGTH in
      if len < STUN_HEADER_LENGTH \<or> n > len then None else Some n)"

definition attr_offsets :: "buffer \<Rightarrow> nat \<Rightarrow> nat list" where
  "attr_offsets b len = (case msg_end b len of None \<Rightarrow> [] | Some e \<Rightarrow> attr_chain b e STUN_HEADER_LENGTH)"

definition attrs :: "buffer \<Rightarrow> nat \<Rightarrow> (nat \<times> u8 list) list" where
  "attrs b len = map (\<lambda>p. (atype b p, avalue b p)) (attr_offsets b len)"

lemma command_message_len_in [mem_simps]:
  assumes "len \<le> length b"
  shows "stun_get_command_message_len_str b len =
     Some (case msg_end b len of None \<Rightarrow> - 1 | Some e \<Rightarrow> int e)"
proof (cases "len < STUN_HEADER_LENGTH")
  case True
  then show ?thesis by (simp add: stun_get_command_message_len_str_def msg_end_def)
next
  case False
  with assms have "rd16 b 2 = Some (host16 (b ! 2) (b ! 3))"
    by (simp add: rd16_def)
  with False show ?thesis
    unfolding stun_get_command_message_len_str_def msg_end_def Let_def
    by (simp add: unat_nswap16_host16)
qed

lemma msg_end_bounds: "msg_end b len = Some e \<Longrightarrow> STUN_HEADER_LENGTH \<le> e \<and> e \<le> len"
  by (auto simp: msg_end_def Let_def split: if_splits)

lemma check_valid_in [mem_simps]:
  assumes "p \<le> e" "e \<le> length b"
  shows "stun_attr_check_valid b p (e - p) = Some (hd_opt (attr_chain b e p))"
  using assms by (subst attr_chain.simps)
    (auto simp: stun_attr_check_valid_def get_len_in Let_def)

lemma get_first_in [mem_simps]:
  assumes "len \<le> length b"
  shows "stun_attr_get_first_str b len = Some (hd_opt (attr_offsets b len))"
proof (cases "msg_end b len")
  case None
  with assms show ?thesis
    by (simp add: stun_attr_get_first_str_def attr_offsets_def command_message_len_in)
next
  case (Some e)
  note e = msg_end_bounds [OF Some]
  have "nat (int e - 20) = e - 20" by simp
  moreover have "attr_chain b 20 20 = []"
    by (subst attr_chain.simps) simp
  ultimately show ?thesis
    using assms Some e check_valid_in [of 20 e b]
    by (auto simp: stun_attr_get_first_str_def attr_offsets_def command_message_len_in)
qed

lemma get_next_in [mem_simps]:
  assumes "len \<le> length b" "msg_end b len = Some e" "p + 4 + pad4 (alen b p) \<le> e"
  shows "stun_attr_get_next_str b len (Some p) = Some (hd_opt (attr_chain b e (p + 4 + pad4 (alen b p))))"
proof -
  let ?q = "p + 4 + pad4 (alen b p)"
  have e: "e \<le> length b" using msg_end_bounds [OF assms(2)] assms(1) by simp
  have l: "stun_attr_get_len b (Some p) = Some (int (alen b p))"
    using assms(3) e by (simp add: get_len_in)
  show ?thesis
  proof (cases "?q < e")
    case True
    have "nat (int e - int ?q) = e - ?q" by simp
    with True assms e l check_valid_in [of ?q e b] show ?thesis
      by (auto simp: stun_attr_get_next_str_def command_message_len_in Let_def)
  next
    case False
    with assms(3) have "?q = e" by simp
    then have "attr_chain b e ?q = []" by (subst attr_chain.simps) simp
    with False assms e l show ?thesis
      by (auto simp: stun_attr_get_next_str_def command_message_len_in Let_def)
  qed
qed

text \<open>The loop over the attributes is a loop over the chain.\<close>

fun chain_while :: "('s \<Rightarrow> bool) \<Rightarrow> (nat \<Rightarrow> 's \<Rightarrow> 's option) \<Rightarrow> nat list \<Rightarrow> 's \<Rightarrow> 's option" where
  "chain_while go body [] s = Some s"
| "chain_while go body (p # ps) s = do {
     s' \<leftarrow> body p s;
     if go s' then chain_while go body ps s' else Some s'
   }"

lemma attr_while_chain:
  assumes "len \<le> length b" "msg_end b len = Some e"
  shows "attr_while b len go body (hd_opt (attr_chain b e p)) s = chain_while go body (attr_chain b e p) s"
  using assms
proof (induction b e p arbitrary: s rule: attr_chain.induct)
  case (1 b e p)
  let ?q = "p + 4 + pad4 (alen b p)"
  show ?case
  proof (cases "p + 4 \<le> e \<and> ?q \<le> e")
    case True
    then have c: "attr_chain b e p = p # attr_chain b e ?q"
      by (subst attr_chain.simps) simp
    have "stun_attr_get_next_str b len (Some p) = Some (hd_opt (attr_chain b e ?q))"
      using True 1 by (intro get_next_in) auto
    with 1 True show ?thesis by (cases "body p s") (auto simp: c)
  next
    case False
    then have "attr_chain b e p = []" by (subst attr_chain.simps) auto
    then show ?thesis by simp
  qed
qed

lemma attr_while_offsets:
  assumes "len \<le> length b"
  shows "attr_while b len go body (hd_opt (attr_offsets b len)) s =
     chain_while go body (attr_offsets b len) s"
  using assms by (cases "msg_end b len") (auto simp: attr_offsets_def attr_while_chain)

lemma attr_chain_step:
  "p + 4 \<le> e \<and> p + 4 + pad4 (alen b p) \<le> e \<Longrightarrow>
     attr_chain b e p = p # attr_chain b e (p + 4 + pad4 (alen b p))"
  "\<not> (p + 4 \<le> e \<and> p + 4 + pad4 (alen b p) \<le> e) \<Longrightarrow> attr_chain b e p = []"
  by (simp_all add: attr_chain.simps [of b e p])

lemma attr_stop_step:
  "p + 4 \<le> e \<and> p + 4 + pad4 (alen b p) \<le> e \<Longrightarrow>
     attr_stop b e p = attr_stop b e (p + 4 + pad4 (alen b p))"
  "\<not> (p + 4 \<le> e \<and> p + 4 + pad4 (alen b p) \<le> e) \<Longrightarrow> attr_stop b e p = p"
  by (subst attr_stop.simps, auto)+

lemma attr_chain_bounds:
  "p \<in> set (attr_chain b e q) \<Longrightarrow> q \<le> p \<and> p + 4 + pad4 (alen b p) \<le> e"
proof (induction b e q rule: attr_chain.induct)
  case (1 b e q)
  show ?case
  proof (cases "q + 4 \<le> e \<and> q + 4 + pad4 (alen b q) \<le> e")
    case True
    with 1 show ?thesis using attr_chain_step(1) [OF True] by auto
  next
    case False
    with 1(2) attr_chain_step(2) [OF False] show ?thesis by simp
  qed
qed

lemma attr_offsets_end:
  assumes "p \<in> set (attr_offsets b len)"
  shows "\<exists>e. msg_end b len = Some e \<and> p + 4 + pad4 (alen b p) \<le> e \<and> e \<le> len \<and> STUN_HEADER_LENGTH \<le> p"
proof (cases "msg_end b len")
  case (Some e)
  with assms attr_chain_bounds [of p b e STUN_HEADER_LENGTH] msg_end_bounds [OF Some] show ?thesis
    by (simp add: attr_offsets_def)
qed (use assms in \<open>simp add: attr_offsets_def\<close>)

lemma attr_offsets_bounds:
  assumes "p \<in> set (attr_offsets b len)"
  shows "STUN_HEADER_LENGTH \<le> p \<and> p + 4 + pad4 (alen b p) \<le> len"
  using attr_offsets_end [OF assms] by auto

lemma attr_chain_cong:
  "(\<And>i. p \<le> i \<Longrightarrow> i < e \<Longrightarrow> b ! i = b' ! i) \<Longrightarrow>
     attr_chain b e p = attr_chain b' e p \<and> attr_stop b e p = attr_stop b' e p"
proof (induction b e p rule: attr_chain.induct)
  case (1 b e p)
  show ?case
  proof (cases "p + 4 \<le> e \<and> p + 4 + pad4 (alen b p) \<le> e")
    case True
    then have "alen b' p = alen b p" using 1(2) [of "p + 2"] 1(2) [of "p + 3"] by (simp add: alen_def)
    with True 1 show ?thesis by (simp add: attr_chain_step(1) attr_stop_step(1))
  next
    case False
    then have "\<not> (p + 4 \<le> e \<and> p + 4 + pad4 (alen b' p) \<le> e)"
      using 1(2) [of "p + 2"] 1(2) [of "p + 3"] by (auto simp: alen_def)
    with False show ?thesis by (simp add: attr_chain_step(2) attr_stop_step(2))
  qed
qed

lemma attr_chain_append:
  "attr_stop b e p = e \<Longrightarrow> e \<le> e' \<Longrightarrow>
     attr_chain b e' p = attr_chain b e p @ attr_chain b e' e \<and> attr_stop b e' p = attr_stop b e' e"
proof (induction b e p rule: attr_chain.induct)
  case (1 b e p)
  show ?case
  proof (cases "p + 4 \<le> e \<and> p + 4 + pad4 (alen b p) \<le> e")
    case True
    with 1 show ?thesis by (simp add: attr_chain_step(1) attr_stop_step(1))
  next
    case False
    with 1(2) have "p = e" by (simp add: attr_stop_step(2))
    moreover from this have "attr_chain b e p = []" by (simp add: attr_chain.simps [of b e e])
    ultimately show ?thesis by simp
  qed
qed

section \<open>Well-formed messages\<close>

text \<open>A message whose header gives its length, which is a multiple of four, and whose
  attributes fill it completely.\<close>

definition wf_msg :: "buffer \<Rightarrow> nat \<Rightarrow> bool" where
  "wf_msg b len \<longleftrightarrow> len \<le> length b \<and> msg_end b len = Some len \<and> 4 dvd len \<and>
     attr_stop b len STUN_HEADER_LENGTH = len"

text \<open>The bytes of one attribute.\<close>

definition tlv :: "u16 \<Rightarrow> u8 list \<Rightarrow> u8 list" where
  "tlv t v = bytes16 (nswap16 t) @ bytes16 (nswap16 (of_nat (length v))) @ v @
     replicate (pad4 (length v) - length v) 0"

lemma length_tlv [simp]: "length (tlv t v) = 4 + pad4 (length v)"
  using le_pad4 [of "length v"] by (simp add: tlv_def)

lemma wf_msgD:
  assumes "wf_msg b len"
  shows "len \<le> length b" "msg_end b len = Some len" "4 dvd len" "20 \<le> len"
    "attr_stop b len STUN_HEADER_LENGTH = len"
  using assms msg_end_bounds [of b len len] by (auto simp: wf_msg_def)

text \<open>The buffer after an attribute has been appended.\<close>

definition add_tlv :: "buffer \<Rightarrow> nat \<Rightarrow> u16 \<Rightarrow> u8 list \<Rightarrow> buffer" where
  "add_tlv b len t v =
     patch (patch b 2 (bytes16 (nswap16 (of_nat (len + 4 + pad4 (length v) - STUN_HEADER_LENGTH)))))
       len (tlv t v)"

lemma pad_len:
  assumes "4 dvd (len :: nat)"
  shows "(if (int len + 4 + int n) mod 4 \<noteq> 0 then 4 - (int len + 4 + int n) mod 4 else 0) =
      int (pad4 n - n)"
proof -
  obtain k where len: "len = 4 * k" using assms by auto
  have 1: "(int len + 4 + int n) mod 4 = int (n mod 4)"
    unfolding len by (simp add: zmod_int) presburger
  have 2: "int (pad4 n - n) = (if n mod 4 \<noteq> 0 then 4 - int (n mod 4) else 0)"
    using mod_less_divisor [of 4 n] by (auto simp: pad4_def Let_def)
  show ?thesis unfolding 1 2 by simp
qed

lemma stun_attr_add_str_unfold:
  assumes wf: "wf_msg b len"
  shows "stun_attr_add_str b len t (Some v) (int n) =
    (if 65507 \<le> len + 4 + pad4 n then Some (False, b, len) else do {
       (_, b1) \<leftarrow> stun_set_command_message_len_str b (int (len + 4 + pad4 n));
       b2 \<leftarrow> wr16 b1 len (nswap16 t);
       b3 \<leftarrow> wr16 b2 (len + 2) (nswap16 (of_nat n));
       b4 \<leftarrow> (if int n > 0 then do { v \<leftarrow> load v 0 n; store b3 (len + 4) v } else Some b3);
       b5 \<leftarrow> store b4 (len + 4 + n) (replicate (pad4 n - n) 0);
       Some (True, b5, len + 4 + pad4 n)
     })"
proof -
  note wf = wf_msgD [OF wf]
  define p where "p = pad4 n - n"
  define new where "new = len + 4 + pad4 n"
  have new: "int len + 4 + int n + int p = int new"
    using le_pad4 [of n] by (simp add: new_def p_def)
  have cl: "stun_get_command_message_len_str b len = Some (int len)"
    using wf by (simp add: command_message_len_in)
  have neg: "(int k < 0) = False" "(Some v = None) = False" "(65507 \<le> int new) = (65507 \<le> new)" for k
    by simp_all
  show ?thesis
    unfolding new_def [symmetric] p_def [symmetric]
    by (simp only: stun_attr_add_str_def Let_def cl Option.bind.simps option.simps neg if_False
        pad_len [OF wf(3)] p_def [symmetric] new(1) nat_int of_int_of_nat_eq)
qed

lemma stun_attr_add_str_tlv:
  assumes wf: "wf_msg b len" and n: "n \<le> length v"
    and fit: "len + 4 + pad4 n \<le> length b" and small: "len + 4 + pad4 n < 65507"
  shows "stun_attr_add_str b len t (Some v) (int n) =
     Some (True, add_tlv b len t (take n v), len + 4 + pad4 n)"
proof -
  note w = wf_msgD [OF wf]
  define p where "p = pad4 n - n"
  define new where "new = len + 4 + pad4 n"
  have p: "n + p = pad4 n" using le_pad4 [of n] by (simp add: p_def)
  have new: "len + 4 + n + p = new" using p by (simp add: new_def)
  define b1 where "b1 = patch b 2 (bytes16 (nswap16 (of_nat (new - 20))))"
  have l1: "length b1 = length b" using fit w(4) by (simp add: b1_def)
  have "int new - 20 = int (new - 20)" using w(4) by (simp add: new_def)
  then have set: "stun_set_command_message_len_str b (int new) = Some (True, b1)"
    using w fit new by (simp add: stun_set_command_message_len_str_def wr16_def store_def b1_def)
  have val: "add_tlv b len t (take n v) =
      patch b1 len (bytes16 (nswap16 t) @ bytes16 (nswap16 (of_nat n)) @ take n v @ replicate p 0)"
    using n by (simp add: add_tlv_def tlv_def b1_def new_def p_def min_absorb2)
  have bounds: "new \<le> length b" "len + 4 \<le> length b" "len + 4 + n \<le> length b"
    using fit small new by (simp_all add: new_def)
  show ?thesis
    unfolding stun_attr_add_str_unfold [OF wf] val
    unfolding new_def [symmetric] p_def [symmetric] set
    using w n bounds l1 new small
    by (cases "n = 0") (auto simp: wr16_def store_def load_def patch_patch_adj new_def)
qed

lemma be16_bytes16: "be16 (bytes16 (nswap16 w) ! 0) (bytes16 (nswap16 w) ! Suc 0) = unat w"
  using unat_nswap16_host16 [of "bytes16 (nswap16 w) ! 0" "bytes16 (nswap16 w) ! Suc 0"]
  by (simp add: bytes16_def)

lemma add_tlv_nth:
  assumes "20 \<le> len" "len + 4 + pad4 (length v) \<le> length b"
  shows "length (add_tlv b len t v) = length b"
    and "i < len \<Longrightarrow> i \<noteq> 2 \<Longrightarrow> i \<noteq> 3 \<Longrightarrow> add_tlv b len t v ! i = b ! i"
    and "be16 (add_tlv b len t v ! 2) (add_tlv b len t v ! 3) =
           (len + 4 + pad4 (length v) - 20) mod 65536"
    and "i < 4 + pad4 (length v) \<Longrightarrow> add_tlv b len t v ! (len + i) = tlv t v ! i"
proof -
  define w where "w = (of_nat (len + 4 + pad4 (length v) - 20) :: u16)"
  define b1 where "b1 = patch b 2 (bytes16 (nswap16 w))"
  have add: "add_tlv b len t v = patch b1 len (tlv t v)"
    unfolding add_tlv_def b1_def w_def ..
  have l1: "length b1 = length b" using assms by (simp add: b1_def)
  have n1: "b1 ! i = (if i = 2 then bytes16 (nswap16 w) ! 0
      else if i = 3 then bytes16 (nswap16 w) ! Suc 0 else b ! i)" if "i < length b" for i
  proof -
    have "i - 2 = 0 \<longleftrightarrow> i \<le> 2" "i < 2 \<or> i = 2 \<or> i = 3 \<or> 4 \<le> i" by auto
    then show ?thesis using that assms by (auto simp: b1_def nth_patch numeral_3_eq_3)
  qed
  have n2: "add_tlv b len t v ! i = (if i < len then b1 ! i
      else if i < len + (4 + pad4 (length v)) then tlv t v ! (i - len) else b1 ! i)"
    if "i < length b" for i
    using that assms l1 by (simp add: add nth_patch)
  show "length (add_tlv b len t v) = length b" using assms l1 by (simp add: add)
  show "add_tlv b len t v ! i = b ! i" if "i < len" "i \<noteq> 2" "i \<noteq> 3"
    using that assms by (simp add: n2 n1)
  have "be16 (add_tlv b len t v ! 2) (add_tlv b len t v ! 3) = unat w"
    using assms be16_bytes16 [of w] by (simp add: n2 n1)
  then show "be16 (add_tlv b len t v ! 2) (add_tlv b len t v ! 3) =
      (len + 4 + pad4 (length v) - 20) mod 65536"
    unfolding w_def unat_of_nat by simp
  show "add_tlv b len t v ! (len + i) = tlv t v ! i" if "i < 4 + pad4 (length v)"
    using that assms by (simp add: n2)
qed

lemma tlv_fields:
  assumes "length v < 65536"
  shows "be16 (tlv t v ! 0) (tlv t v ! 1) = unat t"
    and "be16 (tlv t v ! 2) (tlv t v ! 3) = length v"
    and "take (length v) (drop 4 (tlv t v)) = v"
proof -
  show "be16 (tlv t v ! 0) (tlv t v ! 1) = unat t"
    using be16_bytes16 [of t] by (simp add: tlv_def nth_append)
  have "be16 (tlv t v ! 2) (tlv t v ! 3) = unat (of_nat (length v) :: u16)"
    using be16_bytes16 [of "of_nat (length v)"] by (simp add: tlv_def nth_append numeral_3_eq_3)
  also have "\<dots> = length v" using assms by (simp add: unat_of_nat)
  finally show "be16 (tlv t v ! 2) (tlv t v ! 3) = length v" .
  show "take (length v) (drop 4 (tlv t v)) = v" by (simp add: tlv_def)
qed

lemma attr_fields_cong:
  assumes "\<And>i. p \<le> i \<Longrightarrow> i < p + 4 + alen b p \<Longrightarrow> b ! i = b' ! i"
    and "p + 4 + alen b p \<le> length b" "length b' = length b"
  shows "atype b' p = atype b p" "alen b' p = alen b p" "avalue b' p = avalue b p"
proof -
  show "atype b' p = atype b p" using assms(1) [of p] assms(1) [of "p + 1"] by (simp add: atype_def)
  show l: "alen b' p = alen b p"
    using assms(1) [of "p + 2"] assms(1) [of "p + 3"] by (simp add: alen_def)
  show "avalue b' p = avalue b p"
    unfolding avalue_def l by (rule nth_equalityI) (use assms in auto)
qed

end
