(* ===== verification/Stun_Codec.thy ===== *)
theory Stun_Codec
  imports Stun_Attrs
begin

text \<open>
  Properties of the message layer: appending an attribute appends it to the abstract
  attribute list, every reader stays inside the buffer and finds what the list holds,
  and the round trips between the writing and the reading functions.
\<close>

section \<open>Appending an attribute\<close>

lemma add_tlv_append:
  fixes t :: u16
  assumes wf: "wf_msg b len" and v: "length v < 65536"
    and fit: "len + 4 + pad4 (length v) \<le> length b" and small: "len + 4 + pad4 (length v) < 65556"
  defines "b' \<equiv> add_tlv b len t v" and "len' \<equiv> len + 4 + pad4 (length v)"
  shows "wf_msg b' len'"
    and "attr_offsets b' len' = attr_offsets b len @ [len]"
    and "attrs b' len' = attrs b len @ [(unat t, v)]"
proof -
  note w = wf_msgD [OF wf]
  note nth = add_tlv_nth [OF w(4) fit, where t = t, folded b'_def]
  have mend: "msg_end b' len' = Some len'"
    using nth(3) small w(4) by (simp add: msg_end_def len'_def Let_def)
  have cong: "attr_chain b' len 20 = attr_chain b len 20" "attr_stop b' len 20 = attr_stop b len 20"
    using attr_chain_cong [of 20 len b' b] nth(2) by auto
  have f: "alen b' len = length v" "atype b' len = unat t" "avalue b' len = v"
  proof -
    show l: "alen b' len = length v"
      using tlv_fields(2) [OF v, of t] nth(4) [of 2] nth(4) [of 3] by (simp add: alen_def)
    show "atype b' len = unat t"
      using tlv_fields(1) [OF v, of t] nth(4) [of 0] nth(4) [of 1] by (simp add: atype_def)
    have "take (length v) (drop (len + 4) b') = take (length v) (drop 4 (tlv t v))"
    proof (rule nth_equalityI)
      fix i assume "i < length (take (length v) (drop (len + 4) b'))"
      then have i: "i < length v" by simp
      have "len + 4 + length v \<le> length b'" "4 + i < 4 + pad4 (length v)"
        using fit le_pad4 [of "length v"] nth(1) i by auto
      then show "take (length v) (drop (len + 4) b') ! i = take (length v) (drop 4 (tlv t v)) ! i"
        using nth(4) [of "4 + i"] i by (simp add: add.assoc)
    qed (use fit le_pad4 [of "length v"] nth(1) in \<open>simp add: tlv_def\<close>)
    then show "avalue b' len = v" using tlv_fields(3) [OF v, of t] by (simp add: avalue_def l)
  qed
  have last: "attr_chain b' len' len = [len]" "attr_stop b' len' len = len'"
    using f(1) attr_chain_step [of len len' b'] attr_chain_step(2) [of len' len' b']
      attr_stop_step [of len len' b'] attr_stop_step(2) [of len' len' b']
    by (auto simp: len'_def)
  have app: "attr_chain b' len' 20 = attr_chain b len 20 @ [len]" "attr_stop b' len' 20 = len'"
    using attr_chain_append [of b' len 20 len'] cong last w(5) by (auto simp: len'_def)
  show "wf_msg b' len'"
    using mend app(2) w(3) fit nth(1) by (simp add: wf_msg_def len'_def)
  show off: "attr_offsets b' len' = attr_offsets b len @ [len]"
    using mend app(1) w(2) by (simp add: attr_offsets_def)
  have old: "atype b' p = atype b p \<and> avalue b' p = avalue b p" if "p \<in> set (attr_offsets b len)" for p
  proof -
    have p: "20 \<le> p" "p + 4 + pad4 (alen b p) \<le> len" using attr_offsets_bounds [OF that] by auto
    then have "p + 4 + alen b p \<le> len" using le_pad4 [of "alen b p"] by simp
    then show ?thesis
      using attr_fields_cong [of p b b'] nth p(1) w(1) by auto
  qed
  show "attrs b' len' = attrs b len @ [(unat t, v)]"
    unfolding attrs_def off using old f by simp
qed

lemma add_str_append:
  assumes wf: "wf_msg b len" and n: "n \<le> length v" "n < 65536"
    and fit: "len + 4 + pad4 n \<le> length b" and small: "len + 4 + pad4 n < 65507"
  obtains b' where "stun_attr_add_str b len t (Some v) (int n) = Some (True, b', len + 4 + pad4 n)"
    and "wf_msg b' (len + 4 + pad4 n)" "length b' = length b"
    and "attr_offsets b' (len + 4 + pad4 n) = attr_offsets b len @ [len]"
    and "attrs b' (len + 4 + pad4 n) = attrs b len @ [(unat t, take n v)]"
    and "\<And>i. i < len \<Longrightarrow> i \<noteq> 2 \<Longrightarrow> i \<noteq> 3 \<Longrightarrow> b' ! i = b ! i"
proof -
  have l: "length (take n v) = n" using n by simp
  show ?thesis
    using that [of "add_tlv b len t (take n v)"] stun_attr_add_str_tlv [OF wf n(1) fit small, of t]
      add_tlv_append [OF wf, where v = "take n v" and t = t] add_tlv_nth [where len = len and v = "take n v" and b = b and t = t]
      wf_msgD(4) [OF wf] n fit small
    by (simp only: l) simp
qed

text \<open>Overwriting the value of the attribute that was appended last.\<close>

lemma patch_add_tlv:
  assumes "length v' = length v" "pad4 (length v) = length v" "20 \<le> len" "len + 4 + length v \<le> length b"
  shows "patch (add_tlv b len t v) (len + 4) v' = add_tlv b len t v'"
proof -
  define B where "B = patch b 2 (bytes16 (nswap16 (of_nat (len + 4 + pad4 (length v) - 20))))"
  have B: "length B = length b" using assms by (simp add: B_def)
  define h where "h = bytes16 (nswap16 t) @ bytes16 (nswap16 (of_nat (length v)))"
  have h: "length h = 4" by (simp add: h_def)
  have "add_tlv b len t v = patch B len (h @ v)" "add_tlv b len t v' = patch B len (h @ v')"
    using assms(1,2) by (simp_all add: add_tlv_def tlv_def B_def h_def)
  moreover have "patch (patch B len (h @ v)) (len + 4) v' = patch B len (h @ v')"
    using assms B h by (simp add: patch_def)
  ultimately show ?thesis by simp
qed

lemma take_add_tlv:
  assumes "20 \<le> len" "len + 4 + pad4 (length v) \<le> length b" "length v' = length v"
  shows "take len (add_tlv b len t v) = take len (add_tlv b len t' v')"
  using assms by (simp add: add_tlv_def)

section \<open>Recognising STUN messages\<close>

lemma and3_iff: "(w :: u16) AND 3 = 0 \<longleftrightarrow> unat w mod 4 = 0"
proof -
  have "w AND 3 = take_bit 2 w" by (simp add: take_bit_eq_mask mask_eq_exp_minus_1)
  then have "unat (w AND 3) = take_bit 2 (unat w)" by (simp only: unsigned_take_bit_eq)
  then have "unat (w AND 3) = unat w mod 4" by (simp add: take_bit_eq_mod)
  then show ?thesis by (metis unat_0 unat_eq_zero)
qed

lemma is_command_message_in [mem_simps]:
  assumes "len \<le> length b"
  shows "stun_is_command_message_str b len = Some (20 \<le> len \<and>
     \<not> STUN_VALID_CHANNEL (host16 (b ! 1) (b ! 0)) \<and> b ! 0 AND 0xC0 = 0 \<and>
     host32 (b ! 7) (b ! 6) (b ! 5) (b ! 4) = STUN_MAGIC_COOKIE \<and>
     be16 (b ! 2) (b ! 3) mod 4 = 0 \<and> be16 (b ! 2) (b ! 3) + 20 = len)"
  using assms
  by (simp add: stun_is_command_message_str_def rd8_def rd16_def rd32_def Let_def and3_iff
      nswap16_host16 [of "b ! 0"] nswap32_host32 unat_nswap16_host16 numeral_3_eq_3) auto

section \<open>Readers on the attribute list\<close>

lemma chain_while_find:
  assumes "\<And>p. p \<in> set ps \<Longrightarrow> body p None = Some (if P p then Some p else None)"
  shows "chain_while (\<lambda>f. f = None) body ps None = Some (find P ps)"
  using assms by (induction ps) auto

lemma get_first_by_type_in [mem_simps]:
  assumes "len \<le> length b"
  shows "stun_attr_get_first_by_type_str b len t =
     Some (find (\<lambda>p. atype b p = unat t) (attr_offsets b len))"
proof -
  have "stun_attr_get_type b (Some p) = Some (int (atype b p))" if "p \<in> set (attr_offsets b len)" for p
    using attr_offsets_bounds [OF that] assms by (intro get_type_in) simp
  moreover have "int x = uint t \<longleftrightarrow> x = unat t" for x
    by (metis nat_int unat_eq_nat_uint uint_nat)
  ultimately show ?thesis
    unfolding stun_attr_get_first_by_type_str_def
    by (simp add: get_first_in [OF assms] attr_while_offsets [OF assms] chain_while_find)
qed

section \<open>Message types and methods\<close>

definition method_of_type :: "u16 \<Rightarrow> u16" where
  "method_of_type tt = (tt AND 0x000F) OR drop_bit 1 (tt AND 0x00E0) OR
     drop_bit 2 (tt AND 0x0E00) OR drop_bit 2 (tt AND 0x3000)"

lemmas type_defs = method_of_type_def stun_make_type_def stun_make_request_def stun_make_indication_def
  stun_make_success_response_def stun_make_error_response_def Let_def

lemma method_of_make:
  "method_of_type (stun_make_request m AND 0x3FFF) = m AND 0x0FFF"
  "method_of_type (stun_make_indication m AND 0x3FFF) = m AND 0x0FFF"
  "method_of_type (stun_make_success_response m AND 0x3FFF) = m AND 0x0FFF"
  "method_of_type (stun_make_error_response m AND 0x3FFF) = m AND 0x0FFF"
  by (rule u16_eqI, simp add: type_defs bit_simps bit_u16_times2)+

lemma class_of_make:
  "(stun_make_request m AND 0x3FFF) AND 0x0110 = 0"
  "(stun_make_indication m AND 0x3FFF) AND 0x0110 = 0x0010"
  "(stun_make_success_response m AND 0x3FFF) AND 0x0110 = 0x0100"
  "(stun_make_error_response m AND 0x3FFF) AND 0x0110 = 0x0110"
  by (rule u16_eqI, simp add: type_defs bit_simps bit_u16_times2)+

text \<open>The 20 bytes of a message header without attributes.\<close>

definition header :: "u16 \<Rightarrow> u32 \<Rightarrow> u8 list \<Rightarrow> u8 list" where
  "header t cookie tid = bytes16 (nswap16 (t AND 0x3FFF)) @ [0, 0] @ bytes32 (nswap32 cookie) @ take 12 tid"

lemma old_init_command_header:
  assumes "20 \<le> length b" "12 \<le> length rnd"
  shows "old_stun_init_command_str rnd t b cookie = Some (patch b 0 (header t cookie rnd), 20)"
proof -
  have "bytes16 0 = [0, 0]" by (simp add: bytes16_def)
  then have "patch (patch (patch (patch (patch b 0 (replicate 20 0)) 0 x) 2 (bytes16 0)) 4 y) 8 z =
      patch b 0 (x @ [0, 0] @ y @ z)" if "length x = 2" "length y = 4" "length z = 12" for x y z
    using that assms by (simp add: patch_def take_Cons' numeral_eq_Suc)
  then show ?thesis using assms
    by (simp add: old_stun_init_command_str_def stun_init_buffer_str_def wr16_def wr32_def store_def
        stun_tid_generate_in_message_str_def stun_tid_message_cpy_def load_def header_def)
qed

lemma init_command_old:
  "stun_init_command_str rnd t b = old_stun_init_command_str rnd t b STUN_MAGIC_COOKIE"
  by (simp add: stun_init_command_str_def old_stun_init_command_str_def)

lemmas init_command_header = old_init_command_header [where cookie = STUN_MAGIC_COOKIE, folded init_command_old]

lemma length_header [simp]: "12 \<le> length tid \<Longrightarrow> length (header t c tid) = 20"
  by (simp add: header_def)

lemma header_fields:
  fixes t :: u16 and c :: u32
  assumes "20 \<le> length b" "12 \<le> length tid"
  defines "b' \<equiv> patch b 0 (header t c tid)"
  shows "rd16 b' 0 = Some (nswap16 (t AND 0x3FFF))" "rd16 b' 2 = Some 0"
    "rd32 b' 4 = Some (nswap32 c)" "rd8 b' 0 = Some (ucast (nswap16 (t AND 0x3FFF)))"
    "load b' 8 12 = Some (take 12 tid)" "msg_end b' 20 = Some 20"
proof -
  have l: "length b' = length b" using assms by simp
  have n: "b' ! i = header t c tid ! i" if "i < 20" for i
    using that assms by (simp add: nth_patch)
  show "rd16 b' 0 = Some (nswap16 (t AND 0x3FFF))" "rd8 b' 0 = Some (ucast (nswap16 (t AND 0x3FFF)))"
    using l n assms(1) by (auto simp: rd16_def rd8_def header_def nth_append bytes16_def)
  show "rd16 b' 2 = Some 0" "msg_end b' 20 = Some 20"
    using l n assms(1) by (simp_all add: rd16_def msg_end_def header_def nth_append host16_def be16_def)
  show "rd32 b' 4 = Some (nswap32 c)"
    using l n assms(1) by (simp add: rd32_def header_def bytes16_def bytes32_def)
  show "load b' 8 12 = Some (take 12 tid)"
    using assms by (simp add: load_def patch_def header_def)
qed

lemma header_wf:
  assumes "20 \<le> length b" "12 \<le> length tid"
  shows "wf_msg (patch b 0 (header t c tid)) 20" "attrs (patch b 0 (header t c tid)) 20 = []"
  using assms header_fields(6) [OF assms, of t c] attr_chain_step(2) [of 20 20] attr_stop_step(2) [of 20 20]
  by (simp_all add: wf_msg_def attrs_def attr_offsets_def)

lemma channel_type: "\<not> STUN_VALID_CHANNEL (t AND 0x3FFF)"
proof -
  have "t AND 0x3FFF \<le> (0x3FFF :: u16)" by (rule word_and_le1)
  then show ?thesis
    by (auto simp: STUN_VALID_CHANNEL_def word_le_nat_alt)
qed

lemma type_high_bits: "(ucast (nswap16 (t AND 0x3FFF)) :: u8) AND 0xC0 = 0"
  by (rule u8_eqI) (simp add: nswap16_def bit_simps)

lemma header_readers:
  fixes t :: u16 and c :: u32
  assumes "20 \<le> length b" "12 \<le> length tid"
  defines "b' \<equiv> patch b 0 (header t c tid)"
  shows "stun_get_method_str b' 20 = Some (method_of_type (t AND 0x3FFF))"
    "stun_get_msg_type_str b' 20 = Some (t AND 0x3FFF)"
    "is_channel_msg_str b' 20 = Some False"
    "stun_is_command_message_str b' 20 = Some (c = STUN_MAGIC_COOKIE)"
  using header_fields [OF assms(1,2), of t c, folded b'_def] channel_type [of t] type_high_bits [of t]
  by (simp_all add: stun_get_method_str_def method_of_type_def stun_get_msg_type_str_def
      is_channel_msg_str_def stun_is_command_message_str_def and.assoc nswap16_def [of 0] Let_def)

section \<open>Memory safety of the readers\<close>

lemma chain_while_safe:
  assumes "\<And>p s. p \<in> set ps \<Longrightarrow> body p s \<noteq> None"
  shows "chain_while go body ps s \<noteq> None"
  using assms
proof (induction ps arbitrary: s)
  case (Cons p ps)
  then obtain s' where "body p s = Some s'" by fastforce
  with Cons show ?case by simp
qed simp

lemma attr_loop_safe:
  assumes "len \<le> length b" "\<And>p s. p \<in> set (attr_offsets b len) \<Longrightarrow> body p s \<noteq> None"
  shows "attr_while b len go body (hd_opt (attr_offsets b len)) s \<noteq> None"
  unfolding attr_while_offsets [OF assms(1)] using assms(2) by (rule chain_while_safe)

lemma offsets_inside:
  assumes "p \<in> set (attr_offsets b len)" "len \<le> length b"
  shows "20 \<le> p" "p + 4 + alen b p \<le> len" "p + 4 \<le> length b" "p + 4 + alen b p \<le> length b"
  using attr_offsets_bounds [OF assms(1)] assms(2) le_pad4 [of "alen b p"] by auto

text \<open>The attribute that was appended last: its fields, and that the search by type finds it when
  no other attribute has its type.\<close>

lemma last_attr:
  assumes "len' \<le> length b'" "attr_offsets b' len' = ps @ [p]" "attrs b' len' = as @ [(t, v)]"
  shows "atype b' p = t" "avalue b' p = v" "alen b' p = length v"
    and "t \<notin> fst ` set as \<Longrightarrow> find (\<lambda>q. atype b' q = t) (ps @ [p]) = Some p"
proof -
  have m: "map (\<lambda>p. (atype b' p, avalue b' p)) ps = as" "(atype b' p, avalue b' p) = (t, v)"
    using assms(2,3) by (simp_all add: attrs_def)
  then show f: "atype b' p = t" "avalue b' p = v" by simp_all
  have "length (avalue b' p) = alen b' p"
    using offsets_inside(4) [of p b' len'] assms by (simp add: avalue_def)
  then show "alen b' p = length v" using f(2) by simp
  show "find (\<lambda>q. atype b' q = t) (ps @ [p]) = Some p" if "t \<notin> fst ` set as"
    using that f(1) unfolding m(1) [symmetric] by (induction ps) auto
qed

lemma get_addr_safe:
  assumes "p \<in> set (attr_offsets b len)" "len \<le> length b"
  shows "stun_attr_get_addr_str m b len (Some p) d \<noteq> None"
proof -
  note p = offsets_inside [OF assms]
  have tid: "stun_tid_from_message_str b len = Some (take 12 (drop 8 b))" "length (take 12 (drop 8 b)) = 12"
    using p by (auto simp: stun_tid_from_message_str_def load_def)
  obtain r a where "stun_addr_decode addr_set_any (Some (drop (p + 4) b)) (int (alen b p))
      (xor_attr (int (atype b p))) STUN_MAGIC_COOKIE (take 12 (drop 8 b)) = Some (r, a)"
    using stun_addr_decode_safe [of "int (alen b p)" "drop (p + 4) b" "take 12 (drop 8 b)"] p tid(2)
    by fastforce
  then show ?thesis
    using p tid by (auto simp: stun_attr_get_addr_str_def get_type_in get_len_in get_value_in Let_def
        split: option.splits)
qed

lemma get_channel_number_safe:
  assumes "p \<in> set (attr_offsets b len)" "len \<le> length b"
  shows "stun_attr_get_channel_number b (Some p) \<noteq> None"
  using offsets_inside [OF assms]
  by (auto simp: stun_attr_get_channel_number_def get_len_in get_value_in rd16_def)

lemma get_first_addr_safe:
  assumes "len \<le> length b"
  shows "stun_attr_get_first_addr_str m b len t ca d \<noteq> None"
  unfolding stun_attr_get_first_addr_str_def get_first_in [OF assms] Option.bind.simps
proof (rule attr_loop_safe [OF assms])
  fix p and s :: "bool \<times> ioa_addr" assume p: "p \<in> set (attr_offsets b len)"
  show "(case s of (found, ca) \<Rightarrow> do {
          is_addr \<leftarrow> stun_attr_is_addr b (Some p);
          t' \<leftarrow> stun_attr_get_type b (Some p);
          if is_addr \<and> uint t = t' then stun_attr_get_addr_str m b len (Some p) d
          else Some (found, ca) }) \<noteq> None"
    using get_addr_safe [OF p assms] offsets_inside(3) [OF p assms]
    by (auto simp: stun_attr_is_addr_def get_type_in split: prod.split)
qed

lemma get_first_channel_number_safe:
  assumes "len \<le> length b"
  shows "stun_attr_get_first_channel_number_str b len \<noteq> None"
  unfolding stun_attr_get_first_channel_number_str_def get_first_in [OF assms] Option.bind.simps
proof (rule attr_loop_safe [OF assms])
  fix p and s :: u16 assume p: "p \<in> set (attr_offsets b len)"
  show "do {
          t \<leftarrow> stun_attr_get_type b (Some p);
          if t = uint STUN_ATTRIBUTE_CHANNEL_NUMBER then do {
            r \<leftarrow> stun_attr_get_channel_number b (Some p);
            if STUN_VALID_CHANNEL r then Some r else Some s
          } else Some s } \<noteq> None"
    using get_channel_number_safe [OF p assms] offsets_inside(3) [OF p assms]
    by (auto simp: get_type_in)
qed

lemma header_readers_safe:
  assumes "len \<le> length b"
  shows "stun_is_command_message_str b len \<noteq> None" "old_stun_is_command_message_str b len \<noteq> None"
    "stun_get_method_str b len \<noteq> None" "stun_get_msg_type_str b len \<noteq> None"
    "stun_is_request_str b len \<noteq> None" "stun_is_indication_str b len \<noteq> None"
    "stun_is_response_str b len \<noteq> None" "stun_is_success_response_str b len \<noteq> None"
  using assms
  by (auto simp: stun_is_command_message_str_def old_stun_is_command_message_str_def rd8_def rd16_def
      rd32_def stun_get_method_str_def stun_get_msg_type_str_def stun_is_request_str_def
      stun_is_indication_str_def stun_is_response_str_def stun_is_success_response_str_def
      is_channel_msg_str_def Let_def)

section \<open>Address attributes\<close>

lemma chain_while_skip:
  assumes "\<And>p. p \<in> set ps \<Longrightarrow> body p s = Some s" "go s"
  shows "chain_while go body (ps @ qs) s = chain_while go body qs s"
  using assms by (induction ps) auto

definition addr_attr_types :: "u16 set" where
  "addr_attr_types = {0x0020, 0x0012, 0x0016, 0x0001, 0x8023, 0x0002, 0x0004, 0x0005, 0x000B, 0x802B, 0x802C}"

text \<open>What a decoded address keeps of the encoded one: family, port and address.\<close>

definition addr_norm :: "ioa_addr \<Rightarrow> ioa_addr" where
  "addr_norm a = (if sa_family a = AF_INET6
     then addr_set_any\<lparr>sa_family := AF_INET6, sin_port := sin_port a, sin6_addr := sin6_addr a\<rparr>
     else addr_set_any\<lparr>sa_family := AF_INET, sin_port := sin_port a, s_addr := s_addr a\<rparr>)"

lemma addr_norm_eq: "sa_family a \<in> {AF_INET, AF_INET6} \<Longrightarrow> addr_eq (Some (addr_norm a)) (Some a)"
  by (auto simp: addr_norm_def)

lemma get_addr_wire:
  assumes off: "p \<in> set (attr_offsets b len)" and len: "len \<le> length b"
    and val: "avalue b p = addr_wire (xor_attr (int (atype b p))) STUN_MAGIC_COOKIE (take 12 (drop 8 b)) a"
    and a: "wf_addr a" "sa_family a \<in> {0, AF_INET, AF_INET6}"
  shows "stun_attr_get_addr_str m b len (Some p) None =
     Some (True, map_addr_from_public_to_private m (addr_norm a))"
proof -
  note p = offsets_inside [OF off len]
  let ?tid = "take 12 (drop 8 b)" and ?n = "if sa_family a = AF_INET6 then 20 else 8 :: nat"
  let ?wire = "addr_wire (xor_attr (int (atype b p))) STUN_MAGIC_COOKIE ?tid a"
  have tid: "stun_tid_from_message_str b len = Some ?tid" "length ?tid = 12"
    using p by (auto simp: stun_tid_from_message_str_def load_def)
  have "length (avalue b p) = alen b p" using p by (simp add: avalue_def)
  then have n: "alen b p = ?n" using val length_addr_wire [OF a(1)] by simp
  have "drop (p + 4) b = take (alen b p) (drop (p + 4) b) @ drop (alen b p) (drop (p + 4) b)"
    by (rule append_take_drop_id [symmetric])
  then obtain rest where rest: "drop (p + 4) b = ?wire @ rest"
    using val by (simp only: avalue_def)
  have dec: "stun_addr_decode addr_set_any (Some (drop (p + 4) b)) (int ?n)
      (xor_attr (int (atype b p))) STUN_MAGIC_COOKIE ?tid = Some (0, addr_norm a)"
    unfolding rest
    using stun_addr_decode_wire [OF a(1) tid(2) a(2), of addr_set_any "xor_attr (int (atype b p))"
        STUN_MAGIC_COOKIE rest]
    by (cases "sa_family a = AF_INET6") (simp_all add: addr_norm_def)
  show ?thesis
    using p tid dec n
    by (auto simp: stun_attr_get_addr_str_def get_type_in get_len_in get_value_in Let_def)
qed

text \<open>The first attribute of a type is the one that the attribute list maps the type to.\<close>

lemma map_of_find:
  "map_of (map (\<lambda>p. (f p, g p)) ps) k = Some v \<longleftrightarrow> (\<exists>p. find (\<lambda>p. f p = k) ps = Some p \<and> g p = v)"
  by (induction ps) auto

lemma map_of_attrs_find:
  "map_of (attrs b len) k = Some v \<longleftrightarrow>
     (\<exists>p. find (\<lambda>p. atype b p = k) (attr_offsets b len) = Some p \<and> avalue b p = v)"
  unfolding attrs_def by (rule map_of_find)

lemma find_split:
  assumes "find P xs = Some x"
  obtains ys zs where "xs = ys @ x # zs" "\<And>y. y \<in> set ys \<Longrightarrow> \<not> P y" "P x"
proof -
  from assms obtain i where "i < length xs" "P (xs ! i)" "x = xs ! i" "\<forall>j<i. \<not> P (xs ! j)"
    by (auto simp: find_Some_iff)
  moreover from this have "\<not> P y" if "y \<in> set (take i xs)" for y
    using that by (auto simp: in_set_conv_nth)
  ultimately show ?thesis using that [of "take i xs" "drop (Suc i) xs"] id_take_nth_drop [of i xs] by auto
qed

lemma get_first_addr_map_of:
  assumes len: "len \<le> length b" and t: "t \<in> addr_attr_types"
    and v: "map_of (attrs b len) (unat t) =
      Some (addr_wire (xor_attr (uint t)) STUN_MAGIC_COOKIE (take 12 (drop 8 b)) a)"
    and a: "wf_addr a" "sa_family a \<in> {0, AF_INET, AF_INET6}"
  shows "stun_attr_get_first_addr_str m b len t ca None =
     Some (True, map_addr_from_public_to_private m (addr_norm a))"
proof -
  from v obtain p where f: "find (\<lambda>p. atype b p = unat t) (attr_offsets b len) = Some p"
    and val: "avalue b p = addr_wire (xor_attr (uint t)) STUN_MAGIC_COOKIE (take 12 (drop 8 b)) a"
    by (auto simp: map_of_attrs_find)
  from find_split [OF f] obtain ps qs where off: "attr_offsets b len = ps @ p # qs"
    and ps: "\<And>q. q \<in> set ps \<Longrightarrow> atype b q \<noteq> unat t" and ty: "atype b p = unat t" by blast
  have ut: "int (unat t) = uint t" by simp
  have get: "stun_attr_get_addr_str m b len (Some p) None =
      Some (True, map_addr_from_public_to_private m (addr_norm a))"
    using get_addr_wire [of p b len a m] off len val ty a ut by auto
  have types: "stun_attr_get_type b (Some q) = Some (int (atype b q))" if "q \<in> set (ps @ [p])" for q
    using offsets_inside(3) [of q b len] that off len by (intro get_type_in) auto
  have isa: "stun_attr_is_addr b (Some p) = Some True"
    using types [of p] ty t by (auto simp: stun_attr_is_addr_def addr_attr_types_def)
  have skip: "do {
        is_addr \<leftarrow> stun_attr_is_addr b (Some q);
        t' \<leftarrow> stun_attr_get_type b (Some q);
        if is_addr \<and> uint t = t' then stun_attr_get_addr_str m b len (Some q) None
        else Some (False, ca) } = Some (False, ca)" if "q \<in> set ps" for q
  proof -
    have "uint t \<noteq> int (atype b q)" using ps [OF that] ut by linarith
    then show ?thesis using types [of q] that by (simp add: stun_attr_is_addr_def)
  qed
  show ?thesis
    unfolding stun_attr_get_first_addr_str_def get_first_in [OF len] Option.bind.simps
      attr_while_offsets [OF len]
    unfolding off using skip isa types [of p] get ty ut by (subst chain_while_skip) auto
qed

lemma add_addr_append:
  assumes wf: "wf_msg b len" and a: "pa = map_addr_from_private_to_public m a" "wf_addr pa"
      "sa_family pa \<in> {0, AF_INET, AF_INET6}"
    and fit: "len + 24 \<le> length b" "len + 24 < 65507"
  obtains b' len' where "stun_attr_add_addr_str m b len t a = Some (True, b', len')" "wf_msg b' len'"
    "attrs b' len' = attrs b len @
       [(unat t, addr_wire (xor_attr (uint t)) STUN_MAGIC_COOKIE (take 12 (drop 8 b)) pa)]"
    "length b' = length b" "len' \<le> len + 24" "take 12 (drop 8 b') = take 12 (drop 8 b)"
proof -
  note w = wf_msgD [OF wf]
  let ?tid = "take 12 (drop 8 b)" and ?x = "xor_attr (uint t)"
  let ?wire = "addr_wire ?x STUN_MAGIC_COOKIE ?tid pa" and ?n = "if sa_family pa = AF_INET6 then 20 else 8 :: nat"
  let ?c = "patch (replicate 64 0) 0 ?wire"
  have tid: "stun_tid_from_message_str b len = Some ?tid" "length ?tid = 12"
    using w by (auto simp: stun_tid_from_message_str_def load_def)
  have enc: "stun_addr_encode pa (replicate 64 0) 0 ?x STUN_MAGIC_COOKIE ?tid = Some (0, ?c, int ?n)"
    using stun_addr_encode_wire [OF a(2) tid(2), of "replicate 64 0" 0 ?x STUN_MAGIC_COOKIE] a(3) by auto
  have c: "take ?n ?c = ?wire" "?n \<le> length ?c"
    using length_addr_wire [OF a(2)] by (simp_all add: patch_def)
  have pad: "pad4 ?n \<le> 20" by (simp add: pad4_def)
  obtain b' where b': "stun_attr_add_str b len t (Some ?c) (int ?n) = Some (True, b', len + 4 + pad4 ?n)"
      "wf_msg b' (len + 4 + pad4 ?n)" "length b' = length b"
      "attrs b' (len + 4 + pad4 ?n) = attrs b len @ [(unat t, ?wire)]"
      "\<And>i. i < len \<Longrightarrow> i \<noteq> 2 \<Longrightarrow> i \<noteq> 3 \<Longrightarrow> b' ! i = b ! i"
    using add_str_append [OF wf c(2), of t] pad fit c(1) by (auto split: if_splits)
  have "stun_attr_add_addr_str m b len t a = Some (True, b', len + 4 + pad4 ?n)"
    using tid enc b'(1) a(1) by (simp add: stun_attr_add_addr_str_def Let_def)
  moreover have "take 12 (drop 8 b') = ?tid"
    by (rule nth_equalityI) (use w b'(3,5) in auto)
  ultimately show ?thesis using that b' pad by simp
qed

section \<open>Properties of the message layer\<close>

lemma wf_msg_zeros: "20 \<le> n \<Longrightarrow> wf_msg (replicate n 0) 20 \<and> attrs (replicate n 0) 20 = []"
  using attr_chain_step(2) [of 20 20 "replicate n 0"] attr_stop_step(2) [of 20 20 "replicate n 0"]
  by (simp add: wf_msg_def attrs_def attr_offsets_def msg_end_def be16_def)

text \<open>C24: stun_attr_add_str on a well-formed message appends exactly one attribute: the
  resulting buffer is again a well-formed message, the list of its (type, value) pairs is the
  old list followed by the new pair, and no byte of the old message but its length field
  changes.  When the attribute would make the message too long it fails without touching the
  buffer.\<close>

theorem stun_attr_add_str_appends:
  assumes "wf_msg b len" and "length v < 65536" and "len + 4 + pad4 (length v) \<le> length b"
  shows "if len + 4 + pad4 (length v) < 65507
     then \<exists>b'. stun_attr_add_str b len t (Some v) (int (length v)) =
             Some (True, b', len + 4 + pad4 (length v)) \<and>
           wf_msg b' (len + 4 + pad4 (length v)) \<and>
           attrs b' (len + 4 + pad4 (length v)) = attrs b len @ [(unat t, v)] \<and>
           length b' = length b \<and> (\<forall>i. i < len \<and> i \<noteq> 2 \<and> i \<noteq> 3 \<longrightarrow> b' ! i = b ! i)
     else stun_attr_add_str b len t (Some v) (int (length v)) = Some (False, b, len)"
proof (cases "len + 4 + pad4 (length v) < 65507")
  case True
  from add_str_append [OF assms(1) order_refl assms(2,3) True, of t] obtain b' where
    "stun_attr_add_str b len t (Some v) (int (length v)) = Some (True, b', len + 4 + pad4 (length v))"
    "wf_msg b' (len + 4 + pad4 (length v))" "length b' = length b"
    "attrs b' (len + 4 + pad4 (length v)) = attrs b len @ [(unat t, v)]"
    "\<And>i. i < len \<Longrightarrow> i \<noteq> 2 \<Longrightarrow> i \<noteq> 3 \<Longrightarrow> b' ! i = b ! i"
    by auto
  with True show ?thesis by auto
next
  case False
  then show ?thesis by (simp add: stun_attr_add_str_unfold [OF assms(1)])
qed

theorem stun_attr_add_str_appends_witness:
  "\<exists>b'. stun_attr_add_str (replicate 40 0) 20 0x000D (Some [0, 0, 2, 88]) 4 = Some (True, b', 28) \<and>
     wf_msg b' 28 \<and> attrs b' 28 = [(13, [0, 0, 2, 88])]"
  using stun_attr_add_str_appends [of "replicate 40 0" 20 "[0, 0, 2, 88]" "0x000D"] wf_msg_zeros [of 40]
  by (auto simp: pad4_def)

text \<open>C25: every reader of the message layer stays inside the buffer on arbitrary bytes, as long
  as the length argument does not exceed the buffer, and a reference to an attribute that the
  search by type returns denotes an attribute of that type whose header and value lie between the
  message header and the end of the message.\<close>

theorem stun_readers_memory_safe:
  assumes "len \<le> length b"
  shows "stun_attr_get_first_addr_str m b len t ca d \<noteq> None \<and>
     stun_attr_get_first_channel_number_str b len \<noteq> None \<and>
     stun_is_command_message_str b len \<noteq> None \<and>
     (\<exists>r. stun_attr_get_first_by_type_str b len t = Some r \<and>
        (case r of None \<Rightarrow> unat t \<notin> fst ` set (attrs b len)
         | Some p \<Rightarrow> 20 \<le> p \<and> p + 4 + alen b p \<le> len \<and> atype b p = unat t))"
proof -
  let ?r = "find (\<lambda>p. atype b p = unat t) (attr_offsets b len)"
  have "case ?r of None \<Rightarrow> unat t \<notin> fst ` set (attrs b len)
      | Some p \<Rightarrow> 20 \<le> p \<and> p + 4 + alen b p \<le> len \<and> atype b p = unat t"
  proof (cases ?r)
    case None
    then have "\<forall>p \<in> set (attr_offsets b len). atype b p \<noteq> unat t" by (auto simp: find_None_iff)
    then show ?thesis unfolding None by (auto simp: attrs_def)
  next
    case (Some p)
    then have "p \<in> set (attr_offsets b len)" "atype b p = unat t" by (auto simp: find_Some_iff)
    with Some offsets_inside [OF _ assms] show ?thesis by simp
  qed
  then show ?thesis
    using get_first_addr_safe [OF assms] get_first_channel_number_safe [OF assms]
      header_readers_safe(1) [OF assms] get_first_by_type_in [OF assms, of t] by blast
qed

theorem stun_readers_memory_safe_witness:
  "stun_attr_get_first_addr_str [] (replicate 24 0xff) 24 0x0012 addr_set_any None \<noteq> None"
  using stun_readers_memory_safe [of 24 "replicate 24 0xff" "[]" "0x0012" addr_set_any None] by simp

text \<open>C26: an address that is added to a message as an address attribute is the address that a
  reader of the message obtains, up to the configured mapping between private and public
  addresses: both for the plain attributes and for those masked with the cookie and the
  transaction id, for IPv4 and for IPv6.\<close>

theorem stun_addr_attr_roundtrip:
  assumes "wf_msg b len" and "t \<in> addr_attr_types" and "unat t \<notin> fst ` set (attrs b len)"
    and "wf_addr (map_addr_from_private_to_public m a)"
    and "sa_family (map_addr_from_private_to_public m a) \<in> {AF_INET, AF_INET6}"
    and "len + 24 \<le> length b" "len + 24 < 65507"
  shows "\<exists>b' len' pa. stun_attr_add_addr_str m b len t a = Some (True, b', len') \<and>
     addr_eq (Some pa) (Some (map_addr_from_private_to_public m a)) \<and>
     stun_attr_get_first_addr_str m b' len' t ca None = Some (True, map_addr_from_public_to_private m pa)"
proof -
  let ?pa = "map_addr_from_private_to_public m a"
  have fam: "sa_family ?pa \<in> {0, AF_INET, AF_INET6}" using assms(5) by auto
  obtain b' len' where b': "stun_attr_add_addr_str m b len t a = Some (True, b', len')" "wf_msg b' len'"
    "attrs b' len' = attrs b len @
       [(unat t, addr_wire (xor_attr (uint t)) STUN_MAGIC_COOKIE (take 12 (drop 8 b)) ?pa)]"
    "take 12 (drop 8 b') = take 12 (drop 8 b)"
    using add_addr_append [OF assms(1) refl assms(4) fam assms(6,7), of t] by metis
  have "map_of (attrs b len) (unat t) = None" using assms(3) by (simp add: map_of_eq_None_iff)
  then have "map_of (attrs b' len') (unat t) =
      Some (addr_wire (xor_attr (uint t)) STUN_MAGIC_COOKIE (take 12 (drop 8 b')) ?pa)"
    using b'(3,4) by (simp add: map_add_def)
  then have "stun_attr_get_first_addr_str m b' len' t ca None =
      Some (True, map_addr_from_public_to_private m (addr_norm ?pa))"
    using get_first_addr_map_of wf_msgD(1) [OF b'(2)] assms(2,4) fam by blast
  with b'(1) addr_norm_eq [OF assms(5)] show ?thesis by blast
qed

theorem stun_addr_attr_roundtrip_witness:
  "\<exists>b' len' pa. stun_attr_add_addr_str [] (replicate 64 0) 20 0x0012
       (addr_set_any\<lparr>sa_family := AF_INET, sin_port := 0x901f, s_addr := 0x0100000a\<rparr>) = Some (True, b', len') \<and>
     addr_eq (Some pa) (Some (addr_set_any\<lparr>sa_family := AF_INET, sin_port := 0x901f, s_addr := 0x0100000a\<rparr>)) \<and>
     stun_attr_get_first_addr_str [] b' len' 0x0012 addr_set_any None = Some (True, pa)"
  using stun_addr_attr_roundtrip [of "replicate 64 0" 20 "0x0012" "[]"
      "addr_set_any\<lparr>sa_family := AF_INET, sin_port := 0x901f, s_addr := 0x0100000a\<rparr>" addr_set_any]
    wf_msg_zeros [of 64]
  by (simp add: addr_attr_types_def wf_addr_def addr_set_any_def)

text \<open>The type field written for a method and a class is read back as that method and as
  that class only, for all 12-bit methods and the four classes, and the message is recognised as
  a STUN message.\<close>

theorem stun_type_method_roundtrip:
  assumes "m < 0x1000" and "12 \<le> length rnd" and "20 \<le> length buf"
    and "t \<in> {stun_make_request m, stun_make_indication m, stun_make_success_response m, stun_make_error_response m}"
  shows "\<exists>b. stun_init_command_str rnd t buf = Some (b, 20) \<and>
     stun_is_command_message_str b 20 = Some True \<and> stun_get_method_str b 20 = Some m \<and>
     stun_is_request_str b 20 = Some (t = stun_make_request m) \<and>
     stun_is_indication_str b 20 = Some (t = stun_make_indication m) \<and>
     stun_is_success_response_str b 20 = Some (t = stun_make_success_response m) \<and>
     stun_is_response_str b 20 = Some (t = stun_make_success_response m \<or> t = stun_make_error_response m)"
proof -
  let ?b = "patch buf 0 (header t STUN_MAGIC_COOKIE rnd)"
  note r = header_readers [OF assms(3,2), of t STUN_MAGIC_COOKIE]
  have "unat (take_bit 12 m) = unat m"
    using assms(1) by (simp add: unsigned_take_bit_eq take_bit_nat_eq_self word_less_nat_alt)
  then have "take_bit 12 m = m" by (rule word_unat_eq_iff [THEN iffD2])
  then have m: "m AND 0xFFF = m" by (simp add: take_bit_eq_mask mask_eq_exp_minus_1)
  note defs = stun_is_request_str_def stun_is_indication_str_def stun_is_response_str_def
    stun_is_success_response_str_def IS_STUN_REQUEST_def IS_STUN_INDICATION_def
    IS_STUN_SUCCESS_RESP_def IS_STUN_ERR_RESP_def
  have "stun_make_request m \<noteq> stun_make_indication m" "stun_make_request m \<noteq> stun_make_success_response m"
    "stun_make_request m \<noteq> stun_make_error_response m" "stun_make_indication m \<noteq> stun_make_success_response m"
    "stun_make_indication m \<noteq> stun_make_error_response m"
    "stun_make_success_response m \<noteq> stun_make_error_response m"
    using class_of_make [of m] by auto
  with assms(4) r m have "stun_is_command_message_str ?b 20 = Some True \<and> stun_get_method_str ?b 20 = Some m \<and>
     stun_is_request_str ?b 20 = Some (t = stun_make_request m) \<and>
     stun_is_indication_str ?b 20 = Some (t = stun_make_indication m) \<and>
     stun_is_success_response_str ?b 20 = Some (t = stun_make_success_response m) \<and>
     stun_is_response_str ?b 20 = Some (t = stun_make_success_response m \<or> t = stun_make_error_response m)"
    by (elim insertE) (auto simp: defs method_of_make class_of_make)
  then show ?thesis using init_command_header [OF assms(3,2)] by auto
qed

theorem stun_type_method_roundtrip_witness:
  "\<exists>b. stun_init_command_str (replicate 12 7) (stun_make_indication STUN_METHOD_DATA) (replicate 20 0) = Some (b, 20) \<and>
     stun_get_method_str b 20 = Some STUN_METHOD_DATA \<and> stun_is_request_str b 20 = Some False"
proof -
  have "stun_make_indication STUN_METHOD_DATA \<noteq> stun_make_request STUN_METHOD_DATA"
    by (simp add: type_defs)
  then show ?thesis
    using stun_type_method_roundtrip [of STUN_METHOD_DATA "replicate 12 7" "replicate 20 0"
        "stun_make_indication STUN_METHOD_DATA"] by auto
qed

end
