(* ===== verification/Stun_Crc.thy ===== *)
theory Stun_Crc
  imports Stun_Codec
begin

text \<open>
  The FINGERPRINT attribute and its checksum (src/client/ns_turn_msg.c): the table-driven
  ns_crc32, the functions that add and check a fingerprint, and the proof that the table
  computes the CRC-32 of ISO 3309.
\<close>

section \<open>The checksum\<close>

definition crctable :: "u32 list" where
  "crctable = [
    0x00000000, 0x77073096, 0xee0e612c, 0x990951ba, 0x076dc419, 0x706af48f, 0xe963a535, 0x9e6495a3,
    0x0edb8832, 0x79dcb8a4, 0xe0d5e91e, 0x97d2d988, 0x09b64c2b, 0x7eb17cbd, 0xe7b82d07, 0x90bf1d91,
    0x1db71064, 0x6ab020f2, 0xf3b97148, 0x84be41de, 0x1adad47d, 0x6ddde4eb, 0xf4d4b551, 0x83d385c7,
    0x136c9856, 0x646ba8c0, 0xfd62f97a, 0x8a65c9ec, 0x14015c4f, 0x63066cd9, 0xfa0f3d63, 0x8d080df5,
    0x3b6e20c8, 0x4c69105e, 0xd56041e4, 0xa2677172, 0x3c03e4d1, 0x4b04d447, 0xd20d85fd, 0xa50ab56b,
    0x35b5a8fa, 0x42b2986c, 0xdbbbc9d6, 0xacbcf940, 0x32d86ce3, 0x45df5c75, 0xdcd60dcf, 0xabd13d59,
    0x26d930ac, 0x51de003a, 0xc8d75180, 0xbfd06116, 0x21b4f4b5, 0x56b3c423, 0xcfba9599, 0xb8bda50f,
    0x2802b89e, 0x5f058808, 0xc60cd9b2, 0xb10be924, 0x2f6f7c87, 0x58684c11, 0xc1611dab, 0xb6662d3d,
    0x76dc4190, 0x01db7106, 0x98d220bc, 0xefd5102a, 0x71b18589, 0x06b6b51f, 0x9fbfe4a5, 0xe8b8d433,
    0x7807c9a2, 0x0f00f934, 0x9609a88e, 0xe10e9818, 0x7f6a0dbb, 0x086d3d2d, 0x91646c97, 0xe6635c01,
    0x6b6b51f4, 0x1c6c6162, 0x856530d8, 0xf262004e, 0x6c0695ed, 0x1b01a57b, 0x8208f4c1, 0xf50fc457,
    0x65b0d9c6, 0x12b7e950, 0x8bbeb8ea, 0xfcb9887c, 0x62dd1ddf, 0x15da2d49, 0x8cd37cf3, 0xfbd44c65,
    0x4db26158, 0x3ab551ce, 0xa3bc0074, 0xd4bb30e2, 0x4adfa541, 0x3dd895d7, 0xa4d1c46d, 0xd3d6f4fb,
    0x4369e96a, 0x346ed9fc, 0xad678846, 0xda60b8d0, 0x44042d73, 0x33031de5, 0xaa0a4c5f, 0xdd0d7cc9,
    0x5005713c, 0x270241aa, 0xbe0b1010, 0xc90c2086, 0x5768b525, 0x206f85b3, 0xb966d409, 0xce61e49f,
    0x5edef90e, 0x29d9c998, 0xb0d09822, 0xc7d7a8b4, 0x59b33d17, 0x2eb40d81, 0xb7bd5c3b, 0xc0ba6cad,
    0xedb88320, 0x9abfb3b6, 0x03b6e20c, 0x74b1d29a, 0xead54739, 0x9dd277af, 0x04db2615, 0x73dc1683,
    0xe3630b12, 0x94643b84, 0x0d6d6a3e, 0x7a6a5aa8, 0xe40ecf0b, 0x9309ff9d, 0x0a00ae27, 0x7d079eb1,
    0xf00f9344, 0x8708a3d2, 0x1e01f268, 0x6906c2fe, 0xf762575d, 0x806567cb, 0x196c3671, 0x6e6b06e7,
    0xfed41b76, 0x89d32be0, 0x10da7a5a, 0x67dd4acc, 0xf9b9df6f, 0x8ebeeff9, 0x17b7be43, 0x60b08ed5,
    0xd6d6a3e8, 0xa1d1937e, 0x38d8c2c4, 0x4fdff252, 0xd1bb67f1, 0xa6bc5767, 0x3fb506dd, 0x48b2364b,
    0xd80d2bda, 0xaf0a1b4c, 0x36034af6, 0x41047a60, 0xdf60efc3, 0xa867df55, 0x316e8eef, 0x4669be79,
    0xcb61b38c, 0xbc66831a, 0x256fd2a0, 0x5268e236, 0xcc0c7795, 0xbb0b4703, 0x220216b9, 0x5505262f,
    0xc5ba3bbe, 0xb2bd0b28, 0x2bb45a92, 0x5cb36a04, 0xc2d7ffa7, 0xb5d0cf31, 0x2cd99e8b, 0x5bdeae1d,
    0x9b64c2b0, 0xec63f226, 0x756aa39c, 0x026d930a, 0x9c0906a9, 0xeb0e363f, 0x72076785, 0x05005713,
    0x95bf4a82, 0xe2b87a14, 0x7bb12bae, 0x0cb61b38, 0x92d28e9b, 0xe5d5be0d, 0x7cdcefb7, 0x0bdbdf21,
    0x86d3d2d4, 0xf1d4e242, 0x68ddb3f8, 0x1fda836e, 0x81be16cd, 0xf6b9265b, 0x6fb077e1, 0x18b74777,
    0x88085ae6, 0xff0f6a70, 0x66063bca, 0x11010b5c, 0x8f659eff, 0xf862ae69, 0x616bffd3, 0x166ccf45,
    0xa00ae278, 0xd70dd2ee, 0x4e048354, 0x3903b3c2, 0xa7672661, 0xd06016f7, 0x4969474d, 0x3e6e77db,
    0xaed16a4a, 0xd9d65adc, 0x40df0b66, 0x37d83bf0, 0xa9bcae53, 0xdebb9ec5, 0x47b2cf7f, 0x30b5ffe9,
    0xbdbdf21c, 0xcabac28a, 0x53b39330, 0x24b4a3a6, 0xbad03605, 0xcdd70693, 0x54de5729, 0x23d967bf,
    0xb3667a2e, 0xc4614ab8, 0x5d681b02, 0x2a6f2b94, 0xb40bbe37, 0xc30c8ea1, 0x5a05df1b, 0x2d02ef8d]"

definition UPDATE_CRC :: "u32 \<Rightarrow> u8 \<Rightarrow> u32" where
  "UPDATE_CRC crc c = crctable ! unat ((ucast crc :: u8) XOR c) XOR drop_bit 8 crc"

definition ns_crc32 :: "buffer \<Rightarrow> u32 \<Rightarrow> u32 option" where
  "ns_crc32 buf len = do {
     bytes \<leftarrow> load buf 0 (unat len);
     Some (NOT (foldl UPDATE_CRC 0xFFFFFFFF bytes))
   }"

text \<open>The reference: the reflected polynomial 0xEDB88320, one bit at a time.\<close>

definition crc_bit :: "u32 \<Rightarrow> u32" where
  "crc_bit c = (if bit c 0 then drop_bit 1 c XOR 0xEDB88320 else drop_bit 1 c)"

definition crc_byte :: "u32 \<Rightarrow> u8 \<Rightarrow> u32" where
  "crc_byte crc c = (crc_bit ^^ 8) (crc XOR ucast c)"

definition crc32_ref :: "u8 list \<Rightarrow> u32" where
  "crc32_ref bytes = NOT (foldl crc_byte 0xFFFFFFFF bytes)"

lemma crc_bit_xor: "crc_bit (x XOR y) = crc_bit x XOR crc_bit y"
  by (auto simp: crc_bit_def bit_xor_iff ac_simps)

lemma crc_bits_xor: "(crc_bit ^^ n) (x XOR y) = (crc_bit ^^ n) x XOR (crc_bit ^^ n) y"
  by (induction n) (simp_all add: crc_bit_xor)

lemma crc_bits_high:
  "(\<And>i. i < n \<Longrightarrow> \<not> bit x i) \<Longrightarrow> (crc_bit ^^ n) x = drop_bit n x"
proof (induction n)
  case (Suc n)
  then have "(crc_bit ^^ n) x = drop_bit n x" by simp
  moreover have "\<not> bit (drop_bit n x) 0" using Suc.prems [of n] by (simp add: bit_drop_bit_eq)
  ultimately show ?case by (simp add: crc_bit_def [of "drop_bit n x"])
qed simp

text \<open>The reference step on integers, where the simplifier computes with numerals.\<close>

definition crc_int :: "int \<Rightarrow> int" where
  "crc_int k = (if k mod 2 = 0 then k div 2 else (k div 2) XOR 0xEDB88320)"

lemma crc_int_numerals:
  "crc_int 0 = 0" "crc_int 1 = 0xEDB88320" "crc_int (numeral (num.Bit0 n)) = numeral n"
  "crc_int (numeral (num.Bit1 n)) = numeral n XOR 0xEDB88320"
  by (simp_all add: crc_int_def)

lemma xor_less_exp: "0 \<le> (a :: int) \<Longrightarrow> 0 \<le> b \<Longrightarrow> a < 2 ^ n \<Longrightarrow> b < 2 ^ n \<Longrightarrow> a XOR b < 2 ^ n"
  by (metis take_bit_int_eq_self take_bit_int_less_exp take_bit_xor)

lemma crc_int_range: "0 \<le> k \<Longrightarrow> k < 4294967296 \<Longrightarrow> 0 \<le> crc_int k \<and> crc_int k < 4294967296"
  using xor_less_exp [of "k div 2" "0xEDB88320" 32] by (auto simp: crc_int_def)

lemma crc_bit_of_int:
  assumes "0 \<le> k" "k < 4294967296"
  shows "crc_bit (of_int k) = of_int (crc_int k)"
proof -
  have d: "drop_bit 1 (of_int k :: u32) = of_int (k div 2)"
  proof -
    have "uint (of_int k :: u32) = k" using assms by (simp add: uint_word_of_int)
    then show ?thesis by (simp add: drop_bit_eq_div word_div_def)
  qed
  have "even (of_int k :: u32) = even k"
    using bit_word_of_int_iff [of k 0, where 'a = 32] by (simp add: bit_0)
  with d show ?thesis by (simp add: crc_bit_def crc_int_def of_int_xor_eq even_iff_mod_2_eq_zero [symmetric] bit_0)
qed

lemma crc_bits_of_int:
  "0 \<le> k \<Longrightarrow> k < 4294967296 \<Longrightarrow> (crc_bit ^^ n) (of_int k) = of_int ((crc_int ^^ n) k) \<and>
     0 \<le> (crc_int ^^ n) k \<and> (crc_int ^^ n) k < 4294967296"
  by (induction n) (auto simp: crc_bit_of_int crc_int_range)

lemma crctable_int:
  "crctable = map (\<lambda>k. of_int (crc_int (crc_int (crc_int (crc_int (crc_int (crc_int (crc_int (crc_int k)))))))))
     [0, 1, 2, 3, 4, 5, 6, 7, 8, 9, 10, 11, 12, 13, 14, 15, 16, 17, 18, 19, 20, 21, 22, 23, 24, 25, 26, 27, 28, 29, 30, 31,
      32, 33, 34, 35, 36, 37, 38, 39, 40, 41, 42, 43, 44, 45, 46, 47, 48, 49, 50, 51, 52, 53, 54, 55, 56, 57, 58, 59, 60, 61, 62, 63,
      64, 65, 66, 67, 68, 69, 70, 71, 72, 73, 74, 75, 76, 77, 78, 79, 80, 81, 82, 83, 84, 85, 86, 87, 88, 89, 90, 91, 92, 93, 94, 95,
      96, 97, 98, 99, 100, 101, 102, 103, 104, 105, 106, 107, 108, 109, 110, 111, 112, 113, 114, 115, 116, 117, 118, 119, 120, 121, 122, 123, 124, 125, 126, 127,
      128, 129, 130, 131, 132, 133, 134, 135, 136, 137, 138, 139, 140, 141, 142, 143, 144, 145, 146, 147, 148, 149, 150, 151, 152, 153, 154, 155, 156, 157, 158, 159,
      160, 161, 162, 163, 164, 165, 166, 167, 168, 169, 170, 171, 172, 173, 174, 175, 176, 177, 178, 179, 180, 181, 182, 183, 184, 185, 186, 187, 188, 189, 190, 191,
      192, 193, 194, 195, 196, 197, 198, 199, 200, 201, 202, 203, 204, 205, 206, 207, 208, 209, 210, 211, 212, 213, 214, 215, 216, 217, 218, 219, 220, 221, 222, 223,
      224, 225, 226, 227, 228, 229, 230, 231, 232, 233, 234, 235, 236, 237, 238, 239, 240, 241, 242, 243, 244, 245, 246, 247, 248, 249, 250, 251, 252, 253, 254, 255]"
  unfolding crctable_def by (simp add: crc_int_numerals)

lemma upto_255: "map int [0..<256] = [0, 1, 2, 3, 4, 5, 6, 7, 8, 9, 10, 11, 12, 13, 14, 15, 16, 17, 18, 19, 20, 21, 22, 23, 24, 25, 26, 27, 28, 29, 30, 31,
      32, 33, 34, 35, 36, 37, 38, 39, 40, 41, 42, 43, 44, 45, 46, 47, 48, 49, 50, 51, 52, 53, 54, 55, 56, 57, 58, 59, 60, 61, 62, 63,
      64, 65, 66, 67, 68, 69, 70, 71, 72, 73, 74, 75, 76, 77, 78, 79, 80, 81, 82, 83, 84, 85, 86, 87, 88, 89, 90, 91, 92, 93, 94, 95,
      96, 97, 98, 99, 100, 101, 102, 103, 104, 105, 106, 107, 108, 109, 110, 111, 112, 113, 114, 115, 116, 117, 118, 119, 120, 121, 122, 123, 124, 125, 126, 127,
      128, 129, 130, 131, 132, 133, 134, 135, 136, 137, 138, 139, 140, 141, 142, 143, 144, 145, 146, 147, 148, 149, 150, 151, 152, 153, 154, 155, 156, 157, 158, 159,
      160, 161, 162, 163, 164, 165, 166, 167, 168, 169, 170, 171, 172, 173, 174, 175, 176, 177, 178, 179, 180, 181, 182, 183, 184, 185, 186, 187, 188, 189, 190, 191,
      192, 193, 194, 195, 196, 197, 198, 199, 200, 201, 202, 203, 204, 205, 206, 207, 208, 209, 210, 211, 212, 213, 214, 215, 216, 217, 218, 219, 220, 221, 222, 223,
      224, 225, 226, 227, 228, 229, 230, 231, 232, 233, 234, 235, 236, 237, 238, 239, 240, 241, 242, 243, 244, 245, 246, 247, 248, 249, 250, 251, 252, 253, 254, 255]"
  by (simp add: upt_conv_Cons)

lemma crc_int_8:
  "(crc_int ^^ 8) k = crc_int (crc_int (crc_int (crc_int (crc_int (crc_int (crc_int (crc_int k)))))))"
  by (simp add: numeral_eq_Suc)

lemma crctable_nth:
  assumes "k < 256"
  shows "crctable ! k = (crc_bit ^^ 8) (of_nat k)"
proof -
  have "crctable = map (\<lambda>k. of_int ((crc_int ^^ 8) (int k))) [0..<256]"
    unfolding crctable_int upto_255 [symmetric] by (simp only: crc_int_8 map_map comp_def)
  then have "crctable ! k = map (\<lambda>k. of_int ((crc_int ^^ 8) (int k))) [0..<256] ! k" by (rule arg_cong)
  then have "crctable ! k = of_int ((crc_int ^^ 8) (int k))"
    using nth_map_upt [of k 256 0 "\<lambda>k. of_int ((crc_int ^^ 8) (int k)) :: u32"] assms
    by (simp only: diff_zero add_0)
  also have "\<dots> = (crc_bit ^^ 8) (of_nat k)" using crc_bits_of_int [of "int k" 8] assms by simp
  finally show ?thesis .
qed

lemma UPDATE_CRC_byte: "UPDATE_CRC crc c = crc_byte crc c"
proof -
  let ?lo = "ucast ((ucast crc :: u8) XOR c) :: u32" and ?hi = "push_bit 8 (drop_bit 8 crc)"
  have split: "crc XOR ucast c = ?lo XOR ?hi"
    by (rule bit_word_eqI) (auto simp: bit_simps)
  have k: "unat ((ucast crc :: u8) XOR c) < 256" by (rule unat_u8)
  have "of_nat (unat ((ucast crc :: u8) XOR c)) = ?lo"
    by simp
  then have lo: "(crc_bit ^^ 8) ?lo = crctable ! unat ((ucast crc :: u8) XOR c)"
    using crctable_nth [OF k] by simp
  have "(crc_bit ^^ 8) ?hi = drop_bit 8 ?hi"
    by (rule crc_bits_high) (simp add: bit_push_bit_iff)
  also have "\<dots> = drop_bit 8 crc"
    by (rule bit_word_eqI) (auto simp: bit_simps dest: bit_imp_le_length)
  finally show ?thesis
    unfolding UPDATE_CRC_def crc_byte_def split crc_bits_xor lo by simp
qed

lemma ns_crc32_in [mem_simps]:
  "unat len \<le> length b \<Longrightarrow> ns_crc32 b len = Some (crc32_ref (take (unat len) b))"
proof -
  have "UPDATE_CRC = crc_byte" by (intro ext) (rule UPDATE_CRC_byte)
  then show "unat len \<le> length b \<Longrightarrow> ns_crc32 b len = Some (crc32_ref (take (unat len) b))"
    by (simp add: ns_crc32_def crc32_ref_def load_def)
qed

section \<open>The FINGERPRINT attribute\<close>

definition stun_attr_add_fingerprint_str :: "buffer \<Rightarrow> nat \<Rightarrow> (bool \<times> buffer \<times> nat) option" where
  "stun_attr_add_fingerprint_str buf len = do {
     (ok, b1, len1) \<leftarrow> stun_attr_add_str buf len STUN_ATTRIBUTE_FINGERPRINT (Some (bytes32 0)) 4;
     if \<not> ok then Some (False, b1, len1) else do {
       crc32 \<leftarrow> ns_crc32 b1 (word_of_int (int len1 - 8));
       b2 \<leftarrow> wr32 b1 (len1 - 4) (nswap32 (crc32 XOR FINGERPRINT_XOR));
       Some (True, b2, len1)
     }
   }"

text \<open>The output parameter fingerprint_present is the second component: None when it is not
  written.\<close>

definition stun_is_command_message_full_check_str ::
    "buffer \<Rightarrow> nat \<Rightarrow> bool \<Rightarrow> (bool \<times> bool option) option" where
  "stun_is_command_message_full_check_str buf blen must_check_fingerprint = do {
     c \<leftarrow> stun_is_command_message_str buf blen;
     if \<not> c then Some (False, None) else do {
       sar \<leftarrow> stun_attr_get_first_by_type_str buf blen STUN_ATTRIBUTE_FINGERPRINT;
       case sar of
         None \<Rightarrow> do {
           m \<leftarrow> stun_get_method_str buf blen;
           if m = STUN_METHOD_BINDING then Some (True, Some False)
           else Some (\<not> must_check_fingerprint, Some False)
         }
       | Some p \<Rightarrow> do {
           l \<leftarrow> stun_attr_get_len buf sar;
           if l \<noteq> 4 then Some (False, None) else do {
             value \<leftarrow> stun_attr_get_value buf sar;
             case value of
               None \<Rightarrow> Some (\<not> must_check_fingerprint, None)
             | Some v \<Rightarrow> do {
                 let crc32len = word_of_int (int v - 4);
                 fingerprint \<leftarrow> rd32 buf v;
                 crc \<leftarrow> ns_crc32 buf crc32len;
                 let ret = (fingerprint = nswap32 (crc XOR FINGERPRINT_XOR));
                 Some (ret, if ret then Some ret else None)
               }
           }
         }
     }
   }"

section \<open>Adding and checking\<close>

lemma unat_u32_of_int: "n < 4294967296 \<Longrightarrow> unat (word_of_int (int n) :: u32) = n"
  by (simp add: unat_of_nat)

lemma add_fingerprint_tlv:
  assumes wf: "wf_msg b len" and fit: "len + 8 \<le> length b" "len + 8 < 65507"
  shows "stun_attr_add_fingerprint_str b len =
     Some (True, add_tlv b len STUN_ATTRIBUTE_FINGERPRINT
       (bytes32 (nswap32 (crc32_ref (take len (add_tlv b len STUN_ATTRIBUTE_FINGERPRINT (bytes32 0)))
         XOR FINGERPRINT_XOR))), len + 8)"
proof -
  note w = wf_msgD [OF wf]
  let ?b1 = "add_tlv b len STUN_ATTRIBUTE_FINGERPRINT (bytes32 0)"
  have p4: "pad4 4 = 4" by (simp add: pad4_def)
  have add: "stun_attr_add_str b len STUN_ATTRIBUTE_FINGERPRINT (Some (bytes32 0)) 4 =
      Some (True, ?b1, len + 8)"
    using stun_attr_add_str_tlv [OF wf, of 4 "bytes32 0" STUN_ATTRIBUTE_FINGERPRINT] fit p4 by simp
  have l1: "length ?b1 = length b"
    using add_tlv_nth(1) [of len "bytes32 0" b] w(4) fit p4 by simp
  have c: "word_of_int (int (len + 8) - 8) = (word_of_int (int len) :: u32)" by simp
  have "ns_crc32 ?b1 (word_of_int (int (len + 8) - 8)) = Some (crc32_ref (take len ?b1))"
    using ns_crc32_in [of "word_of_int (int len)" ?b1] unat_u32_of_int [of len] fit l1
    by (simp only: c)
  moreover have "wr32 ?b1 (4 + len) x = Some (add_tlv b len STUN_ATTRIBUTE_FINGERPRINT (bytes32 x))" for x
    using patch_add_tlv [of "bytes32 x" "bytes32 0" len b STUN_ATTRIBUTE_FINGERPRINT] w(4) fit l1 p4
    by (simp add: wr32_def store_def add.commute [of 4])
  ultimately show ?thesis
    using add by (simp add: stun_attr_add_fingerprint_str_def)
qed

text \<open>C30: the table-driven checksum is CRC-32: on any buffer that holds len bytes ns_crc32
  computes what the bitwise shift register with the reflected polynomial 0xEDB88320, initial
  value and final complement computes on these bytes.\<close>

theorem ns_crc32_refines_bitwise_crc:
  assumes "unat len \<le> length b"
  shows "ns_crc32 b len = Some (NOT (foldl crc_byte 0xFFFFFFFF (take (unat len) b)))"
  using ns_crc32_in [OF assms] by (simp add: crc32_ref_def)

theorem ns_crc32_refines_bitwise_crc_witness:
  "ns_crc32 [0x31, 0x32, 0x33] 3 = Some (NOT (foldl crc_byte 0xFFFFFFFF [0x31, 0x32, 0x33]))"
  using ns_crc32_refines_bitwise_crc [of 3 "[0x31, 0x32, 0x33]"] by simp

text \<open>C31: a fingerprint that stun_attr_add_fingerprint_str adds to a well-formed STUN message
  without one makes the message pass the full check, which reports the fingerprint as present,
  whether or not the check requires a fingerprint.\<close>

theorem fingerprint_add_then_check:
  assumes wf: "wf_msg b len" and cmd: "stun_is_command_message_str b len = Some True"
    and new: "unat STUN_ATTRIBUTE_FINGERPRINT \<notin> fst ` set (attrs b len)"
    and fit: "len + 8 \<le> length b" "len + 8 < 65507"
  shows "\<exists>b'. stun_attr_add_fingerprint_str b len = Some (True, b', len + 8) \<and>
     stun_is_command_message_full_check_str b' (len + 8) must = Some (True, Some True)"
proof -
  note w = wf_msgD [OF wf]
  let ?t = "STUN_ATTRIBUTE_FINGERPRINT"
  let ?crc = "crc32_ref (take len (add_tlv b len ?t (bytes32 0)))"
  define fp where "fp = nswap32 (?crc XOR FINGERPRINT_XOR)"
  define b' where "b' = add_tlv b len ?t (bytes32 fp)"
  have p4: "pad4 4 = 4" by (simp add: pad4_def)
  have add: "stun_attr_add_fingerprint_str b len = Some (True, b', len + 8)"
    using add_fingerprint_tlv [OF wf fit] by (simp add: b'_def fp_def)
  have "length (bytes32 fp) < 65536" "len + 4 + pad4 (length (bytes32 fp)) \<le> length b"
    "len + 4 + pad4 (length (bytes32 fp)) < 65556" using fit p4 by simp_all
  note app = add_tlv_append [OF wf this, of ?t, folded b'_def]
  have l8: "len + 4 + pad4 (length (bytes32 fp)) = len + 8" using p4 by simp
  note app = app [unfolded l8]
  have len': "len + 8 \<le> length b'" using wf_msgD(1) [OF app(1)] .
  have nth: "b' ! i = b ! i" if "i < len" "i \<noteq> 2" "i \<noteq> 3" for i
    using add_tlv_nth(2) [of len "bytes32 fp" b i ?t] that w(4) fit p4 by (simp add: b'_def)
  have "be16 (b' ! 2) (b' ! 3) = len + 8 - 20"
    using wf_msgD(2) [OF app(1)] w(4) by (auto simp: msg_end_def Let_def split: if_splits)
  moreover have "(len + 8 - 20) mod 4 = 0"
    using wf_msgD(3) [OF app(1)] w(4) by presburger
  ultimately have cmd': "stun_is_command_message_str b' (len + 8) = Some True"
    using cmd w(1,4) nth unfolding is_command_message_in [OF len'] is_command_message_in [OF w(1)]
    by simp
  note last = last_attr [OF len' app(2,3)]
  have sar: "stun_attr_get_first_by_type_str b' (len + 8) ?t = Some (Some len)"
    using get_first_by_type_in [OF len', of ?t] last(4) [OF new] app(2) by simp
  have fpv: "rd32 b' (len + 4) = Some fp"
    using patch_add_tlv [of "bytes32 fp" "bytes32 fp" len b ?t] w(4) fit p4 len'
      rd32_patch_same [of "len + 4" b' fp] by (simp add: b'_def)
  have "take len b' = take len (add_tlv b len ?t (bytes32 0))"
    unfolding b'_def using w(4) fit p4 by (intro take_add_tlv) simp_all
  then have crc: "ns_crc32 b' (word_of_int (int len)) = Some ?crc"
    using ns_crc32_in [of "word_of_int (int len)" b'] unat_u32_of_int [of len] fit len' by simp
  have "stun_attr_get_len b' (Some len) = Some 4" "stun_attr_get_value b' (Some len) = Some (Some (len + 4))"
    using get_len_in [of len b'] get_value_in [of len b'] last(3) len' by simp_all
  then have "stun_is_command_message_full_check_str b' (len + 8) must = Some (True, Some True)"
    using cmd' sar fpv crc by (simp add: stun_is_command_message_full_check_str_def fp_def)
  with add show ?thesis by blast
qed

theorem fingerprint_add_then_check_witness:
  "\<exists>b'. stun_attr_add_fingerprint_str
       (patch (replicate 64 0) 0 (header 1 STUN_MAGIC_COOKIE (replicate 12 7))) 20 = Some (True, b', 28) \<and>
     stun_is_command_message_full_check_str b' 28 True = Some (True, Some True)"
  using fingerprint_add_then_check
      [of "patch (replicate 64 0) 0 (header 1 STUN_MAGIC_COOKIE (replicate 12 7))" 20 True]
    header_wf [of "replicate 64 0" "replicate 12 7" 1 STUN_MAGIC_COOKIE]
    header_readers(4) [of "replicate 64 0" "replicate 12 7" 1 STUN_MAGIC_COOKIE]
  by simp

end
