(* ===== verification/C_String.thy ===== *)
theory C_String
  imports Turn_Prelude
begin

text \<open>
  The functions of the C library on strings that the sources use: strlen, strncpy, tolower,
  isspace, strtoul and the printing of a byte as two hexadecimal digits, in the C locale.
  A C string is given either by its characters without the terminating zero, or by the array
  that holds it.
\<close>

text \<open>The characters of the string that an array holds.\<close>

definition cstr :: "u8 list \<Rightarrow> u8 list" where
  "cstr a = takeWhile (\<lambda>c. c \<noteq> 0) a"

definition strlen :: "u8 list \<Rightarrow> nat" where
  "strlen a = length (cstr a)"

text \<open>A string literal of the sources.\<close>

definition lit :: "string \<Rightarrow> u8 list" where
  "lit s = map of_char s"

definition tolower :: "u8 \<Rightarrow> u8" where
  "tolower c = (if 0x41 \<le> c \<and> c \<le> 0x5A then c + 0x20 else c)"

definition isspace :: "u8 \<Rightarrow> bool" where
  "isspace c \<longleftrightarrow> c = 0x20 \<or> (0x09 \<le> c \<and> c \<le> 0x0D)"

definition digit_val :: "u8 \<Rightarrow> nat option" where
  "digit_val c =
     (if 0x30 \<le> c \<and> c \<le> 0x39 then Some (unat (c - 0x30))
      else if 0x61 \<le> c \<and> c \<le> 0x7A then Some (unat (c - 0x61) + 10)
      else if 0x41 \<le> c \<and> c \<le> 0x5A then Some (unat (c - 0x41) + 10)
      else None)"

definition isdigit_base :: "nat \<Rightarrow> u8 \<Rightarrow> bool" where
  "isdigit_base base c \<longleftrightarrow> (case digit_val c of None \<Rightarrow> False | Some d \<Rightarrow> d < base)"

text \<open>strtoul with a 64-bit unsigned long: leading white space, an optional sign, for base 16 an
  optional prefix 0x that is followed by a digit, then the digits; too large values give the
  largest number and a minus sign negates modulo 2 ^ 64.  The argument is the memory from the
  pointer on; conversion stops at the first character that is not a digit, the terminating zero
  at the latest.\<close>

definition strtoul_digits :: "nat \<Rightarrow> u8 list \<Rightarrow> u64" where
  "strtoul_digits base s =
     (let v = foldl (\<lambda>v c. base * v + (case digit_val c of Some d \<Rightarrow> d | None \<Rightarrow> 0)) 0
                (takeWhile (isdigit_base base) s)
      in if v > 18446744073709551615 then - 1 else of_nat v)"

definition strtoul_unsigned :: "nat \<Rightarrow> u8 list \<Rightarrow> u64" where
  "strtoul_unsigned base s =
     (case s of
        z # x # d # _ \<Rightarrow>
          if base = 16 \<and> z = 0x30 \<and> (x = 0x78 \<or> x = 0x58) \<and> isdigit_base 16 d
          then strtoul_digits base (drop 2 s) else strtoul_digits base s
      | _ \<Rightarrow> strtoul_digits base s)"

definition strtoul :: "nat \<Rightarrow> u8 list \<Rightarrow> u64" where
  "strtoul base s0 =
     (let s = dropWhile isspace s0 in
      case s of
        [] \<Rightarrow> strtoul_unsigned base s
      | c # t \<Rightarrow>
          if c = 0x2D then - strtoul_unsigned base t
          else if c = 0x2B then strtoul_unsigned base t
          else strtoul_unsigned base s)"

text \<open>The conversion %02x of a byte.\<close>

definition hexdigit :: "nat \<Rightarrow> u8" where
  "hexdigit d = (if d < 10 then of_nat (0x30 + d) else of_nat (0x61 + (d - 10)))"

definition hex02 :: "u8 \<Rightarrow> u8 list" where
  "hex02 c = [hexdigit (unat c div 16), hexdigit (unat c mod 16)]"

section \<open>Lemmas\<close>

lemma cstr_nonzero: "0 \<notin> set s \<Longrightarrow> cstr (s @ 0 # r) = s"
  by (induction s) (auto simp: cstr_def)

lemma cstr_id: "0 \<notin> set s \<Longrightarrow> cstr s = s"
  by (auto simp: cstr_def takeWhile_eq_all_conv)

lemma zero_notin_cstr: "0 \<notin> set (cstr a)"
  by (auto simp: cstr_def dest: set_takeWhileD)

lemma upto16: "d < 16 \<Longrightarrow> d \<in> set [0, 1, 2, 3, 4, 5, 6, 7 :: nat, 8, 9, 10, 11, 12, 13, 14, 15]"
  by simp arith

lemma hexdigit_props:
  assumes "d < 16"
  shows "digit_val (hexdigit d) = Some d" "\<not> isspace (hexdigit d)" "hexdigit d \<noteq> 0"
    "hexdigit d \<noteq> 0x2D" "hexdigit d \<noteq> 0x2B"
  using upto16 [OF assms, simplified]
  by (elim disjE; simp add: hexdigit_def digit_val_def isspace_def)+

lemma strtoul_hex02: "strtoul 16 (hex02 c) = ucast c"
proof -
  have d: "unat c div 16 < 16" "unat c mod 16 < 16" using unat_u8 [of c] by auto
  have v: "16 * (unat c div 16) + unat c mod 16 = unat c" by simp
  have "takeWhile (isdigit_base 16) (hex02 c) = hex02 c"
    using d by (simp add: hex02_def isdigit_base_def hexdigit_props)
  then have "strtoul_digits 16 (hex02 c) = of_nat (unat c)"
    using d v by (simp add: strtoul_digits_def hex02_def hexdigit_props Let_def)
      (use unat_u8 [of c] in simp)
  then show ?thesis
    using d by (simp add: strtoul_def strtoul_unsigned_def hex02_def hexdigit_props)
qed

end
