(* ===== verification/Stun_Integrity.thy ===== *)
theory Stun_Integrity
  imports Stun_Codec C_String
begin

text \<open>
  Credentials and MESSAGE-INTEGRITY (src/client/ns_turn_msg.c): SASLprep, the stored form of
  passwords, the long-term key, and the functions that add and check the message
  authentication code of a message.

  HMAC and the digests of OpenSSL are parameters: hmac md key data is the code, or None when
  the library call fails; digest md data is the digest.  Allocations of temporary memory are
  taken to succeed.
\<close>

section \<open>Types\<close>

datatype SHATYPE = SHATYPE_ERROR | SHATYPE_SHA1 | SHATYPE_SHA256 | SHATYPE_SHA384 | SHATYPE_SHA512

datatype turn_credential_type =
  TURN_CREDENTIALS_NONE | TURN_CREDENTIALS_LONG_TERM | TURN_CREDENTIALS_SHORT_TERM | TURN_CREDENTIALS_UNDEFINED

datatype evp_md = EVP_md5 | EVP_sha1 | EVP_sha256 | EVP_sha384 | EVP_sha512

type_synonym hmac_fn = "evp_md \<Rightarrow> u8 list \<Rightarrow> u8 list \<Rightarrow> u8 list option"
type_synonym digest_fn = "evp_md \<Rightarrow> u8 list \<Rightarrow> u8 list"

section \<open>SASLprep\<close>

text \<open>The loop over the string in place: i is the offset of strin and j that of strout.  The
  function returns the array, which is partly rewritten when the string is refused.\<close>

function SASLprep_loop :: "u8 list \<Rightarrow> nat \<Rightarrow> nat \<Rightarrow> (bool \<times> u8 list) option" where
  "SASLprep_loop s i j = do {
     c \<leftarrow> rd8 s i;
     if c = 0 then do { s' \<leftarrow> wr8 s j 0; Some (True, s') }
     else if c = 0xAD then SASLprep_loop s (i + 1) j
     else if c = 0xA0 \<or> c = 0x20 then do { s' \<leftarrow> wr8 s j 0x20; SASLprep_loop s' (i + 1) (j + 1) }
     else if c = 0x7F then Some (False, s)
     else if c < 0x1F then Some (False, s)
     else if c \<ge> 0x80 \<and> c \<le> 0x9F then Some (False, s)
     else do { s' \<leftarrow> wr8 s j c; SASLprep_loop s' (i + 1) (j + 1) }
   }"
  by pat_completeness auto
termination
  by (relation "measure (\<lambda>(s, i, j). length s - i)")
    (auto simp: rd8_def wr8_def store_def split: if_splits)

declare SASLprep_loop.simps [simp del]

definition SASLprep :: "u8 list \<Rightarrow> (bool \<times> u8 list) option" where
  "SASLprep s = SASLprep_loop s 0 0"

section \<open>Keys and stored passwords\<close>

definition get_hmackey_size :: "SHATYPE \<Rightarrow> nat" where
  "get_hmackey_size shatype =
     (if shatype = SHATYPE_SHA256 then 32 else if shatype = SHATYPE_SHA384 then 48
      else if shatype = SHATYPE_SHA512 then 64 else 16)"

text \<open>key0 are the 64 bytes of the key array before the call.\<close>

definition stun_produce_integrity_key_str ::
    "digest_fn \<Rightarrow> u8 list \<Rightarrow> u8 list \<Rightarrow> u8 list \<Rightarrow> u8 list \<Rightarrow> SHATYPE \<Rightarrow> (bool \<times> u8 list) option" where
  "stun_produce_integrity_key_str digest uname realm upwd key0 shatype =
     (let str = cstr uname @ lit '':'' @ cstr realm @ lit '':'' @ cstr upwd;
          md = (if shatype = SHATYPE_SHA256 then EVP_sha256
                else if shatype = SHATYPE_SHA384 then EVP_sha384
                else if shatype = SHATYPE_SHA512 then EVP_sha512 else EVP_md5)
      in do { key \<leftarrow> store key0 0 (digest md str); Some (True, key) })"

definition readable_string :: "u8 list \<Rightarrow> u8 list" where
  "readable_string orig = concat (map hex02 orig)"

text \<open>The result string: $5$, the salt in hexadecimal, $, and the digest of salt and password in
  hexadecimal.  rnd are the bytes of the random source, used when no salt is given.\<close>

definition generate_enc_password ::
    "digest_fn \<Rightarrow> u8 list \<Rightarrow> u8 list \<Rightarrow> u8 list option \<Rightarrow> u8 list option" where
  "generate_enc_password digest rnd pwd orig_salt = do {
     salt \<leftarrow> (case orig_salt of None \<Rightarrow> load rnd 0 8 | Some os \<Rightarrow> load os 0 8);
     Some (lit ''$5$'' @ readable_string salt @ lit ''$'' @
           readable_string (digest EVP_sha256 (salt @ cstr pwd)))
   }"

definition generate_new_enc_password :: "digest_fn \<Rightarrow> u8 list \<Rightarrow> u8 list \<Rightarrow> u8 list option" where
  "generate_new_enc_password digest rnd pwd = generate_enc_password digest rnd pwd None"

definition encrypted_password :: "u8 list \<Rightarrow> u8 list option" where
  "encrypted_password pin0 =
     (let pin = cstr pin0 in
      if length pin \<ge> 3 + 8 + 8 + 1 + 32 then
        (if pin ! 0 = of_char CHR ''$'' \<and> pin ! 1 = of_char CHR ''5'' \<and> pin ! 2 = of_char CHR ''$'' \<and>
            pin ! (3 + 8 + 8) = of_char CHR ''$''
         then Some (map (\<lambda>i. ucast (strtoul 16 [pin ! (3 + i + i), pin ! (3 + i + i + 1)])) [0..<8])
         else None)
      else None)"

definition const_time_str_equal :: "u8 list \<Rightarrow> u8 list \<Rightarrow> bool" where
  "const_time_str_equal a b =
     (let la = strlen a in if la \<noteq> strlen b then False else take la a = take la b)"

definition check_password_equal :: "digest_fn \<Rightarrow> u8 list \<Rightarrow> u8 list \<Rightarrow> bool option" where
  "check_password_equal digest pin pwd =
     (case encrypted_password pwd of
        None \<Rightarrow> Some (const_time_str_equal pin pwd)
      | Some salt \<Rightarrow> do {
          enc_pin \<leftarrow> generate_enc_password digest [] pin (Some salt);
          Some (const_time_str_equal enc_pin pwd)
        })"

section \<open>Message integrity\<close>

definition hmac_md :: "SHATYPE \<Rightarrow> evp_md" where
  "hmac_md shatype =
     (if shatype = SHATYPE_SHA256 then EVP_sha256 else if shatype = SHATYPE_SHA384 then EVP_sha384
      else if shatype = SHATYPE_SHA512 then EVP_sha512 else EVP_sha1)"

text \<open>The code of the first len bytes of the buffer under the first keylen bytes of the key.\<close>

definition stun_calculate_hmac ::
    "hmac_fn \<Rightarrow> buffer \<Rightarrow> nat \<Rightarrow> u8 list \<Rightarrow> nat \<Rightarrow> SHATYPE \<Rightarrow> u8 list option option" where
  "stun_calculate_hmac hmac buf len key keylen shatype = do {
     d \<leftarrow> load buf 0 len;
     k \<leftarrow> load key 0 keylen;
     Some (hmac (hmac_md shatype) k d)
   }"

definition shasize_of :: "SHATYPE \<Rightarrow> nat" where
  "shasize_of shatype =
     (case shatype of SHATYPE_SHA256 \<Rightarrow> 32 | SHATYPE_SHA384 \<Rightarrow> 48 | SHATYPE_SHA512 \<Rightarrow> 64 | _ \<Rightarrow> 20)"

definition calculate_hmac_by_ct ::
    "hmac_fn \<Rightarrow> turn_credential_type \<Rightarrow> buffer \<Rightarrow> nat \<Rightarrow> u8 list \<Rightarrow> u8 list \<Rightarrow> SHATYPE \<Rightarrow> u8 list option option" where
  "calculate_hmac_by_ct hmac ct buf len key pwd shatype =
     (if ct = TURN_CREDENTIALS_SHORT_TERM
      then stun_calculate_hmac hmac buf len pwd (strlen pwd) shatype
      else stun_calculate_hmac hmac buf len key (get_hmackey_size shatype) shatype)"

definition stun_attr_add_integrity_str ::
    "hmac_fn \<Rightarrow> turn_credential_type \<Rightarrow> buffer \<Rightarrow> nat \<Rightarrow> u8 list \<Rightarrow> u8 list \<Rightarrow> SHATYPE \<Rightarrow>
     (bool \<times> buffer \<times> nat) option" where
  "stun_attr_add_integrity_str hmac ct buf len key pwd shatype = do {
     let shasize = shasize_of shatype;
     (ok, b1, len1) \<leftarrow>
       stun_attr_add_str buf len STUN_ATTRIBUTE_MESSAGE_INTEGRITY (Some (replicate 128 0)) (int shasize);
     if \<not> ok then Some (False, b1, len1) else do {
       mac \<leftarrow> calculate_hmac_by_ct hmac ct b1 (len1 - 4 - shasize) key pwd shatype;
       case mac of
         None \<Rightarrow> Some (False, b1, len1)
       | Some m \<Rightarrow> do { b2 \<leftarrow> store b1 (len1 - shasize) m; Some (True, b2, len1) }
     }
   }"

definition stun_attr_add_integrity_by_key_str ::
    "hmac_fn \<Rightarrow> buffer \<Rightarrow> nat \<Rightarrow> u8 list \<Rightarrow> u8 list \<Rightarrow> u8 list \<Rightarrow> u8 list \<Rightarrow> SHATYPE \<Rightarrow>
     (bool \<times> buffer \<times> nat) option" where
  "stun_attr_add_integrity_by_key_str hmac buf len uname realm key nonce shatype = do {
     (ok1, b1, l1) \<leftarrow> stun_attr_add_str buf len STUN_ATTRIBUTE_USERNAME (Some uname) (int (strlen uname));
     if \<not> ok1 then Some (False, b1, l1) else do {
       (ok2, b2, l2) \<leftarrow> stun_attr_add_str b1 l1 STUN_ATTRIBUTE_NONCE (Some nonce) (int (strlen nonce));
       if \<not> ok2 then Some (False, b2, l2) else do {
         (ok3, b3, l3) \<leftarrow> stun_attr_add_str b2 l2 STUN_ATTRIBUTE_REALM (Some realm) (int (strlen realm));
         if \<not> ok3 then Some (False, b3, l3)
         else stun_attr_add_integrity_str hmac TURN_CREDENTIALS_LONG_TERM b3 l3 key [] shatype
       }
     }
   }"

definition stun_attr_add_integrity_by_user_str ::
    "hmac_fn \<Rightarrow> digest_fn \<Rightarrow> buffer \<Rightarrow> nat \<Rightarrow> u8 list \<Rightarrow> u8 list \<Rightarrow> u8 list \<Rightarrow> u8 list \<Rightarrow> SHATYPE \<Rightarrow>
     (bool \<times> buffer \<times> nat) option" where
  "stun_attr_add_integrity_by_user_str hmac digest buf len uname realm upwd nonce shatype = do {
     (ok, key) \<leftarrow> stun_produce_integrity_key_str digest uname realm upwd (replicate 64 0) shatype;
     if \<not> ok then Some (False, buf, len)
     else stun_attr_add_integrity_by_key_str hmac buf len uname realm key nonce shatype
   }"

definition stun_attr_add_integrity_by_user_short_term_str ::
    "hmac_fn \<Rightarrow> buffer \<Rightarrow> nat \<Rightarrow> u8 list \<Rightarrow> u8 list \<Rightarrow> SHATYPE \<Rightarrow> (bool \<times> buffer \<times> nat) option" where
  "stun_attr_add_integrity_by_user_short_term_str hmac buf len uname pwd shatype = do {
     (ok, b1, l1) \<leftarrow> stun_attr_add_str buf len STUN_ATTRIBUTE_USERNAME (Some uname) (int (strlen uname));
     if ok then Some (False, b1, l1)
     else stun_attr_add_integrity_str hmac TURN_CREDENTIALS_SHORT_TERM b1 l1 (replicate 64 0) pwd shatype
   }"

text \<open>The size of the code in the message must be that of the configured hash.\<close>

definition integrity_size_ok :: "int \<Rightarrow> SHATYPE \<Rightarrow> nat option" where
  "integrity_size_ok l shatype =
     (if l = 32 then (if shatype \<noteq> SHATYPE_SHA256 then None else Some 32)
      else if l = 48 then (if shatype \<noteq> SHATYPE_SHA384 then None else Some 48)
      else if l = 64 then (if shatype \<noteq> SHATYPE_SHA512 then None else Some 64)
      else if l = 20 then (if shatype \<noteq> SHATYPE_SHA1 then None else Some 20)
      else None)"

definition stun_check_message_integrity_by_key_str ::
    "hmac_fn \<Rightarrow> turn_credential_type \<Rightarrow> buffer \<Rightarrow> nat \<Rightarrow> u8 list \<Rightarrow> u8 list \<Rightarrow> SHATYPE \<Rightarrow>
     (int \<times> buffer) option" where
  "stun_check_message_integrity_by_key_str hmac ct buf len key pwd shatype = do {
     sar \<leftarrow> stun_attr_get_first_by_type_str buf len STUN_ATTRIBUTE_MESSAGE_INTEGRITY;
     case sar of None \<Rightarrow> Some (- 1, buf) | Some p \<Rightarrow> do {
       l \<leftarrow> stun_attr_get_len buf sar;
       case integrity_size_ok l shatype of None \<Rightarrow> Some (- 1, buf) | Some shasize \<Rightarrow> do {
         orig_len \<leftarrow> stun_get_command_message_len_str buf len;
         if orig_len < 0 then Some (- 1, buf) else do {
           let new_len = int p + 4 + int shasize;
           if new_len > orig_len then Some (- 1, buf) else do {
             (ok, b1) \<leftarrow> stun_set_command_message_len_str buf new_len;
             if \<not> ok then Some (- 1, b1) else do {
               mac \<leftarrow> calculate_hmac_by_ct hmac ct b1 (nat new_len - 4 - shasize) key pwd shatype;
               (_, b2) \<leftarrow> stun_set_command_message_len_str b1 orig_len;
               case mac of None \<Rightarrow> Some (- 1, b2) | Some new_hmac \<Rightarrow> do {
                 old \<leftarrow> stun_attr_get_value b2 sar;
                 case old of None \<Rightarrow> Some (- 1, b2) | Some v \<Rightarrow> do {
                   old_hmac \<leftarrow> load b2 v (length new_hmac);
                   if old_hmac \<noteq> new_hmac then Some (0, b2) else Some (1, b2)
                 }
               }
             }
           }
         }
       }
     }
   }"

definition stun_check_message_integrity_str ::
    "hmac_fn \<Rightarrow> digest_fn \<Rightarrow> turn_credential_type \<Rightarrow> buffer \<Rightarrow> nat \<Rightarrow> u8 list \<Rightarrow> u8 list \<Rightarrow> u8 list \<Rightarrow> SHATYPE \<Rightarrow>
     (int \<times> buffer) option" where
  "stun_check_message_integrity_str hmac digest ct buf len uname realm upwd shatype =
     (if ct = TURN_CREDENTIALS_SHORT_TERM
      then stun_check_message_integrity_by_key_str hmac ct buf len (replicate 64 0)
             (take 256 (cstr upwd) @ replicate (257 - length (take 256 (cstr upwd))) 0) shatype
      else do {
        (ok, key) \<leftarrow> stun_produce_integrity_key_str digest uname realm upwd (replicate 64 0) shatype;
        if \<not> ok then Some (- 1, buf)
        else stun_check_message_integrity_by_key_str hmac ct buf len key (replicate 257 0) shatype
      })"

section \<open>SASLprep: what it computes\<close>

definition sasl_ok :: "u8 \<Rightarrow> bool" where
  "sasl_ok c \<longleftrightarrow> c = 0xAD \<or> c = 0xA0 \<or> \<not> (c = 0x7F \<or> c < 0x1F \<or> (0x80 \<le> c \<and> c \<le> 0x9F))"

definition sasl_map :: "u8 \<Rightarrow> u8 list" where
  "sasl_map c = (if c = 0xAD then [] else if c = 0xA0 \<or> c = 0x20 then [0x20] else [c])"

lemma SASLprep_loop_spec:
  assumes "j \<le> i" "0 \<in> set (drop i s)"
  shows "\<exists>s'. SASLprep_loop s i j = Some (list_all sasl_ok (cstr (drop i s)), s') \<and> length s' = length s \<and>
     (list_all sasl_ok (cstr (drop i s)) \<longrightarrow>
       (\<exists>r. s' = take j s @ concat (map sasl_map (cstr (drop i s))) @ 0 # r))"
  using assms
proof (induction s i j rule: SASLprep_loop.induct)
  case (1 s i j)
  have i: "i < length s" using 1(5) by (metis drop_all empty_iff empty_set linorder_not_less)
  let ?c = "s ! i"
  have d: "drop i s = ?c # drop (i + 1) s" using i by (simp add: Cons_nth_drop_Suc)
  have rd: "rd8 s i = Some ?c" using i by (simp add: rd8_def)
  have wr: "wr8 s j x = Some (patch s j [x])" for x using i 1(4) by (simp add: wr8_def store_def)
  have pd: "drop (i + 1) (patch s j [x]) = drop (i + 1) s" for x using i 1(4) by simp
  have pt: "take (j + 1) (patch s j [x]) = take j s @ [x]" for x
    using i 1(4) by (simp add: patch_def)
  show ?case
  proof (cases "?c = 0")
    case True
    then have "cstr (drop i s) = []" by (subst d) (simp add: cstr_def)
    moreover have "patch s j [0] = take j s @ 0 # drop (j + 1) s" by (simp add: patch_def)
    ultimately show ?thesis using True rd wr i 1(4) by (simp add: SASLprep_loop.simps [of s i j])
  next
    case c0: False
    have z: "0 \<in> set (drop (i + 1) s)" using 1(5) c0 by (subst (asm) d) auto
    have cs: "cstr (drop i s) = ?c # cstr (drop (i + 1) s)" using c0 by (subst d) (simp add: cstr_def)
    consider "?c = 0xAD" | "?c \<noteq> 0xAD" "?c = 0xA0 \<or> ?c = 0x20"
      | "?c \<noteq> 0xAD" "\<not> (?c = 0xA0 \<or> ?c = 0x20)" "\<not> sasl_ok ?c"
      | "?c \<noteq> 0xAD" "\<not> (?c = 0xA0 \<or> ?c = 0x20)" "sasl_ok ?c" by blast
    then show ?thesis
    proof cases
      case 1
      with "1.IH"(1) [OF rd c0 1] "1.prems"(1) z show ?thesis
        by (simp add: SASLprep_loop.simps [of s i j] rd cs sasl_ok_def sasl_map_def)
    next
      case 2
      then have ok: "sasl_ok ?c" "sasl_map ?c = [0x20]" by (auto simp: sasl_ok_def sasl_map_def)
      from 2 "1.IH"(2) [OF rd c0 2 wr] "1.prems"(1) z pd pt wr i show ?thesis
        by (simp add: SASLprep_loop.simps [of s i j] rd cs ok c0)
    next
      case 3
      then have "?c = 0x7F \<or> ?c < 0x1F \<or> (0x80 \<le> ?c \<and> ?c \<le> 0x9F)" by (simp add: sasl_ok_def)
      then have "SASLprep_loop s i j = Some (False, s)"
        using 3 c0 rd by (subst SASLprep_loop.simps) auto
      with 3 show ?thesis by (simp add: cs)
    next
      case 4
      then have no: "?c \<noteq> 0x7F" "\<not> ?c < 0x1F" "\<not> (0x80 \<le> ?c \<and> ?c \<le> 0x9F)" and m: "sasl_map ?c = [?c]"
        by (auto simp: sasl_ok_def sasl_map_def)
      from 4 "1.IH"(3) [OF rd c0 4(1,2) no wr] "1.prems"(1) z pd pt wr i no show ?thesis
        by (simp add: SASLprep_loop.simps [of s i j] rd cs c0 m del: de_Morgan_conj)
    qed
  qed
qed

lemma SASLprep_spec:
  assumes "0 \<in> set s"
  obtains s' where "SASLprep s = Some (list_all sasl_ok (cstr s), s')" "length s' = length s"
    "list_all sasl_ok (cstr s) \<Longrightarrow> cstr s' = concat (map sasl_map (cstr s)) \<and> 0 \<in> set s'"
proof -
  obtain s' where s': "SASLprep_loop s 0 0 = Some (list_all sasl_ok (cstr s), s')" "length s' = length s"
    and r: "list_all sasl_ok (cstr s) \<longrightarrow> (\<exists>r. s' = concat (map sasl_map (cstr s)) @ 0 # r)"
    using SASLprep_loop_spec [of 0 0 s] assms by auto
  have "0 \<notin> set (concat (map sasl_map (cstr s)))"
    using zero_notin_cstr [of s] by (auto simp: sasl_map_def)
  with r have "list_all sasl_ok (cstr s) \<Longrightarrow> cstr s' = concat (map sasl_map (cstr s)) \<and> 0 \<in> set s'"
    using cstr_nonzero by (metis in_set_conv_decomp)
  with s' that show ?thesis by (simp add: SASLprep_def)
qed

lemma sasl_map_stable: "sasl_ok c \<Longrightarrow> d \<in> set (sasl_map c) \<Longrightarrow> sasl_ok d \<and> sasl_map d = [d]"
  by (auto simp: sasl_map_def sasl_ok_def split: if_splits)

text \<open>SASLprep on a terminated string neither reads nor writes outside of its array, accepts
  exactly the strings without prohibited characters, and is a normal form: an accepted string is
  mapped to a string that is accepted again and not changed any more.\<close>

theorem SASLprep_normal_form:
  assumes "0 \<in> set s"
  shows "\<exists>s'. SASLprep s = Some (list_all sasl_ok (cstr s), s') \<and> length s' = length s \<and>
     (list_all sasl_ok (cstr s) \<longrightarrow> cstr s' = concat (map sasl_map (cstr s)) \<and>
        (\<exists>s''. SASLprep s' = Some (True, s'') \<and> cstr s'' = cstr s'))"
proof -
  obtain s' where s': "SASLprep s = Some (list_all sasl_ok (cstr s), s')" "length s' = length s"
    "list_all sasl_ok (cstr s) \<Longrightarrow> cstr s' = concat (map sasl_map (cstr s)) \<and> 0 \<in> set s'"
    using SASLprep_spec [OF assms] by blast
  have "\<exists>s''. SASLprep s' = Some (True, s'') \<and> cstr s'' = cstr s'" if ok: "list_all sasl_ok (cstr s)"
  proof -
    have stable: "sasl_ok d \<and> sasl_map d = [d]" if "d \<in> set (cstr s')" for d
      using that s'(3) [OF ok] ok sasl_map_stable by (auto simp: list_all_iff)
    obtain s'' where "SASLprep s' = Some (list_all sasl_ok (cstr s'), s'')"
      "list_all sasl_ok (cstr s') \<Longrightarrow> cstr s'' = concat (map sasl_map (cstr s'))"
      using SASLprep_spec [of s'] s'(3) [OF ok] by blast
    moreover have "concat (map sasl_map xs) = xs" if "\<forall>d \<in> set xs. sasl_map d = [d]" for xs
      using that by (induction xs) auto
    ultimately show ?thesis using stable by (auto simp: list_all_iff)
  qed
  with s' show ?thesis by blast
qed

theorem SASLprep_normal_form_witness:
  "\<exists>s'. SASLprep [0x61, 0xA0, 0xAD, 0x62, 0] = Some (True, s') \<and> cstr s' = [0x61, 0x20, 0x62]"
  using SASLprep_normal_form [of "[0x61, 0xA0, 0xAD, 0x62, 0]"]
  by (auto simp: sasl_ok_def sasl_map_def cstr_def)

section \<open>Stored passwords\<close>

lemma length_readable_string [simp]: "length (readable_string x) = 2 * length x"
  by (induction x) (simp_all add: readable_string_def hex02_def)

lemma hex02_inj: "hex02 a = hex02 b \<Longrightarrow> a = b"
proof -
  assume "hex02 a = hex02 b"
  then have "unat (ucast a :: u64) = unat (ucast b :: u64)" by (metis strtoul_hex02)
  moreover have "unat (ucast c :: u64) = unat c" for c :: u8
    using unat_u8 [of c] by (simp add: unsigned_ucast_eq take_bit_nat_eq_self)
  ultimately show "a = b" by (simp add: word_unat_eq_iff)
qed

lemma readable_string_inj: "length x = length y \<Longrightarrow> readable_string x = readable_string y \<Longrightarrow> x = y"
proof (induction x y rule: list_induct2)
  case (Cons a x b y)
  then have "hex02 a = hex02 b" "readable_string x = readable_string y"
    by (simp_all add: readable_string_def hex02_def)
  with Cons hex02_inj show ?case by blast
qed simp

lemma zero_notin_readable: "0 \<notin> set (readable_string x)"
proof -
  have "unat c div 16 < 16" "unat c mod 16 < 16" for c :: u8 using unat_u8 [of c] by auto
  then show ?thesis by (auto simp: readable_string_def hex02_def hexdigit_props dest!: sym [of 0])
qed

lemma readable_string_nth:
  "i < length x \<Longrightarrow> readable_string x ! (2 * i) = hex02 (x ! i) ! 0 \<and>
     readable_string x ! (2 * i + 1) = hex02 (x ! i) ! 1"
proof (induction x arbitrary: i)
  case (Cons a x)
  then show ?case by (cases i) (simp_all add: readable_string_def hex02_def)
qed simp

text \<open>The stored form of a password.\<close>

definition enc_form :: "u8 list \<Rightarrow> u8 list \<Rightarrow> u8 list" where
  "enc_form salt dg = lit ''$5$'' @ readable_string salt @ lit ''$'' @ readable_string dg"

lemma cstr_enc_form [simp]: "cstr (enc_form salt dg) = enc_form salt dg"
  using zero_notin_readable by (intro cstr_id) (auto simp: enc_form_def lit_def)

lemma encrypted_password_enc_form:
  assumes "length salt = 8" "16 \<le> length dg"
  shows "encrypted_password (enc_form salt dg) = Some salt"
proof -
  let ?e = "enc_form salt dg"
  have sep: "?e ! 0 = of_char CHR ''$''" "?e ! 1 = of_char CHR ''5''" "?e ! 2 = of_char CHR ''$''"
    "?e ! 19 = of_char CHR ''$''" using assms by (simp_all add: enc_form_def lit_def nth_append)
  have "[?e ! (3 + i + i), ?e ! (3 + i + i + 1)] = hex02 (salt ! i)" if "i < 8" for i
  proof -
    have "?e ! (3 + k) = readable_string salt ! k" if "k < 16" for k
      using that assms(1) by (simp add: enc_form_def lit_def nth_append)
    from this [of "2 * i"] this [of "2 * i + 1"] readable_string_nth [of i salt] that assms(1)
    have "?e ! (3 + 2 * i) = hex02 (salt ! i) ! 0" "?e ! (3 + (2 * i + 1)) = hex02 (salt ! i) ! 1" by auto
    moreover have "3 + i + i = 3 + 2 * i" "3 + i + i + 1 = 3 + (2 * i + 1)" by simp_all
    ultimately show ?thesis by (simp only:) (simp add: hex02_def)
  qed
  then have "map (\<lambda>i. ucast (strtoul 16 [?e ! (3 + i + i), ?e ! (3 + i + i + 1)])) [0..<8] =
      map (\<lambda>i. ucast (ucast (salt ! i) :: u64)) [0..<8]"
    by (intro map_cong) (simp_all add: strtoul_hex02)
  also have "\<dots> = map ((!) salt) [0..<length salt]"
    using assms(1) by (intro map_cong) (auto intro!: bit_word_eqI simp: bit_simps)
  also have "\<dots> = salt" by (rule map_nth)
  finally have salt: "map (\<lambda>i. ucast (strtoul 16 [?e ! (3 + i + i), ?e ! (3 + i + i + 1)])) [0..<8] = salt" .
  have "52 \<le> length ?e" using assms by (simp add: enc_form_def lit_def)
  then show ?thesis
    unfolding encrypted_password_def Let_def cstr_enc_form using sep by (simp only: salt) simp
qed

text \<open>Verification of stored passwords: a password is accepted against the string that was
  generated from it, and any other candidate is accepted only when the salted digests agree.\<close>

theorem check_password_equal_stored:
  assumes "8 \<le> length rnd" and size: "\<And>d. length (digest EVP_sha256 d) = 32"
  shows "\<exists>stored. generate_new_enc_password digest rnd pwd = Some stored \<and>
     check_password_equal digest pwd stored = Some True \<and>
     (\<forall>pin. check_password_equal digest pin stored =
        Some (digest EVP_sha256 (take 8 rnd @ cstr pin) = digest EVP_sha256 (take 8 rnd @ cstr pwd)))"
proof -
  let ?salt = "take 8 rnd" and ?dg = "\<lambda>p. digest EVP_sha256 (take 8 rnd @ cstr p)"
  have gen: "generate_new_enc_password digest rnd pwd = Some (enc_form ?salt (?dg pwd))"
    using assms(1) by (simp add: generate_new_enc_password_def generate_enc_password_def load_def enc_form_def)
  have "check_password_equal digest pin (enc_form ?salt (?dg pwd)) = Some (?dg pin = ?dg pwd)" for pin
  proof -
    have "encrypted_password (enc_form ?salt (?dg pwd)) = Some ?salt"
      using assms by (intro encrypted_password_enc_form) simp_all
    moreover have "generate_enc_password digest [] pin (Some ?salt) = Some (enc_form ?salt (?dg pin))"
      using assms(1) by (simp add: generate_enc_password_def load_def enc_form_def)
    moreover have "const_time_str_equal (enc_form ?salt (?dg pin)) (enc_form ?salt (?dg pwd)) =
        (?dg pin = ?dg pwd)"
      using readable_string_inj [of "?dg pin" "?dg pwd"] size
      by (auto simp: const_time_str_equal_def strlen_def Let_def) (auto simp: enc_form_def)
    ultimately show ?thesis by (simp add: check_password_equal_def)
  qed
  with gen show ?thesis by auto
qed

theorem check_password_equal_stored_witness:
  "\<exists>stored. generate_new_enc_password (\<lambda>_ d. take 32 (d @ replicate 32 0)) (replicate 8 1) [0x70, 0] = Some stored \<and>
     check_password_equal (\<lambda>_ d. take 32 (d @ replicate 32 0)) [0x70, 0] stored = Some True"
proof -
  have "length (take 32 (d @ replicate 32 (0 :: u8))) = 32" for d by simp
  moreover have "8 \<le> length (replicate 8 (1 :: u8))" by simp
  ultimately show ?thesis
    using check_password_equal_stored [of "replicate 8 1" "\<lambda>_ d. take 32 (d @ replicate 32 0)" "[0x70, 0]"]
    by blast
qed

section \<open>Message integrity: adding and checking\<close>

text \<open>The key that is used, and when the key array is large enough.\<close>

definition mac_key :: "turn_credential_type \<Rightarrow> u8 list \<Rightarrow> u8 list \<Rightarrow> SHATYPE \<Rightarrow> u8 list" where
  "mac_key ct key pwd shatype =
     (if ct = TURN_CREDENTIALS_SHORT_TERM then cstr pwd else take (get_hmackey_size shatype) key)"

definition key_ok :: "turn_credential_type \<Rightarrow> u8 list \<Rightarrow> SHATYPE \<Rightarrow> bool" where
  "key_ok ct key shatype \<longleftrightarrow> ct = TURN_CREDENTIALS_SHORT_TERM \<or> get_hmackey_size shatype \<le> length key"

text \<open>The documented size of the codes of HMAC.\<close>

definition hmac_sized :: "hmac_fn \<Rightarrow> SHATYPE \<Rightarrow> bool" where
  "hmac_sized hmac shatype \<longleftrightarrow> (\<forall>k d m. hmac (hmac_md shatype) k d = Some m \<longrightarrow> length m = shasize_of shatype)"

lemma take_strlen: "take (strlen a) a = cstr a" "strlen a \<le> length a"
  by (simp_all add: strlen_def cstr_def takeWhile_eq_take [symmetric] length_takeWhile_le)

lemma calculate_hmac_in:
  assumes "n \<le> length b" "key_ok ct key shatype"
  shows "calculate_hmac_by_ct hmac ct b n key pwd shatype =
     Some (hmac (hmac_md shatype) (mac_key ct key pwd shatype) (take n b))"
  using assms take_strlen [of pwd]
  by (auto simp: calculate_hmac_by_ct_def stun_calculate_hmac_def mac_key_def key_ok_def load_def)

text \<open>The message with another length in its header.\<close>

definition with_len :: "buffer \<Rightarrow> nat \<Rightarrow> buffer" where
  "with_len b n = patch b 2 (bytes16 (nswap16 (of_nat (n - STUN_HEADER_LENGTH))))"

lemma set_len_in:
  assumes "20 \<le> n" "4 \<le> length b"
  shows "stun_set_command_message_len_str b (int n) = Some (True, with_len b n)"
proof -
  have "int n - 20 = int (n - 20)" using assms by simp
  then show ?thesis
    using assms by (simp add: stun_set_command_message_len_str_def wr16_def store_def with_len_def)
qed

lemma with_len_twice: "4 \<le> length b \<Longrightarrow> with_len (with_len b n) m = with_len b m"
  by (simp add: with_len_def patch_def take_Cons')

lemma with_len_same:
  assumes "msg_end b len = Some e" "4 \<le> length b"
  shows "with_len b e = b"
proof -
  have e: "be16 (b ! 2) (b ! 3) + 20 = e"
    using assms(1) by (auto simp: msg_end_def Let_def split: if_splits)
  have "nswap16 (of_nat (e - 20)) = host16 (b ! 2) (b ! 3)"
  proof -
    have "nswap16 (host16 (b ! 2) (b ! 3)) = of_nat (be16 (b ! 2) (b ! 3))"
      by (simp flip: unat_nswap16_host16)
    then show ?thesis using e by (metis add_diff_cancel_right' nswap16_nswap16)
  qed
  then have "with_len b e = take 2 b @ [b ! 2, b ! 3] @ drop 4 b"
    by (simp add: with_len_def patch_def)
  also have "[b ! 2, b ! 3] @ drop 4 b = drop 2 b"
    using Cons_nth_drop_Suc [of 2 b] Cons_nth_drop_Suc [of 3 b] assms(2) by simp
  also have "take 2 b @ drop 2 b = b" by simp
  finally show ?thesis .
qed

lemma integrity_size_iff:
  "integrity_size_ok (int n) shatype = Some k \<longleftrightarrow> shatype \<noteq> SHATYPE_ERROR \<and> n = shasize_of shatype \<and> k = n"
  by (cases shatype) (auto simp: integrity_size_ok_def shasize_of_def)

text \<open>The result of the check as a function of the first MESSAGE-INTEGRITY attribute.\<close>

definition integrity_verdict ::
    "hmac_fn \<Rightarrow> turn_credential_type \<Rightarrow> buffer \<Rightarrow> nat \<Rightarrow> u8 list \<Rightarrow> u8 list \<Rightarrow> SHATYPE \<Rightarrow> int" where
  "integrity_verdict hmac ct b len key pwd shatype =
     (case find (\<lambda>p. atype b p = unat STUN_ATTRIBUTE_MESSAGE_INTEGRITY) (attr_offsets b len) of
        None \<Rightarrow> - 1
      | Some p \<Rightarrow>
          if shatype = SHATYPE_ERROR \<or> alen b p \<noteq> shasize_of shatype then - 1
          else (case hmac (hmac_md shatype) (mac_key ct key pwd shatype)
                       (take p (with_len b (p + 4 + alen b p))) of
                  None \<Rightarrow> - 1
                | Some m \<Rightarrow> if avalue b p = m then 1 else 0))"

lemma check_integrity_verdict:
  assumes len: "len \<le> length b" and k: "key_ok ct key shatype" and h: "hmac_sized hmac shatype"
  shows "stun_check_message_integrity_by_key_str hmac ct b len key pwd shatype =
     Some (integrity_verdict hmac ct b len key pwd shatype, b)"
proof -
  let ?mi = "STUN_ATTRIBUTE_MESSAGE_INTEGRITY"
  note defs = stun_check_message_integrity_by_key_str_def integrity_verdict_def
  have first: "stun_attr_get_first_by_type_str b len ?mi =
      Some (find (\<lambda>p. atype b p = unat ?mi) (attr_offsets b len))"
    by (rule get_first_by_type_in [OF len])
  show ?thesis
  proof (cases "find (\<lambda>p. atype b p = unat ?mi) (attr_offsets b len)")
    case None
    then show ?thesis using first by (simp add: defs)
  next
    case (Some p)
    then have p: "p \<in> set (attr_offsets b len)" by (auto simp: find_Some_iff)
    note i = offsets_inside [OF p len]
    obtain e where e: "msg_end b len = Some e" "p + 4 + pad4 (alen b p) \<le> e" "e \<le> len"
      using attr_offsets_end [OF p] by blast
    have l: "stun_attr_get_len b (Some p) = Some (int (alen b p))" using i(3) by (simp add: get_len_in)
    have cl: "stun_get_command_message_len_str b len = Some (int e)"
      using len e by (simp add: command_message_len_in)
    show ?thesis
    proof (cases "integrity_size_ok (int (alen b p)) shatype")
      case None
      then have "shatype = SHATYPE_ERROR \<or> alen b p \<noteq> shasize_of shatype"
        using integrity_size_iff [of "alen b p" shatype "alen b p"] by auto
      then show ?thesis using first l Some None by (simp add: defs)
    next
      case (Some sz)
      then have sz: "shatype \<noteq> SHATYPE_ERROR" "alen b p = shasize_of shatype" "sz = alen b p"
        using integrity_size_iff by auto
      have new: "nat (int p + 4 + int k) - (4 + k) = p" for k by linarith
      have le: "p + 4 + alen b p \<le> e" using e(2) le_pad4 [of "alen b p"] by simp
      let ?b1 = "with_len b (p + 4 + alen b p)"
      have b1: "stun_set_command_message_len_str b (int (p + 4 + alen b p)) = Some (True, ?b1)" "length ?b1 = length b"
        using i set_len_in [of "p + 4 + alen b p" b] by (simp_all add: with_len_def)
      have b2: "stun_set_command_message_len_str ?b1 (int e) = Some (True, b)"
        using i e b1(2) set_len_in [of e ?b1] with_len_twice [of b] with_len_same [OF e(1)] msg_end_bounds [OF e(1)]
        by simp
      have mac: "calculate_hmac_by_ct hmac ct ?b1 p key pwd shatype =
          Some (hmac (hmac_md shatype) (mac_key ct key pwd shatype) (take p ?b1))"
        using i b1(2) k by (intro calculate_hmac_in) simp_all
      have pos: "alen b p \<noteq> 0" using sz by (cases shatype) (simp_all add: shasize_of_def)
      have v: "stun_attr_get_value b (Some p) = Some (Some (p + 4))" using i(3) pos by (simp add: get_value_in)
      have ld: "load b (p + 4) (length m) = Some (avalue b p)" "length (avalue b p) = length m"
        if "hmac (hmac_md shatype) (mac_key ct key pwd shatype) (take p ?b1) = Some m" for m
        using that h i sz by (auto simp: hmac_sized_def load_def avalue_def)
      show ?thesis
        using first \<open>find _ _ = Some p\<close> l Some cl b1(1) b2 mac v ld le sz
        unfolding defs
        by (simp add: new Let_def split: option.split)
    qed
  qed
qed

lemma pad4_shasize [simp]: "pad4 (shasize_of shatype) = shasize_of shatype"
  by (cases shatype) (simp_all add: shasize_of_def pad4_def)

lemma shasize_bounds: "20 \<le> shasize_of shatype" "shasize_of shatype \<le> 64"
  by (cases shatype, simp_all add: shasize_of_def)+

lemma add_integrity_tlv:
  assumes wf: "wf_msg b len" and fit: "len + 4 + shasize_of shatype \<le> length b" "len + 4 + shasize_of shatype < 65507"
    and k: "key_ok ct key shatype" and m: "length m = shasize_of shatype"
    and h: "hmac (hmac_md shatype) (mac_key ct key pwd shatype)
       (take len (add_tlv b len STUN_ATTRIBUTE_MESSAGE_INTEGRITY m)) = Some m'" "length m' = shasize_of shatype"
  shows "stun_attr_add_integrity_str hmac ct b len key pwd shatype =
     Some (True, add_tlv b len STUN_ATTRIBUTE_MESSAGE_INTEGRITY m', len + 4 + shasize_of shatype)"
proof -
  note w = wf_msgD [OF wf]
  let ?t = "STUN_ATTRIBUTE_MESSAGE_INTEGRITY" and ?sz = "shasize_of shatype"
  let ?b1 = "add_tlv b len ?t (replicate ?sz 0)"
  have add: "stun_attr_add_str b len ?t (Some (replicate 128 0)) (int ?sz) = Some (True, ?b1, len + 4 + ?sz)"
    using stun_attr_add_str_tlv [OF wf, of ?sz "replicate 128 0" ?t] fit shasize_bounds(2) [of shatype]
    by (simp add: min_absorb2)
  have l1: "length ?b1 = length b"
    using add_tlv_nth(1) [of len "replicate ?sz 0" b] w(4) fit by simp
  have tk: "take len ?b1 = take len (add_tlv b len ?t m)"
    using w(4) fit m by (intro take_add_tlv) simp_all
  have n: "len + 4 + ?sz - 4 - ?sz = len" "len + 4 + ?sz - ?sz = len + 4" by simp_all
  have "calculate_hmac_by_ct hmac ct ?b1 len key pwd shatype = Some (Some m')"
    using calculate_hmac_in [of len ?b1 ct key shatype hmac pwd] fit l1 k h tk by simp
  moreover have "store ?b1 (len + 4) m' = Some (add_tlv b len ?t m')"
    using patch_add_tlv [of m' "replicate ?sz 0" len b ?t] w(4) fit l1 h(2) by (simp add: store_def)
  ultimately show ?thesis
    unfolding stun_attr_add_integrity_str_def Let_def using add n by simp
qed

text \<open>C28: a message to which stun_attr_add_integrity_str has added the authentication code passes
  the integrity check under the same credentials, and the check leaves the message as it was; this
  holds for long-term and short-term credentials and for all supported hash functions.\<close>

theorem integrity_add_then_check:
  assumes wf: "wf_msg b len" and fit: "len + 4 + shasize_of shatype \<le> length b" "len + 4 + shasize_of shatype < 65507"
    and new: "unat STUN_ATTRIBUTE_MESSAGE_INTEGRITY \<notin> fst ` set (attrs b len)"
    and sha: "shatype \<noteq> SHATYPE_ERROR" and k: "key_ok ct key shatype"
    and h: "hmac_sized hmac shatype" "\<And>k d. hmac (hmac_md shatype) k d \<noteq> None"
  shows "\<exists>b'. stun_attr_add_integrity_str hmac ct b len key pwd shatype = Some (True, b', len + 4 + shasize_of shatype) \<and>
     stun_check_message_integrity_by_key_str hmac ct b' (len + 4 + shasize_of shatype) key pwd shatype = Some (1, b')"
proof -
  note w = wf_msgD [OF wf]
  let ?t = "STUN_ATTRIBUTE_MESSAGE_INTEGRITY" and ?sz = "shasize_of shatype" and ?md = "hmac_md shatype"
  let ?len' = "len + 4 + ?sz"
  obtain m where m: "hmac ?md (mac_key ct key pwd shatype) (take len (add_tlv b len ?t (replicate ?sz 0))) = Some m"
    using h(2) by (meson option.exhaust)
  then have lm: "length m = ?sz" using h(1) by (auto simp: hmac_sized_def)
  let ?b' = "add_tlv b len ?t m"
  have add: "stun_attr_add_integrity_str hmac ct b len key pwd shatype = Some (True, ?b', ?len')"
    using add_integrity_tlv [OF wf fit k, where m = "replicate ?sz 0" and m' = m] m lm by simp
  have small: "length m < 65536" "len + 4 + pad4 (length m) \<le> length b" "len + 4 + pad4 (length m) < 65556"
    using fit lm shasize_bounds(2) [of shatype] by simp_all
  have l: "len + 4 + pad4 (length m) = ?len'" using lm by simp
  note app = add_tlv_append [OF wf small, of ?t, unfolded l]
  have len': "?len' \<le> length ?b'" using wf_msgD(1) [OF app(1)] .
  note last = last_attr [OF len' app(2,3)]
  have wl: "with_len ?b' ?len' = ?b'"
    using wf_msgD(2) [OF app(1)] len' by (intro with_len_same) simp_all
  have tk: "take len ?b' = take len (add_tlv b len ?t (replicate ?sz 0))"
    using w(4) fit lm by (intro take_add_tlv) simp_all
  have "integrity_verdict hmac ct ?b' ?len' key pwd shatype = 1"
    unfolding integrity_verdict_def app(2) last(4) [OF new]
    using last(2,3) lm wl tk m sha by simp
  then show ?thesis
    using add check_integrity_verdict [OF len' k h(1)] by auto
qed

theorem integrity_add_then_check_witness:
  "\<exists>b'. stun_attr_add_integrity_str (\<lambda>_ _ _. Some (replicate 20 1)) TURN_CREDENTIALS_LONG_TERM
       (replicate 64 0) 20 (replicate 64 0) [0] SHATYPE_SHA1 = Some (True, b', 44) \<and>
     stun_check_message_integrity_by_key_str (\<lambda>_ _ _. Some (replicate 20 1)) TURN_CREDENTIALS_LONG_TERM
       b' 44 (replicate 64 0) [0] SHATYPE_SHA1 = Some (1, b')"
  using integrity_add_then_check [of "replicate 64 0" 20 SHATYPE_SHA1 TURN_CREDENTIALS_LONG_TERM "replicate 64 0"
      "\<lambda>_ _ _. Some (replicate 20 1)" "[0]"] wf_msg_zeros [of 64]
  by (simp add: shasize_of_def key_ok_def get_hmackey_size_def hmac_sized_def)



text \<open>stun_attr_add_integrity_by_user_short_term_str tests the result of appending the USERNAME
  attribute the wrong way round: whenever the attribute fits, the function reports failure and the
  message carries the user name but no authentication code.\<close>

theorem short_term_integrity_never_added:
  assumes wf: "wf_msg b len" and fit: "len + 4 + pad4 (strlen uname) \<le> length b" "len + 4 + pad4 (strlen uname) < 65507"
  shows "\<exists>b' len'. stun_attr_add_integrity_by_user_short_term_str hmac b len uname pwd shatype = Some (False, b', len') \<and>
     attrs b' len' = attrs b len @ [(unat STUN_ATTRIBUTE_USERNAME, cstr uname)]"
proof -
  have "strlen uname < 65536" using fit(2) le_pad4 [of "strlen uname"] by simp
  from add_str_append [OF wf take_strlen(2) this fit, of STUN_ATTRIBUTE_USERNAME] obtain b' where
    "stun_attr_add_str b len STUN_ATTRIBUTE_USERNAME (Some uname) (int (strlen uname)) =
       Some (True, b', len + 4 + pad4 (strlen uname))"
    "attrs b' (len + 4 + pad4 (strlen uname)) = attrs b len @ [(unat STUN_ATTRIBUTE_USERNAME, cstr uname)]"
    by (metis take_strlen(1))
  then show ?thesis by (simp add: stun_attr_add_integrity_by_user_short_term_str_def)
qed

theorem short_term_integrity_never_added_witness:
  "\<exists>b' len'. stun_attr_add_integrity_by_user_short_term_str (\<lambda>_ _ _. None) (replicate 64 0) 20 [0x75, 0] [0] SHATYPE_SHA1 =
     Some (False, b', len')"
  using short_term_integrity_never_added [of "replicate 64 0" 20 "[0x75, 0]" "\<lambda>_ _ _. None" "[0]" SHATYPE_SHA1]
    wf_msg_zeros [of 64]
  by (auto simp: strlen_def cstr_def pad4_def)

end
