(* ===== verification/Stun_Build.thy ===== *)
theory Stun_Build
  imports Stun_Codec C_String
begin

text \<open>
  The functions of src/client/ns_turn_msg.c that build complete requests and responses, and those
  that take error and challenge responses apart.
\<close>

section \<open>Names\<close>

definition get_default_reason :: "int \<Rightarrow> u8 list" where
  "get_default_reason error_code =
     (if error_code = 300 then lit ''Try Alternate''
      else if error_code = 400 then lit ''Bad Request''
      else if error_code = 401 then lit ''Unauthorized''
      else if error_code = 403 then lit ''Forbidden''
      else if error_code = 404 then lit ''Not Found''
      else if error_code = 420 then lit ''Unknown Attribute''
      else if error_code = 437 then lit ''Allocation Mismatch''
      else if error_code = 438 then lit ''Stale Nonce''
      else if error_code = 440 then lit ''Address Family not Supported''
      else if error_code = 441 then lit ''Wrong Credentials''
      else if error_code = 442 then lit ''Unsupported Transport Protocol''
      else if error_code = 443 then lit ''Peer Address Family Mismatch''
      else if error_code = 446 then lit ''Connection Already Exists''
      else if error_code = 447 then lit ''Connection Timeout or Failure''
      else if error_code = 486 then lit ''Allocation Quota Reached''
      else if error_code = 487 then lit ''Role Conflict''
      else if error_code = 500 then lit ''Server Error''
      else if error_code = 508 then lit ''Insufficient Capacity''
      else lit ''Unknown error'')"

text \<open>The return value and the string that is copied to smethod, whose array has 32 bytes.\<close>

definition stun_method_str :: "u16 \<Rightarrow> int \<times> u8 list" where
  "stun_method_str method =
     (if method = STUN_METHOD_BINDING then (0, lit ''BINDING'')
      else if method = STUN_METHOD_ALLOCATE then (0, lit ''ALLOCATE'')
      else if method = STUN_METHOD_REFRESH then (0, lit ''REFRESH'')
      else if method = STUN_METHOD_SEND then (0, lit ''SEND'')
      else if method = STUN_METHOD_DATA then (0, lit ''DATA'')
      else if method = STUN_METHOD_CREATE_PERMISSION then (0, lit ''CREATE_PERMISSION'')
      else if method = STUN_METHOD_CHANNEL_BIND then (0, lit ''CHANNEL_BIND'')
      else if method = STUN_METHOD_CONNECT then (0, lit ''CONNECT'')
      else if method = STUN_METHOD_CONNECTION_BIND then (0, lit ''CONNECTION_BIND'')
      else if method = STUN_METHOD_CONNECTION_ATTEMPT then (0, lit ''CONNECTION_ATTEMPT'')
      else (- 1, lit ''UNKNOWN''))"

section \<open>Error responses\<close>

definition strncpy_bytes :: "nat \<Rightarrow> u8 list \<Rightarrow> u8 list" where
  "strncpy_bytes n src = take n (cstr src @ replicate n 0)"

text \<open>The 513 bytes of the local array avalue and the padded length of the value in it.\<close>

definition error_avalue :: "u8 \<Rightarrow> int \<Rightarrow> u8 list option \<Rightarrow> u8 list" where
  "error_avalue b0 error_code reason =
     ([b0, 0, word_of_int (error_code div 100), word_of_int (error_code mod 100)] @
      (case reason of Some r \<Rightarrow> strncpy_bytes 509 r | None \<Rightarrow> replicate 509 0))[512 := 0]"

definition error_alen :: "u8 list \<Rightarrow> int" where
  "error_alen av =
     (let alen = 4 + int (strlen (drop 4 av)); rem = alen mod 4
      in if rem \<noteq> 0 then alen + (4 - rem) else alen)"

definition stun_init_error_response_common_str ::
    "buffer \<Rightarrow> nat \<Rightarrow> u16 \<Rightarrow> u8 list option \<Rightarrow> stun_tid option \<Rightarrow> bool \<Rightarrow> (buffer \<times> nat) option" where
  "stun_init_error_response_common_str buf len error_code reason0 tid include_reason_string = do {
     let reason = (if include_reason_string \<and>
                      (case reason0 of None \<Rightarrow> True | Some r \<Rightarrow> cstr r = lit ''Unknown error'')
                   then Some (get_default_reason (uint error_code)) else reason0);
     let av = error_avalue 0 (uint error_code) (if include_reason_string then reason else None);
     (_, b1, len1) \<leftarrow> stun_attr_add_str buf len STUN_ATTRIBUTE_ERROR_CODE (Some av) (error_alen av);
     b2 \<leftarrow> cpy_tid_opt tid b1;
     Some (b2, len1)
   }"

definition old_stun_init_error_response_str ::
    "u8 list \<Rightarrow> u16 \<Rightarrow> buffer \<Rightarrow> u16 \<Rightarrow> u8 list option \<Rightarrow> stun_tid option \<Rightarrow> u32 \<Rightarrow> bool \<Rightarrow> (buffer \<times> nat) option" where
  "old_stun_init_error_response_str rnd method buf error_code reason tid cookie include_reason_string = do {
     (b, len) \<leftarrow> old_stun_init_command_str rnd (stun_make_error_response method) buf cookie;
     stun_init_error_response_common_str b len error_code reason tid include_reason_string
   }"

definition stun_init_error_response_str ::
    "u8 list \<Rightarrow> u16 \<Rightarrow> buffer \<Rightarrow> u16 \<Rightarrow> u8 list option \<Rightarrow> stun_tid option \<Rightarrow> bool \<Rightarrow> (buffer \<times> nat) option" where
  "stun_init_error_response_str rnd method buf error_code reason tid include_reason_string = do {
     (b, len) \<leftarrow> stun_init_command_str rnd (stun_make_error_response method) buf;
     stun_init_error_response_common_str b len error_code reason tid include_reason_string
   }"

definition stun_attr_add_address_error_code ::
    "buffer \<Rightarrow> nat \<Rightarrow> int \<Rightarrow> int \<Rightarrow> (bool \<times> buffer \<times> nat) option" where
  "stun_attr_add_address_error_code buf len requested_address_family error_code =
     (let av = error_avalue (word_of_int requested_address_family) error_code (Some (get_default_reason error_code))
      in stun_attr_add_str buf len STUN_ATTRIBUTE_ADDRESS_ERROR_CODE (Some av) (error_alen av))"

text \<open>want_code says that the pointer err_code is not NULL; the second component of the result is
  the error code if it was written, the third the array err_msg.\<close>

definition stun_is_error_response_str ::
    "buffer \<Rightarrow> nat \<Rightarrow> bool \<Rightarrow> u8 list option \<Rightarrow> nat \<Rightarrow> (bool \<times> int option \<times> u8 list option) option" where
  "stun_is_error_response_str buf len want_code err_msg err_msg_size = do {
     ch \<leftarrow> is_channel_msg_str buf len;
     if ch then Some (False, None, err_msg) else do {
       t \<leftarrow> stun_get_msg_type_str buf len;
       if \<not> IS_STUN_ERR_RESP t then Some (False, None, err_msg)
       else if \<not> want_code then Some (True, None, err_msg)
       else do {
         sar \<leftarrow> stun_attr_get_first_by_type_str buf len STUN_ATTRIBUTE_ERROR_CODE;
         case sar of None \<Rightarrow> Some (True, None, err_msg) | Some p \<Rightarrow> do {
           l \<leftarrow> stun_attr_get_len buf sar;
           if l \<ge> 4 then do {
             c2 \<leftarrow> rd8 buf (p + 4 + 2);
             c3 \<leftarrow> rd8 buf (p + 4 + 3);
             let code = uint c2 * 100 + uint c3;
             case err_msg of
               None \<Rightarrow> Some (True, Some code, None)
             | Some m0 \<Rightarrow>
                 if err_msg_size > 0 then do {
                   m1 \<leftarrow> wr8 m0 0 0;
                   if l > 4 then do {
                     let msg_len0 = nat (l - 4);
                     let msg_len = (if msg_len0 > err_msg_size - 1 then err_msg_size - 1 else msg_len0);
                     v \<leftarrow> load buf (p + 4 + 4) msg_len;
                     m2 \<leftarrow> store m1 0 v;
                     m3 \<leftarrow> wr8 m2 msg_len 0;
                     Some (True, Some code, Some m3)
                   } else Some (True, Some code, Some m1)
                 } else Some (True, Some code, err_msg)
           } else Some (True, None, err_msg)
         }
       }
     }
   }"

text \<open>A string attribute copied to an array: at most cap bytes and, for zt, a terminating zero.\<close>

definition copy_attr_str :: "buffer \<Rightarrow> nat \<Rightarrow> nat \<Rightarrow> nat \<Rightarrow> bool \<Rightarrow> u8 list \<Rightarrow> u8 list option" where
  "copy_attr_str buf p v cap zt dst = do {
     l \<leftarrow> stun_attr_get_len buf (Some p);
     let vlen = min (nat l) cap;
     bytes \<leftarrow> load buf v vlen;
     d1 \<leftarrow> store dst 0 bytes;
     if zt then wr8 d1 vlen 0 else Some d1
   }"

record challenge_out =
  ch_err_code :: int
  ch_err_msg :: "u8 list option"
  ch_realm :: "u8 list"
  ch_nonce :: "u8 list"
  ch_server_name :: "u8 list option"
  ch_oauth :: bool

definition stun_is_challenge_response_str ::
    "buffer \<Rightarrow> nat \<Rightarrow> nat \<Rightarrow> challenge_out \<Rightarrow> (bool \<times> challenge_out) option" where
  "stun_is_challenge_response_str buf len err_msg_size out = do {
     (ret, code, msg) \<leftarrow> stun_is_error_response_str buf len True (ch_err_msg out) err_msg_size;
     let o1 = out\<lparr>ch_err_code := (case code of Some c \<Rightarrow> c | None \<Rightarrow> ch_err_code out), ch_err_msg := msg\<rparr>;
     if ret \<and> (ch_err_code o1 = 401 \<or> ch_err_code o1 = 438) then do {
       sar \<leftarrow> stun_attr_get_first_by_type_str buf len STUN_ATTRIBUTE_REALM;
       value \<leftarrow> stun_attr_get_value buf sar;
       case (sar, value) of
         (Some p, Some v) \<Rightarrow> do {
           realm \<leftarrow> copy_attr_str buf p v 127 True (ch_realm o1);
           let o2 = o1\<lparr>ch_realm := realm\<rparr>;
           tpa \<leftarrow> stun_attr_get_first_by_type_str buf len STUN_ATTRIBUTE_THIRD_PARTY_AUTHORIZATION;
           tpv \<leftarrow> stun_attr_get_value buf tpa;
           (found_oauth, o3) \<leftarrow>
             (case (tpa, tpv) of
                (Some q, Some w) \<Rightarrow> do {
                  l \<leftarrow> stun_attr_get_len buf tpa;
                  if min (nat l) 1025 > 0 then
                    (case ch_server_name o2 of
                       None \<Rightarrow> Some (True, o2)
                     | Some sn \<Rightarrow> do {
                         sn' \<leftarrow> copy_attr_str buf q w 1025 False sn;
                         Some (True, o2\<lparr>ch_server_name := Some sn'\<rparr>)
                       })
                  else Some (False, o2)
                }
              | _ \<Rightarrow> Some (False, o2));
           nsar \<leftarrow> stun_attr_get_first_by_type_str buf len STUN_ATTRIBUTE_NONCE;
           nval \<leftarrow> stun_attr_get_value buf nsar;
           case (nsar, nval) of
             (Some q, Some w) \<Rightarrow> do {
               nonce \<leftarrow> copy_attr_str buf q w 127 True (ch_nonce o3);
               Some (True, o3\<lparr>ch_nonce := nonce, ch_oauth := found_oauth\<rparr>)
             }
           | _ \<Rightarrow> Some (False, o3)
         }
       | _ \<Rightarrow> Some (False, o1)
     } else Some (False, o1)
   }"

section \<open>Requests and responses\<close>

text \<open>The pattern \<^verbatim>\<open>if (!add(buf, len, ...)) return false;\<close>.\<close>

definition and_then ::
    "(bool \<times> buffer \<times> nat) option \<Rightarrow> (buffer \<Rightarrow> nat \<Rightarrow> (bool \<times> buffer \<times> nat) option) \<Rightarrow> (bool \<times> buffer \<times> nat) option" where
  "and_then r k = do { (ok, b, l) \<leftarrow> r; if ok then k b l else Some (False, b, l) }"

definition stun_set_allocate_request_str ::
    "u8 list \<Rightarrow> buffer \<Rightarrow> u32 \<Rightarrow> bool \<Rightarrow> bool \<Rightarrow> u8 \<Rightarrow> bool \<Rightarrow> u8 list option \<Rightarrow> int \<Rightarrow> (bool \<times> buffer \<times> nat) option" where
  "stun_set_allocate_request_str rnd buf lifetime0 af4 af6 transport mobile rt ep = do {
     (b0, l0) \<leftarrow> stun_init_request_str rnd STUN_METHOD_ALLOCATE buf;
     and_then (stun_attr_add_str b0 l0 STUN_ATTRIBUTE_REQUESTED_TRANSPORT (Some [transport, 0, 0, 0]) 4) (\<lambda>b1 l1.
     (let lifetime = (if lifetime0 < 1 then 600 else lifetime0) in
     and_then (stun_attr_add_str b1 l1 STUN_ATTRIBUTE_LIFETIME (Some (bytes32 (nswap32 lifetime))) 4) (\<lambda>b2 l2.
     and_then (if mobile then stun_attr_add_str b2 l2 STUN_ATTRIBUTE_MOBILITY_TICKET (Some [0]) 0
               else Some (True, b2, l2)) (\<lambda>b3 l3.
     and_then (if ep > - 1 then stun_attr_add_str b3 l3 STUN_ATTRIBUTE_EVEN_PORT
                 (Some [if ep \<noteq> 0 then 0x80 else 0x00]) 1
               else Some (True, b3, l3)) (\<lambda>b4 l4.
     (case rt of
        Some t \<Rightarrow> do {
          (_, b5, l5) \<leftarrow> stun_attr_add_str b4 l4 STUN_ATTRIBUTE_RESERVATION_TOKEN (Some t) 8;
          Some (True, b5, l5)
        }
      | None \<Rightarrow>
          and_then (if af4 \<and> \<not> af6 then
                      stun_attr_add_str b4 l4 STUN_ATTRIBUTE_REQUESTED_ADDRESS_FAMILY (Some [1, 0, 0, 0]) 4
                    else Some (True, b4, l4)) (\<lambda>b5 l5.
          and_then (if af6 \<and> \<not> af4 then
                      stun_attr_add_str b5 l5 STUN_ATTRIBUTE_REQUESTED_ADDRESS_FAMILY (Some [2, 0, 0, 0]) 4
                    else Some (True, b5, l5)) (\<lambda>b6 l6.
          (if af4 \<and> af6 then
             stun_attr_add_str b6 l6 STUN_ATTRIBUTE_ADDITIONAL_ADDRESS_FAMILY (Some [2, 0, 0, 0]) 4
           else Some (True, b6, l6))))))))))
   }"

definition stun_set_allocate_response_str ::
    "u8 list \<Rightarrow> addr_mapping \<Rightarrow> buffer \<Rightarrow> nat \<Rightarrow> stun_tid option \<Rightarrow> ioa_addr option \<Rightarrow> ioa_addr option \<Rightarrow> ioa_addr option \<Rightarrow>
     u32 \<Rightarrow> u32 \<Rightarrow> int \<Rightarrow> u8 list option \<Rightarrow> u64 \<Rightarrow> u8 list option \<Rightarrow> bool \<Rightarrow> (bool \<times> buffer \<times> nat) option" where
  "stun_set_allocate_response_str rnd m buf len tid relayed_addr1 relayed_addr2 reflexive_addr lifetime0 max_lifetime
       error_code reason reservation_token mobile_id include_reason_string =
     (if error_code = 0 then do {
        (b0, l0) \<leftarrow> stun_init_success_response_str rnd STUN_METHOD_ALLOCATE buf tid;
        and_then (case relayed_addr1 of Some a \<Rightarrow> stun_attr_add_addr_str m b0 l0 STUN_ATTRIBUTE_XOR_RELAYED_ADDRESS a
                  | None \<Rightarrow> Some (True, b0, l0)) (\<lambda>b1 l1.
        and_then (case relayed_addr2 of Some a \<Rightarrow> stun_attr_add_addr_str m b1 l1 STUN_ATTRIBUTE_XOR_RELAYED_ADDRESS a
                  | None \<Rightarrow> Some (True, b1, l1)) (\<lambda>b2 l2.
        and_then (case reflexive_addr of Some a \<Rightarrow> stun_attr_add_addr_str m b2 l2 STUN_ATTRIBUTE_XOR_MAPPED_ADDRESS a
                  | None \<Rightarrow> Some (True, b2, l2)) (\<lambda>b3 l3. do {
        (_, b4, l4) \<leftarrow> (if reservation_token \<noteq> 0
                        then stun_attr_add_str b3 l3 STUN_ATTRIBUTE_RESERVATION_TOKEN
                               (Some (bytes64 (nswap64 reservation_token))) 8
                        else Some (True, b3, l3));
        let lifetime = (if lifetime0 < 1 then 600 else if lifetime0 > max_lifetime then max_lifetime else lifetime0);
        and_then (stun_attr_add_str b4 l4 STUN_ATTRIBUTE_LIFETIME (Some (bytes32 (nswap32 lifetime))) 4) (\<lambda>b5 l5.
        (case mobile_id of
           Some mid \<Rightarrow> if strlen mid > 0
                      then stun_attr_add_str b5 l5 STUN_ATTRIBUTE_MOBILITY_TICKET (Some mid) (int (strlen mid))
                      else Some (True, b5, l5)
         | None \<Rightarrow> Some (True, b5, l5)))})))
      } else do {
        (b0, l0) \<leftarrow> stun_init_error_response_str rnd STUN_METHOD_ALLOCATE buf (word_of_int error_code) reason tid
                     include_reason_string;
        Some (True, b0, l0)
      })"

text \<open>rn is the number that turn_random_number returns.\<close>

definition stun_set_channel_bind_request_str ::
    "u8 list \<Rightarrow> u32 \<Rightarrow> addr_mapping \<Rightarrow> buffer \<Rightarrow> nat \<Rightarrow> ioa_addr option \<Rightarrow> u16 \<Rightarrow> (u16 \<times> buffer \<times> nat) option" where
  "stun_set_channel_bind_request_str rnd rn m buf len peer_addr channel_number0 = do {
     let channel_number = (if \<not> STUN_VALID_CHANNEL channel_number0
                           then 0x4000 + ucast (rn mod 0x4000) else channel_number0);
     (b0, l0) \<leftarrow> stun_init_request_str rnd STUN_METHOD_CHANNEL_BIND buf;
     (ok1, b1, l1) \<leftarrow> stun_attr_add_channel_number_str b0 l0 channel_number;
     if \<not> ok1 then Some (0, b1, l1) else do {
       (ok2, b2, l2) \<leftarrow> stun_attr_add_addr_str m b1 l1 STUN_ATTRIBUTE_XOR_PEER_ADDRESS
                          (case peer_addr of None \<Rightarrow> addr_set_any | Some a \<Rightarrow> a);
       if \<not> ok2 then Some (0, b2, l2) else Some (channel_number, b2, l2)
     }
   }"

definition stun_set_channel_bind_response_str ::
    "u8 list \<Rightarrow> buffer \<Rightarrow> stun_tid option \<Rightarrow> int \<Rightarrow> u8 list option \<Rightarrow> bool \<Rightarrow> (buffer \<times> nat) option" where
  "stun_set_channel_bind_response_str rnd buf tid error_code reason include_reason_string =
     (if error_code = 0 then stun_init_success_response_str rnd STUN_METHOD_CHANNEL_BIND buf tid
      else stun_init_error_response_str rnd STUN_METHOD_CHANNEL_BIND buf (word_of_int error_code) reason tid
             include_reason_string)"

definition stun_set_binding_request_str :: "u8 list \<Rightarrow> buffer \<Rightarrow> (buffer \<times> nat) option" where
  "stun_set_binding_request_str rnd buf = stun_init_request_str rnd STUN_METHOD_BINDING buf"

definition stun_set_binding_response_str ::
    "u8 list \<Rightarrow> addr_mapping \<Rightarrow> buffer \<Rightarrow> stun_tid option \<Rightarrow> ioa_addr option \<Rightarrow> int \<Rightarrow> u8 list option \<Rightarrow> u32 \<Rightarrow> bool \<Rightarrow>
     bool \<Rightarrow> bool \<Rightarrow> (bool \<times> buffer \<times> nat) option" where
  "stun_set_binding_response_str rnd m buf tid reflexive_addr error_code reason cookie old_stun
       stun_backward_compatibility include_reason_string =
     (if error_code = 0 then do {
        (b0, l0) \<leftarrow> (if \<not> old_stun then stun_init_success_response_str rnd STUN_METHOD_BINDING buf tid
                     else old_stun_init_success_response_str rnd STUN_METHOD_BINDING buf tid cookie);
        and_then (case reflexive_addr of
                    Some a \<Rightarrow> if \<not> old_stun then stun_attr_add_addr_str m b0 l0 STUN_ATTRIBUTE_XOR_MAPPED_ADDRESS a
                              else Some (True, b0, l0)
                  | None \<Rightarrow> Some (True, b0, l0)) (\<lambda>b1 l1.
        (case reflexive_addr of
           Some a \<Rightarrow> if stun_backward_compatibility then stun_attr_add_addr_str m b1 l1 STUN_ATTRIBUTE_MAPPED_ADDRESS a
                     else Some (True, b1, l1)
         | None \<Rightarrow> Some (True, b1, l1)))
      } else if \<not> old_stun then do {
        (b0, l0) \<leftarrow> stun_init_error_response_str rnd STUN_METHOD_BINDING buf (word_of_int error_code) reason tid
                     include_reason_string;
        Some (True, b0, l0)
      } else do {
        (b0, l0) \<leftarrow> old_stun_init_error_response_str rnd STUN_METHOD_BINDING buf (word_of_int error_code) reason tid
                     cookie include_reason_string;
        Some (True, b0, l0)
      })"

definition stun_is_binding_request_str :: "buffer \<Rightarrow> nat \<Rightarrow> nat \<Rightarrow> bool option" where
  "stun_is_binding_request_str buf len offset =
     (if offset < len then do {
        let b = drop offset buf;
        let l = len - offset;
        c \<leftarrow> stun_is_command_message_str b l;
        if c then do {
          r \<leftarrow> stun_is_request_str b l;
          m \<leftarrow> stun_get_method_str b l;
          Some (r \<and> m = STUN_METHOD_BINDING)
        } else Some False
      } else Some False)"

definition stun_is_binding_response_str :: "buffer \<Rightarrow> nat \<Rightarrow> bool option" where
  "stun_is_binding_response_str buf len = do {
     c \<leftarrow> stun_is_command_message_str buf len;
     m \<leftarrow> stun_get_method_str buf len;
     if c \<and> m = STUN_METHOD_BINDING then stun_is_response_str buf len else Some False
   }"

section \<open>Lifetimes\<close>

definition stun_adjust_allocate_lifetime :: "turn_time_t \<Rightarrow> turn_time_t \<Rightarrow> turn_time_t \<Rightarrow> turn_time_t" where
  "stun_adjust_allocate_lifetime lifetime0 max_allowed_lifetime max_lifetime =
     (let lifetime = (if lifetime0 = 0 then 600 else if lifetime0 < 600 then 600
                      else if lifetime0 > max_allowed_lifetime then max_allowed_lifetime else lifetime0)
      in if max_lifetime \<noteq> 0 \<and> max_lifetime < lifetime then max_lifetime else lifetime)"

section \<open>Lemmas on the builders\<close>

text \<open>Changing the transaction id, or any other byte of the header but the length, does not change
  the attributes.\<close>

lemma header_change:
  assumes "length b' = length b" "len \<le> length b"
    and same: "\<And>i. i < length b \<Longrightarrow> i = 2 \<or> i = 3 \<or> 20 \<le> i \<Longrightarrow> b' ! i = b ! i"
  shows "attr_offsets b' len = attr_offsets b len" "attrs b' len = attrs b len" "wf_msg b' len = wf_msg b len"
proof -
  have e: "msg_end b' len = msg_end b len"
  proof (cases "len < 20")
    case False
    then have "b' ! 2 = b ! 2" "b' ! 3 = b ! 3" using assms(2) same by auto
    then show ?thesis by (simp add: msg_end_def)
  qed (simp add: msg_end_def)
  have c: "attr_chain b' e 20 = attr_chain b e 20 \<and> attr_stop b' e 20 = attr_stop b e 20" if "e \<le> len" for e
    using attr_chain_cong [of 20 e b' b] same assms(2) that by auto
  show off: "attr_offsets b' len = attr_offsets b len"
    using e c msg_end_bounds [of b len] by (auto simp: attr_offsets_def split: option.splits)
  have "atype b' p = atype b p \<and> avalue b' p = avalue b p" if "p \<in> set (attr_offsets b len)" for p
    using offsets_inside [OF that assms(2)] attr_fields_cong [of p b b'] same assms by auto
  then show "attrs b' len = attrs b len" unfolding attrs_def off by simp
  show "wf_msg b' len = wf_msg b len" using e c [of len] assms(1) by (simp add: wf_msg_def)
qed

lemma cpy_tid_in:
  assumes "12 \<le> length tid" "20 \<le> length b"
  shows "cpy_tid_opt (Some tid) b = Some (patch b 8 (take 12 tid))"
  using assms by (simp add: cpy_tid_opt_def stun_tid_message_cpy_def load_def store_def)

lemma patch_tid:
  assumes "12 \<le> length tid" "20 \<le> length b" "len \<le> length b"
  shows "attrs (patch b 8 (take 12 tid)) len = attrs b len" "wf_msg (patch b 8 (take 12 tid)) len = wf_msg b len"
    "length (patch b 8 (take 12 tid)) = length b" "take 12 (drop 8 (patch b 8 (take 12 tid))) = take 12 tid"
proof -
  let ?b = "patch b 8 (take 12 tid)"
  have "?b ! i = b ! i" if "i < length b" "i = 2 \<or> i = 3 \<or> 20 \<le> i" for i
    using that assms by (auto simp: nth_patch)
  moreover have l: "length ?b = length b" using assms by simp
  ultimately show "attrs ?b len = attrs b len" "wf_msg ?b len = wf_msg b len"
    using header_change [of ?b b len] assms(3) by auto
  show "length ?b = length b" by (rule l)
  show "take 12 (drop 8 ?b) = take 12 tid" using assms by (simp add: min_absorb2)
qed

lemma init_success_in:
  assumes "20 \<le> length b" "12 \<le> length rnd" "12 \<le> length tid"
  obtains b0 where "stun_init_success_response_str rnd method b (Some tid) = Some (b0, 20)" "wf_msg b0 20"
    "attrs b0 20 = []" "length b0 = length b" "take 12 (drop 8 b0) = take 12 tid"
proof -
  let ?h = "patch b 0 (header (stun_make_success_response method) STUN_MAGIC_COOKIE rnd)"
  have l: "length ?h = length b" using assms by simp
  show ?thesis
    using that [of "patch ?h 8 (take 12 tid)"] init_command_header [OF assms(1,2)]
      header_wf [OF assms(1,2), of "stun_make_success_response method" STUN_MAGIC_COOKIE]
      patch_tid [of tid ?h 20] cpy_tid_in [of tid ?h] assms l
    by (simp add: stun_init_success_response_str_def)
qed

lemma and_then_ok [simp]: "and_then (Some (True, b, l)) k = k b l"
  by (simp add: and_then_def)

section \<open>Properties\<close>

text \<open>The lifetime granted to an allocation is between the default of 600 seconds and the
  configured maximum, cut to the lifetime of the credentials where these end earlier; it is never
  zero when the credentials are limited to a positive time, and adjusting it again changes
  nothing.  The configured maximum is required to be at least the default.\<close>

theorem stun_adjust_allocate_lifetime_bounds:
  assumes "600 \<le> max_allowed"
  shows "let r = stun_adjust_allocate_lifetime lifetime max_allowed max_lifetime in
     r \<le> max_allowed \<and> (max_lifetime \<noteq> 0 \<longrightarrow> r \<le> max_lifetime) \<and> r \<noteq> 0 \<and>
     (600 \<le> r \<or> r = max_lifetime) \<and>
     (600 \<le> lifetime \<and> lifetime \<le> max_allowed \<and> (max_lifetime = 0 \<or> lifetime \<le> max_lifetime) \<longrightarrow> r = lifetime) \<and>
     stun_adjust_allocate_lifetime r max_allowed max_lifetime = r"
proof -
  define l where "l = (if lifetime = 0 then 600 else if lifetime < 600 then 600
    else if lifetime > max_allowed then max_allowed else lifetime)"
  define r where "r = (if max_lifetime \<noteq> 0 \<and> max_lifetime < l then max_lifetime else l)"
  have r: "stun_adjust_allocate_lifetime lifetime max_allowed max_lifetime = r"
    by (simp add: stun_adjust_allocate_lifetime_def r_def l_def)
  have l: "600 \<le> l" "l \<le> max_allowed" "600 \<le> lifetime \<and> lifetime \<le> max_allowed \<longrightarrow> l = lifetime"
    using assms by (auto simp: l_def not_less)
  then have "l \<noteq> 0" by auto
  with l have r1: "r \<le> max_allowed" "max_lifetime \<noteq> 0 \<longrightarrow> r \<le> max_lifetime" "r \<noteq> 0" "600 \<le> r \<or> r = max_lifetime"
    "max_lifetime = 0 \<or> l \<le> max_lifetime \<longrightarrow> r = l"
    by (auto simp: r_def not_less)
  have "stun_adjust_allocate_lifetime r max_allowed max_lifetime = r"
  proof (cases "r < 600")
    case True
    then have "r = max_lifetime" "max_lifetime \<noteq> 0" using r1 by auto
    then show ?thesis using True r1(3) by (simp add: stun_adjust_allocate_lifetime_def Let_def)
  next
    case False
    then show ?thesis using r1 by (auto simp: stun_adjust_allocate_lifetime_def Let_def not_less)
  qed
  then show ?thesis using r r1 l(3) by (auto simp: Let_def)
qed

theorem stun_adjust_allocate_lifetime_bounds_witness:
  "stun_adjust_allocate_lifetime 100000 3600 0 \<le> 3600"
  using stun_adjust_allocate_lifetime_bounds [of 3600 100000 0] by (simp add: Let_def)

text \<open>One step of a builder that appends a fixed number of bytes.\<close>

lemma add_field:
  assumes "wf_msg b len" "length v = n" "n < 65536" "len + 4 + pad4 n \<le> length b" "len + 4 + pad4 n < 65507"
  obtains b' where "stun_attr_add_str b len t (Some v) (int n) = Some (True, b', len + 4 + pad4 n)"
    "wf_msg b' (len + 4 + pad4 n)" "length b' = length b"
    "attrs b' (len + 4 + pad4 n) = attrs b len @ [(unat t, v)]" "take 12 (drop 8 b') = take 12 (drop 8 b)"
proof -
  obtain b' where b': "stun_attr_add_str b len t (Some v) (int n) = Some (True, b', len + 4 + pad4 n)"
      "wf_msg b' (len + 4 + pad4 n)" "length b' = length b"
      "attrs b' (len + 4 + pad4 n) = attrs b len @ [(unat t, v)]"
      "\<And>i. i < len \<Longrightarrow> i \<noteq> 2 \<Longrightarrow> i \<noteq> 3 \<Longrightarrow> b' ! i = b ! i"
    using add_str_append [OF assms(1), of n v t] assms by auto
  moreover have "take 12 (drop 8 b') = take 12 (drop 8 b)"
    by (rule nth_equalityI) (use wf_msgD [OF assms(1)] b'(3,5) in auto)
  ultimately show ?thesis using that by blast
qed

definition good_public :: "addr_mapping \<Rightarrow> ioa_addr \<Rightarrow> bool" where
  "good_public m a \<longleftrightarrow> wf_addr (map_addr_from_private_to_public m a) \<and>
     sa_family (map_addr_from_private_to_public m a) \<in> {AF_INET, AF_INET6}"

lemma add_addr_field:
  assumes "wf_msg b len" "good_public m a" "len + 24 \<le> length b" "len + 24 < 65507"
  obtains b' len' where "stun_attr_add_addr_str m b len t a = Some (True, b', len')" "wf_msg b' len'"
    "attrs b' len' = attrs b len @ [(unat t, addr_wire (xor_attr (uint t)) STUN_MAGIC_COOKIE (take 12 (drop 8 b))
       (map_addr_from_private_to_public m a))]"
    "length b' = length b" "len' \<le> len + 24" "take 12 (drop 8 b') = take 12 (drop 8 b)"
  using add_addr_append [OF assms(1) refl _ _ assms(3,4), of m a t] assms(2) by (auto simp: good_public_def)



section \<open>Error responses\<close>

lemma length_error_avalue [simp]: "length (error_avalue b0 c r) = 513"
  by (cases r) (simp_all add: error_avalue_def strncpy_bytes_def)

lemma error_avalue_code:
  "error_avalue b0 c r ! 2 = word_of_int (c div 100)" "error_avalue b0 c r ! 3 = word_of_int (c mod 100)"
  "error_avalue b0 c r ! 512 = 0"
  by (cases r; simp add: error_avalue_def strncpy_bytes_def)+

lemma error_alen_bounds:
  "\<exists>n. error_alen (error_avalue b0 c r) = int n \<and> 4 \<le> n \<and> n \<le> 512 \<and> pad4 n = n"
proof -
  let ?s = "strlen (drop 4 (error_avalue b0 c r))"
  have "drop 4 (error_avalue b0 c r) ! 508 = 0" using error_avalue_code(3) [of b0 c r] by simp
  moreover have "508 < length (drop 4 (error_avalue b0 c r))" by simp
  ultimately have "?s \<le> 508"
    unfolding strlen_def cstr_def by (metis (mono_tags, lifting) length_takeWhile_le linorder_not_less nth_length_takeWhile
        nth_mem set_takeWhileD takeWhile_nth)
  moreover have "error_alen (error_avalue b0 c r) = int (pad4 (4 + ?s))"
    by (simp add: error_alen_def Let_def pad4_def zmod_int) presburger
  moreover have "pad4 (4 + ?s) \<le> 512" if "?s \<le> 508" using that unfolding pad4_eq by presburger
  moreover have "pad4 (pad4 x) = pad4 x" for x by (simp add: pad4_eq)
  ultimately show ?thesis using le_pad4 [of "4 + ?s"] by (intro exI [of _ "pad4 (4 + ?s)"]) auto
qed

text \<open>The message that stun_init_error_response_str builds: one ERROR-CODE attribute.\<close>

definition error_value :: "u16 \<Rightarrow> u8 list \<Rightarrow> bool" where
  "error_value code v \<longleftrightarrow> 4 \<le> length v \<and> v ! 2 = word_of_int (uint code div 100) \<and> v ! 3 = word_of_int (uint code mod 100)"

lemma error_response_in:
  assumes buf: "600 \<le> length buf" "12 \<le> length rnd" "12 \<le> length tid"
  obtains b len v where "stun_init_error_response_str rnd meth buf code reason (Some tid) inc = Some (b, len)"
    "wf_msg b len" "length b = length buf" "len \<le> 536" "attrs b len = [(unat STUN_ATTRIBUTE_ERROR_CODE, v)]" "error_value code v"
    "take 12 (drop 8 b) = take 12 tid" "rd16 b 0 = Some (nswap16 (stun_make_error_response meth AND 0x3FFF))"
proof -
  let ?t = "stun_make_error_response meth" and ?ec = "STUN_ATTRIBUTE_ERROR_CODE"
  define h where "h = patch buf 0 (header ?t STUN_MAGIC_COOKIE rnd)"
  have h: "length h = length buf" "wf_msg h 20" "attrs h 20 = []"
    using buf header_wf [of buf rnd ?t STUN_MAGIC_COOKIE] by (simp_all add: h_def)
  define r where "r = (if inc then (if inc \<and> (case reason of None \<Rightarrow> True | Some r \<Rightarrow> cstr r = lit ''Unknown error'')
      then Some (get_default_reason (uint code)) else reason) else None)"
  let ?av = "error_avalue 0 (uint code) r"
  obtain n where n: "error_alen ?av = int n" "4 \<le> n" "n \<le> 512" "pad4 n = n" using error_alen_bounds by blast
  obtain b1 where b1: "stun_attr_add_str h 20 ?ec (Some ?av) (int n) = Some (True, b1, 24 + n)"
      "wf_msg b1 (24 + n)" "length b1 = length h" "attrs b1 (24 + n) = attrs h 20 @ [(unat ?ec, take n ?av)]"
      "\<And>i. i < 20 \<Longrightarrow> i \<noteq> 2 \<Longrightarrow> i \<noteq> 3 \<Longrightarrow> b1 ! i = h ! i"
    using add_str_append [OF h(2), of n ?av ?ec] n h(1) buf(1) by auto
  define b where "b = patch b1 8 (take 12 tid)"
  have b: "attrs b (24 + n) = [(unat ?ec, take n ?av)]" "wf_msg b (24 + n)" "length b = length buf" "take 12 (drop 8 b) = take 12 tid"
    using patch_tid [of tid b1 "24 + n"] b1 h buf wf_msgD(1) [OF b1(2)] n(3) by (simp_all add: b_def)
  have build: "stun_init_error_response_str rnd meth buf code reason (Some tid) inc = Some (b, 24 + n)"
    using init_command_header [of buf rnd ?t] buf b1(1) n(1) cpy_tid_in [of tid b1] b1(3) h(1)
    by (simp add: stun_init_error_response_str_def stun_init_error_response_common_str_def h_def [symmetric]
        r_def [symmetric] b_def Let_def)
  have "b ! i = h ! i" if "i < 2" for i
    using that nth_patch [of 8 "take 12 tid" b1 i] b1(3) b1(5) [of i] h(1) buf(1,3) by (simp add: b_def)
  then have "rd16 b 0 = rd16 h 0" using b(3) h(1) buf(1) by (simp add: rd16_def)
  then have "rd16 b 0 = Some (nswap16 (?t AND 0x3FFF))"
    using header_fields(1) [of buf rnd ?t STUN_MAGIC_COOKIE] buf by (simp add: h_def)
  moreover have "error_value code (take n ?av)"
    using n(2) error_avalue_code(1,2) [of 0 "uint code" r] by (simp add: error_value_def)
  ultimately show ?thesis using that [OF build b(2,3) _ b(1)] n(3) b(4) by simp
qed

text \<open>Reading an attribute that is known from the list of attributes.\<close>

lemma attr_found:
  assumes "len \<le> length b" "map_of (attrs b len) (unat t) = Some v"
  obtains p where "stun_attr_get_first_by_type_str b len t = Some (Some p)" "stun_attr_get_len b (Some p) = Some (int (length v))"
    "stun_attr_get_value b (Some p) = Some (if v = [] then None else Some (p + 4))"
    "p + 4 + length v \<le> length b" "take (length v) (drop (p + 4) b) = v"
proof -
  obtain p where p: "find (\<lambda>p. atype b p = unat t) (attr_offsets b len) = Some p" "avalue b p = v"
    using assms(2) map_of_attrs_find by blast
  then have pin: "p \<in> set (attr_offsets b len)" by (auto simp: find_Some_iff)
  note i = offsets_inside [OF pin assms(1)]
  have l: "length v = alen b p" using i(4) p(2) by (auto simp: avalue_def)
  show ?thesis
    using that [of p] get_first_by_type_in [OF assms(1), of t] p l i get_len_in [of p b] get_value_in [of p b]
    by (auto simp: avalue_def)
qed

lemma attr_absent:
  assumes "len \<le> length b" "map_of (attrs b len) (unat t) = None"
  shows "stun_attr_get_first_by_type_str b len t = Some None"
  using get_first_by_type_in [OF assms(1), of t] assms(2) map_of_attrs_find [of b len "unat t"]
  by (cases "find (\<lambda>p. atype b p = unat t) (attr_offsets b len)") auto

lemma error_code_sum:
  assumes "unat code < 25600"
  shows "uint (word_of_int (uint code div 100) :: u8) * 100 + uint (word_of_int (uint code mod 100) :: u8) = uint code"
proof -
  obtain x where x: "uint code = x" "0 \<le> x" "x < 25600"
    using assms by (metis uint_ge_0 of_nat_less_iff of_nat_numeral int_nat_eq unat_eq_nat_uint)
  then have "x div 100 < 256" "x mod 100 < 256" "0 \<le> x div 100" "0 \<le> x mod 100" by auto
  with x show ?thesis by (simp add: uint_word_of_int)
qed

lemma is_error_response_read:
  assumes "20 \<le> len" "len \<le> length b" "rd16 b 0 = Some (nswap16 (stun_make_error_response meth AND 0x3FFF))"
    and "map_of (attrs b len) (unat STUN_ATTRIBUTE_ERROR_CODE) = Some v" "error_value code v" "unat code < 25600"
  shows "stun_is_error_response_str b len True None 0 = Some (True, Some (uint code), None)"
proof -
  let ?t = "stun_make_error_response meth"
  obtain p where p: "stun_attr_get_first_by_type_str b len STUN_ATTRIBUTE_ERROR_CODE = Some (Some p)"
    "stun_attr_get_len b (Some p) = Some (int (length v))" "stun_attr_get_value b (Some p) = Some (if v = [] then None else Some (p + 4))"
    "p + 4 + length v \<le> length b" "take (length v) (drop (p + 4) b) = v"
    using attr_found [OF assms(2,4)] by blast
  have nth: "b ! (p + 4 + k) = v ! k" if "k < 4" for k
    using arg_cong [OF p(5), of "\<lambda>l. l ! k"] that assms(5) p(4) by (simp add: error_value_def)
  have ty: "is_channel_msg_str b len = Some False" "stun_get_msg_type_str b len = Some (?t AND 0x3FFF)"
    using assms(1,3) channel_type [of ?t] by (simp_all add: is_channel_msg_str_def stun_get_msg_type_str_def and.assoc)
  show ?thesis
    using ty p nth [of 2] nth [of 3] class_of_make(4) [of meth] error_code_sum [OF assms(6)] assms(5)
    by (auto simp: stun_is_error_response_str_def IS_STUN_ERR_RESP_def rd8_def error_value_def Let_def)
qed

lemma copy_attr_read:
  assumes "stun_attr_get_len b (Some p) = Some (int (length v))" "p + 4 + length v \<le> length b" "take (length v) (drop (p + 4) b) = v"
    and "length v \<le> 127" "128 \<le> length dst" "0 \<notin> set v"
  shows "\<exists>d. copy_attr_str b p (p + 4) 127 True dst = Some d \<and> cstr d = v"
proof -
  have "copy_attr_str b p (p + 4) 127 True dst = Some (v @ 0 # drop (length v + 1) dst)"
    using assms by (simp add: copy_attr_str_def load_def store_def wr8_def patch_def min_absorb1)
  then show ?thesis using cstr_nonzero [OF assms(6)] by blast
qed

lemma challenge_read:
  assumes "20 \<le> len" "len \<le> length b" "rd16 b 0 = Some (nswap16 (stun_make_error_response meth AND 0x3FFF))"
    and "map_of (attrs b len) (unat STUN_ATTRIBUTE_ERROR_CODE) = Some v" "error_value code v" "code \<in> {401, 438}"
    and "map_of (attrs b len) (unat STUN_ATTRIBUTE_REALM) = Some realm" "realm \<noteq> []" "length realm \<le> 127" "0 \<notin> set realm"
    and "map_of (attrs b len) (unat STUN_ATTRIBUTE_NONCE) = Some n" "n \<noteq> []" "length n \<le> 127" "0 \<notin> set n"
    and "ch_err_msg out = None" "ch_server_name out = None" "128 \<le> length (ch_realm out)" "128 \<le> length (ch_nonce out)"
  shows "\<exists>out'. stun_is_challenge_response_str b len 0 out = Some (True, out') \<and>
    ch_err_code out' = uint code \<and> cstr (ch_realm out') = realm \<and> cstr (ch_nonce out') = n"
proof -
  let ?tpa = "STUN_ATTRIBUTE_THIRD_PARTY_AUTHORIZATION"
  have code: "unat code < 25600" "uint code = 401 \<or> uint code = 438" using assms(6) by auto
  have err: "stun_is_error_response_str b len True None 0 = Some (True, Some (uint code), None)"
    by (rule is_error_response_read [OF assms(1-5) code(1)])
  obtain p where p: "stun_attr_get_first_by_type_str b len STUN_ATTRIBUTE_REALM = Some (Some p)"
    "stun_attr_get_len b (Some p) = Some (int (length realm))" "stun_attr_get_value b (Some p) = Some (Some (p + 4))"
    "p + 4 + length realm \<le> length b" "take (length realm) (drop (p + 4) b) = realm"
    using attr_found [OF assms(2,7)] assms(8) by auto
  obtain q where q: "stun_attr_get_first_by_type_str b len STUN_ATTRIBUTE_NONCE = Some (Some q)"
    "stun_attr_get_len b (Some q) = Some (int (length n))" "stun_attr_get_value b (Some q) = Some (Some (q + 4))"
    "q + 4 + length n \<le> length b" "take (length n) (drop (q + 4) b) = n"
    using attr_found [OF assms(2,11)] assms(12) by auto
  obtain dr dn where d: "copy_attr_str b p (p + 4) 127 True (ch_realm out) = Some dr" "cstr dr = realm"
    "copy_attr_str b q (q + 4) 127 True (ch_nonce out) = Some dn" "cstr dn = n"
    using copy_attr_read [OF p(2,4,5) assms(9,17,10)] copy_attr_read [OF q(2,4,5) assms(13,18,14)] by blast
  note res = err p q d code(2) assms(15,16)
  show ?thesis
  proof (cases "map_of (attrs b len) (unat ?tpa)")
    case None
    then show ?thesis using res attr_absent [OF assms(2) None] by (auto simp: stun_is_challenge_response_str_def stun_attr_get_value_def Let_def)
  next
    case (Some w)
    obtain r where "stun_attr_get_first_by_type_str b len ?tpa = Some (Some r)" "stun_attr_get_len b (Some r) = Some (int (length w))"
      "stun_attr_get_value b (Some r) = Some (if w = [] then None else Some (r + 4))"
      using attr_found [OF assms(2) Some] by blast
    then show ?thesis using res by (auto simp: stun_is_challenge_response_str_def Let_def)
  qed
qed

text \<open>C33: the error code of an error response is read back by the client, for every code below
  25600, with or without a reason string and whatever the reason, and the response is recognised
  as an error response of the request's transaction.\<close>

theorem error_response_code_roundtrip:
  assumes buf: "600 \<le> length buf" "12 \<le> length rnd" "12 \<le> length tid" and code: "unat code < 25600"
  shows "\<exists>b len. stun_init_error_response_str rnd meth buf code reason (Some tid) inc = Some (b, len) \<and>
     wf_msg b len \<and> stun_tid_from_message_str b len = Some (take 12 tid) \<and>
     stun_is_error_response_str b len True None 0 = Some (True, Some (uint code), None)"
proof -
  obtain b len v where b: "stun_init_error_response_str rnd meth buf code reason (Some tid) inc = Some (b, len)" "wf_msg b len"
    "length b = length buf" "attrs b len = [(unat STUN_ATTRIBUTE_ERROR_CODE, v)]" "error_value code v"
    "take 12 (drop 8 b) = take 12 tid" "rd16 b 0 = Some (nswap16 (stun_make_error_response meth AND 0x3FFF))"
    using error_response_in [OF buf] by blast
  have "stun_tid_from_message_str b len = Some (take 12 tid)"
    using b(3,6) buf(1) by (simp add: stun_tid_from_message_str_def load_def)
  then show ?thesis
    using b is_error_response_read [OF _ _ b(7) _ b(5) code] wf_msgD [OF b(2)] by auto
qed

theorem error_response_code_roundtrip_witness:
  "\<exists>b len. stun_init_error_response_str (replicate 12 1) STUN_METHOD_ALLOCATE (replicate 600 0) 437 None
       (Some (replicate 12 7)) True = Some (b, len) \<and>
     stun_is_error_response_str b len True None 0 = Some (True, Some 437, None)"
  using error_response_code_roundtrip [of "replicate 600 0" "replicate 12 1" "replicate 12 7" 437
      STUN_METHOD_ALLOCATE None True] by auto

end
