(* ===== verification/Stun_Frame.thy ===== *)
theory Stun_Frame
  imports Stun_Codec C_String
begin

text \<open>
  Framing (src/client/ns_turn_msg.c): ChannelData messages, the recognition of HTTP requests, and
  the function that finds the length of the next message in a byte stream.
\<close>

section \<open>ChannelData\<close>

definition stun_init_channel_message_str ::
    "u16 \<Rightarrow> buffer \<Rightarrow> nat \<Rightarrow> int \<Rightarrow> bool \<Rightarrow> (bool \<times> buffer \<times> nat) option" where
  "stun_init_channel_message_str chnumber buf len dlen do_padding =
     (let rlen0 = word_of_int dlen :: u16 in
      if dlen < 0 \<or> MAX_STUN_MESSAGE_SIZE < 4 + dlen then Some (False, buf, len) else do {
        b1 \<leftarrow> wr16 buf 0 (nswap16 chnumber);
        b2 \<leftarrow> wr16 b1 2 (nswap16 (word_of_int dlen));
        let rlen = (if do_padding \<and> rlen0 AND 0x0003 \<noteq> 0 then push_bit 2 (drop_bit 2 rlen0 + 1) else rlen0);
        Some (True, b2, 4 + unat rlen)
      })"

text \<open>The result is the return value, the new value of blen and the channel number if it is
  written.\<close>

definition stun_is_channel_message_str ::
    "buffer \<Rightarrow> nat \<Rightarrow> bool \<Rightarrow> (bool \<times> nat \<times> u16 option) option" where
  "stun_is_channel_message_str buf blen mandatory_padding =
     (if blen < 4 then Some (False, blen, None) else do {
        w0 \<leftarrow> rd16 buf 0;
        let chn = nswap16 w0;
        if \<not> STUN_VALID_CHANNEL chn then Some (False, blen, None) else do {
          let blen16 = ((if blen > 65535 then 65535 else of_nat blen) :: u16);
          let datalen_actual = blen16 - 4;
          w1 \<leftarrow> rd16 buf 2;
          let datalen_header = nswap16 w1;
          if datalen_header > datalen_actual then Some (False, blen, None)
          else if datalen_header \<noteq> datalen_actual \<and> datalen_actual AND 0x0003 \<noteq> 0 \<and>
                  (mandatory_padding \<or> datalen_header = 0 \<or> datalen_actual - datalen_header > 3)
          then Some (False, blen, None)
          else Some (True, unat datalen_header + 4, Some chn)
        }
      })"

section \<open>HTTP\<close>

text \<open>head is a string without its terminating zero, full the memory from a pointer on.\<close>

fun sheadof :: "u8 list \<Rightarrow> u8 list \<Rightarrow> bool \<Rightarrow> bool option" where
  "sheadof [] full ignore_case = Some True"
| "sheadof (h # hs) [] ignore_case = None"
| "sheadof (h # hs) (f # fs) ignore_case =
     (if h \<noteq> f then
        (if ignore_case \<and> tolower h = tolower f then sheadof hs fs ignore_case else Some False)
      else sheadof hs fs ignore_case)"

fun findstr_loop :: "u8 list \<Rightarrow> u8 list \<Rightarrow> bool \<Rightarrow> nat \<Rightarrow> nat \<Rightarrow> nat option option" where
  "findstr_loop hay needle ignore_case i 0 = Some None"
| "findstr_loop hay needle ignore_case i (Suc n) = do {
     h \<leftarrow> sheadof needle (drop i hay) ignore_case;
     if h then Some (Some i) else findstr_loop hay needle ignore_case (i + 1) n
   }"

definition findstr :: "u8 list \<Rightarrow> nat \<Rightarrow> u8 list \<Rightarrow> bool \<Rightarrow> nat option option" where
  "findstr hay slen needle ignore_case =
     (if slen > 0 then
        (let nlen = length needle in
         if nlen \<le> slen then findstr_loop hay needle ignore_case 0 (slen - nlen + 1) else Some None)
      else Some None)"

definition has_prefix :: "u8 list \<Rightarrow> nat \<Rightarrow> u8 list \<Rightarrow> bool \<Rightarrow> bool option" where
  "has_prefix buf blen prefix ignore_case =
     (if length prefix \<le> blen then sheadof prefix buf ignore_case else Some False)"

text \<open>strtoul on memory: the conversion reads up to the first character that is neither leading
  white space nor sign nor digit; None when there is none in the object.\<close>

definition strtoul_mem :: "nat \<Rightarrow> u8 list \<Rightarrow> u64 option" where
  "strtoul_mem base s =
     (let s1 = dropWhile isspace s;
          s2 = (case s1 of [] \<Rightarrow> [] | c # t \<Rightarrow> if c = 0x2D \<or> c = 0x2B then t else s1)
      in if takeWhile (isdigit_base base) s2 = s2 then None else Some (strtoul base s))"

text \<open>The operator || on conditions that may fault.\<close>

definition or_else :: "bool option \<Rightarrow> bool option \<Rightarrow> bool option" where
  "or_else p q = do { b \<leftarrow> p; if b then Some True else q }"

text \<open>The lengths are those of objects in memory, well below 2 ^ 30, and clen is below 2 ^ 28, so
  that the int of the code does not overflow.\<close>

definition is_http :: "u8 list \<Rightarrow> nat \<Rightarrow> int option" where
  "is_http s blen =
     (if blen \<ge> 12 then do {
        p \<leftarrow> or_else (has_prefix s blen (lit ''GET '') False)
              (or_else (has_prefix s blen (lit ''POST '') False)
              (or_else (has_prefix s blen (lit ''DELETE '') False)
                 (has_prefix s blen (lit ''PUT '') False)));
        if p then do {
          sp \<leftarrow> findstr (drop 4 s) (blen - 4) (lit '' HTTP/'') False;
          case sp of None \<Rightarrow> Some 0 | Some o1 \<Rightarrow> do {
            let diff_blen = 4 + o1 + 6;
            if diff_blen + 4 \<le> blen then do {
              sp2 \<leftarrow> findstr (drop diff_blen s) (blen - diff_blen) [0x0D, 0x0A, 0x0D, 0x0A] False;
              case sp2 of None \<Rightarrow> Some 0 | Some o2 \<Rightarrow> do {
                let sp = diff_blen + o2;
                let ret_len = int sp + 4;
                cl \<leftarrow> findstr s sp (lit ''content-length: '') True;
                case cl of None \<Rightarrow> Some ret_len | Some c \<Rightarrow> do {
                  clen \<leftarrow> strtoul_mem 10 (drop (c + 16) s);
                  if clen > 0 \<and> clen < 0x0FFFFFFF then Some (ret_len + uint clen) else Some ret_len
                }
              }
            } else Some 0
          }
        } else Some 0
      } else Some 0)"

section \<open>The length of the next message\<close>

text \<open>The result is the return value and app_len if it is written.\<close>

definition stun_get_message_len_str :: "buffer \<Rightarrow> nat \<Rightarrow> bool \<Rightarrow> (int \<times> nat option) option" where
  "stun_get_message_len_str buf blen padding =
     (if blen > 0 then do {
        stun \<leftarrow> (if blen \<ge> STUN_HEADER_LENGTH then do {
            w0 \<leftarrow> rd16 buf 0;
            if \<not> STUN_VALID_CHANNEL (nswap16 w0) then do {
              b0 \<leftarrow> rd8 buf 0;
              if b0 AND 0xC0 = 0 then do {
                ck \<leftarrow> rd32 buf 4;
                if nswap32 ck = STUN_MAGIC_COOKIE then do {
                  w1 \<leftarrow> rd16 buf 2;
                  if nswap16 w1 AND 0x0003 = 0 then
                    (let len = nswap16 w1 + 20 in
                     if unat len \<le> blen then Some (Some (unat len)) else Some None)
                  else Some None
                } else Some None
              } else Some None
            } else Some None
          } else Some None);
        case stun of Some n \<Rightarrow> Some (int n, Some n) | None \<Rightarrow> do {
          http_len \<leftarrow> is_http buf blen;
          if http_len > 0 \<and> nat http_len \<le> blen then Some (http_len, Some (nat http_len))
          else if blen \<ge> 4 then do {
            w0 \<leftarrow> rd16 buf 0;
            if STUN_VALID_CHANNEL (nswap16 w0) then do {
              w1 \<leftarrow> rd16 buf 2;
              let bret0 = (4 + ucast (nswap16 w1) :: u32);
              let bret = (if padding \<and> bret0 AND 0x0003 \<noteq> 0 then push_bit 2 (drop_bit 2 bret0 + 1) else bret0);
              if unat bret \<le> blen then Some (sint bret, Some (unat bret0)) else Some (- 1, Some (unat bret0))
            } else Some (- 1, None)
          } else Some (- 1, None)
        }
      } else Some (- 1, None))"

section \<open>Lemmas\<close>

lemma and3_mod: "unat (w AND 3) = unat w mod 4"
proof -
  have "w AND 3 = take_bit 2 w" by (simp add: take_bit_eq_mask mask_eq_exp_minus_1)
  then have "unat (w AND 3) = take_bit 2 (unat w)" by (simp only: unsigned_take_bit_eq)
  then show ?thesis by (simp add: take_bit_eq_mod)
qed

lemma and3_zero: "w AND 3 = 0 \<longleftrightarrow> unat w mod 4 = 0"
  by (metis and3_mod unat_0 unat_eq_zero)

lemma round_up_word:
  fixes w :: "'a :: len word"
  assumes "unat w + 4 < 2 ^ LENGTH('a)"
  shows "unat (if w AND 3 \<noteq> 0 then push_bit 2 (drop_bit 2 w + 1) else w) = pad4 (unat w)"
proof (cases "unat w mod 4 = 0")
  case True
  then show ?thesis by (auto simp: and3_zero pad4_eq elim!: dvdE)
next
  case False
  have d: "unat (drop_bit 2 w) = unat w div 4"
    by (simp only: unsigned_drop_bit_eq) (simp add: drop_bit_eq_div take_bit_nat_eq_self)
  have "unat w div 4 + 1 < 2 ^ LENGTH('a)" using assms by linarith
  then have s: "unat (drop_bit 2 w + 1) = unat w div 4 + 1"
    by (metis d unat_1 unat_add_lem word_less_nat_alt add.commute unsigned_1)
  have "4 * (unat w div 4 + 1) \<le> unat w + 4" by simp
  with assms have "4 * (unat w div 4 + 1) < 2 ^ LENGTH('a)" by linarith
  moreover have "unat (push_bit 2 x) = 4 * unat x" if "4 * unat x < 2 ^ LENGTH('a)" for x :: "'a word"
    using that by (simp only: unsigned_push_bit_eq) (simp add: push_bit_eq_mult take_bit_nat_eq_self mult.commute)
  ultimately have "unat (push_bit 2 (drop_bit 2 w + 1)) = 4 * (unat w div 4 + 1)"
    using s by simp
  moreover have "pad4 (unat w) = 4 * (unat w div 4 + 1)"
    using False unfolding pad4_eq by presburger
  ultimately show ?thesis using False by (simp add: and3_zero)
qed

lemma sheadof_safe: "length h \<le> length f \<Longrightarrow> \<exists>r. sheadof h f ic = Some r"
  by (induction h f ic rule: sheadof.induct) auto

lemma sheadof_case: "length h \<le> length f \<Longrightarrow> sheadof h f False = Some (take (length h) f = h)"
  by (induction h f False rule: sheadof.induct) auto

lemma findstr_loop_safe:
  assumes "i + n + length needle \<le> Suc (length hay)"
  shows "\<exists>r. findstr_loop hay needle ic i n = Some r \<and> (\<forall>j. r = Some j \<longrightarrow> i \<le> j \<and> j < i + n)"
  using assms
proof (induction n arbitrary: i)
  case (Suc n)
  have "length needle \<le> length (drop i hay)" using Suc.prems by simp
  from sheadof_safe [OF this, of ic] obtain h where h: "sheadof needle (drop i hay) ic = Some h" by blast
  show ?case
  proof (cases h)
    case False
    from Suc.IH [of "i + 1"] Suc.prems obtain r where
      "findstr_loop hay needle ic (i + 1) n = Some r" "\<forall>j. r = Some j \<longrightarrow> i + 1 \<le> j \<and> j < i + 1 + n"
      by auto
    with False h show ?thesis by auto
  qed (use h in auto)
qed simp

lemma findstr_safe:
  assumes "slen \<le> length hay"
  obtains "findstr hay slen needle ic = Some None"
  | j where "findstr hay slen needle ic = Some (Some j)" "j + length needle \<le> slen"
proof (cases "slen > 0 \<and> length needle \<le> slen")
  case True
  then obtain r where "findstr_loop hay needle ic 0 (slen - length needle + 1) = Some r"
    "\<forall>j. r = Some j \<longrightarrow> 0 \<le> j \<and> j < 0 + (slen - length needle + 1)"
    using findstr_loop_safe [of 0 "slen - length needle + 1" needle hay ic] assms by auto
  with True show ?thesis
    using that by (cases r) (auto simp: findstr_def Let_def)
next
  case False
  then show ?thesis using that(1) by (auto simp: findstr_def Let_def)
qed

lemma has_prefix_safe: "blen \<le> length s \<Longrightarrow> \<exists>r. has_prefix s blen p ic = Some r"
  using sheadof_safe by (auto simp: has_prefix_def)

lemma strtoul_mem_safe:
  assumes "0 \<in> set s"
  shows "\<exists>v. strtoul_mem 10 s = Some v"
proof -
  have ns: "\<not> isspace 0" and nd: "\<not> isdigit_base 10 0"
    by (simp_all add: isspace_def isdigit_base_def digit_val_def)
  have "0 \<in> set (dropWhile isspace s)"
    using assms ns by (metis UnE set_append set_takeWhileD takeWhile_dropWhile_id)
  moreover define s2 where "s2 = (case dropWhile isspace s of [] \<Rightarrow> []
      | c # t \<Rightarrow> if c = 0x2D \<or> c = 0x2B then t else dropWhile isspace s)"
  ultimately have "0 \<in> set s2" by (cases "dropWhile isspace s") auto
  then have "takeWhile (isdigit_base 10) s2 \<noteq> s2"
    using nd by (auto simp: takeWhile_eq_all_conv)
  then show ?thesis unfolding strtoul_mem_def Let_def s2_def [symmetric] by simp
qed

lemma is_http_safe:
  assumes "blen < length s" "0 \<in> set (drop blen s)"
  shows "\<exists>n. is_http s blen = Some n \<and> 0 \<le> n"
proof -
  have le: "blen \<le> length s" using assms(1) by simp
  have or: "\<exists>r. or_else p q = Some r" if "\<exists>r. p = Some r" "\<exists>r. q = Some r" for p q
    using that by (auto simp: or_else_def)
  let ?p = "or_else (has_prefix s blen (lit ''GET '') False)
              (or_else (has_prefix s blen (lit ''POST '') False)
              (or_else (has_prefix s blen (lit ''DELETE '') False)
                 (has_prefix s blen (lit ''PUT '') False)))"
  obtain p where p: "?p = Some p"
    using or [OF has_prefix_safe [OF le] or [OF has_prefix_safe [OF le]
        or [OF has_prefix_safe [OF le] has_prefix_safe [OF le]]]] by blast
  have cl: "\<exists>v. strtoul_mem 10 (drop (c + 16) s) = Some v" if "c + 16 \<le> blen" for c
  proof (rule strtoul_mem_safe)
    have "drop blen s = drop (blen - (c + 16)) (drop (c + 16) s)" using that by simp
    then show "0 \<in> set (drop (c + 16) s)" using assms(2) set_drop_subset by fastforce
  qed
  have l: "length (lit ''content-length: '') = 16" "length (lit '' HTTP/'') = 6" by (simp_all add: lit_def)
  show ?thesis
  proof (cases "12 \<le> blen \<and> p")
    case True
    have "blen - 4 \<le> length (drop 4 s)" using le by simp
    then show ?thesis
    proof (cases rule: findstr_safe [of _ _ "lit '' HTTP/''" False])
      case (2 j)
      show ?thesis
      proof (cases "4 + j + 6 + 4 \<le> blen")
        case j: True
        have "blen - (4 + j + 6) \<le> length (drop (4 + j + 6) s)" using le by simp
        then show ?thesis
        proof (cases rule: findstr_safe [of _ _ "[0x0D, 0x0A, 0x0D, 0x0A]" False])
          case (2 k)
          have "4 + j + 6 + k \<le> length s" using 2(2) j le by simp
          then show ?thesis
          proof (cases rule: findstr_safe [of _ _ "lit ''content-length: ''" True])
            case (2 c)
            with \<open>k + _ \<le> _\<close> j l have "c + 16 \<le> blen" by simp
            from cl [OF this] obtain v where "strtoul_mem 10 (drop (c + 16) s) = Some v" by blast
            then show ?thesis
              using p True \<open>findstr (drop 4 s) _ _ _ = _\<close> \<open>findstr (drop (4 + j + 6) s) _ _ _ = _\<close> j 2(1)
              by (simp add: is_http_def Let_def)
          qed (use p True \<open>findstr (drop 4 s) _ _ _ = _\<close> \<open>findstr (drop (4 + j + 6) s) _ _ _ = _\<close> j in
              \<open>simp add: is_http_def Let_def\<close>)
        qed (use p True \<open>findstr (drop 4 s) _ _ _ = _\<close> j in \<open>simp add: is_http_def Let_def\<close>)
      qed (use p True 2(1) in \<open>simp add: is_http_def Let_def\<close>)
    qed (use p True in \<open>simp add: is_http_def Let_def\<close>)
  qed (use p in \<open>auto simp: is_http_def\<close>)
qed

text \<open>The four bytes with which the HTTP methods that is_http accepts begin.\<close>

definition http_start :: "u8 list \<Rightarrow> bool" where
  "http_start h \<longleftrightarrow> h \<in> set [lit ''GET '', lit ''POST'', lit ''DELE'', lit ''PUT '']"

lemma is_http_other:
  assumes "blen \<le> length s" "\<not> http_start (take 4 s)"
  shows "is_http s blen = Some 0"
proof (cases "12 \<le> blen")
  case True
  have p: "has_prefix s blen (lit m) False = Some False"
    if "lit (take 4 m) \<in> set [lit ''GET '', lit ''POST'', lit ''DELE'', lit ''PUT '']" "4 \<le> length m" for m
  proof (cases "length (lit m) \<le> blen")
    case l: True
    have "take 4 s = lit (take 4 m)" if "take (length (lit m)) s = lit m"
      using \<open>4 \<le> length m\<close> that by (metis length_map lit_def min.absorb1 take_map take_take)
    with that(1) assms(2) have "take (length (lit m)) s \<noteq> lit m" by (auto simp: http_start_def)
    with l assms(1) show ?thesis by (simp add: has_prefix_def sheadof_case)
  qed (simp add: has_prefix_def)
  show ?thesis using True by (simp add: is_http_def or_else_def p)
qed (simp add: is_http_def)

text \<open>The length of a ChannelData message with its header, before and after padding.\<close>

definition channel_total :: "u16 \<Rightarrow> bool \<Rightarrow> nat" where
  "channel_total w padding = (if padding then pad4 (4 + unat w) else 4 + unat w)"

lemma channel_bret:
  defines "bret0 \<equiv> \<lambda>w :: u16. (4 + ucast w :: u32)"
  defines "bret \<equiv> \<lambda>w padding. if padding \<and> bret0 w AND 0x0003 \<noteq> 0
     then push_bit 2 (drop_bit 2 (bret0 w) + 1) else bret0 w"
  shows "unat (bret0 w) = 4 + unat w" "unat (bret w padding) = channel_total w padding"
    "sint (bret w padding) = int (channel_total w padding)"
proof -
  show b0: "unat (bret0 w) = 4 + unat w"
    using unat_u16 [of w]
    by (simp add: bret0_def unat_word_ariths unsigned_ucast_eq take_bit_nat_eq_self)
  show b: "unat (bret w padding) = channel_total w padding"
    using round_up_word [of "bret0 w"] unat_u16 [of w] b0
    by (cases padding) (auto simp: bret_def channel_total_def)
  have "channel_total w padding < 2147483648"
    using unat_u16 [of w] by (auto simp: channel_total_def pad4_eq)
  then show "sint (bret w padding) = int (channel_total w padding)"
    using b by (simp only: sint_u32_small)
qed

section \<open>The length of the next message is safe and bounded\<close>

lemma stun_part:
  assumes "blen \<le> length buf" "4 \<le> blen"
  defines "len \<equiv> nswap16 (host16 (buf ! 2) (buf ! 3))"
  shows "stun_get_message_len_str buf blen padding =
    (if 20 \<le> blen \<and> \<not> STUN_VALID_CHANNEL (nswap16 (host16 (buf ! 0) (buf ! 1))) \<and> buf ! 0 AND 0xC0 = 0 \<and>
        nswap32 (host32 (buf ! 4) (buf ! 5) (buf ! 6) (buf ! 7)) = STUN_MAGIC_COOKIE \<and>
        len AND 0x0003 = 0 \<and> unat (len + 20) \<le> blen
     then Some (int (unat (len + 20)), Some (unat (len + 20)))
     else do {
       http_len \<leftarrow> is_http buf blen;
       if http_len > 0 \<and> nat http_len \<le> blen then Some (http_len, Some (nat http_len))
       else if STUN_VALID_CHANNEL (nswap16 (host16 (buf ! 0) (buf ! 1))) then
         Some (if channel_total len padding \<le> blen then int (channel_total len padding) else - 1,
           Some (4 + unat len))
       else Some (- 1, None)
     })"
proof -
  have "buf \<noteq> []" using assms(1,2) by auto
  with assms(1,2) show ?thesis unfolding len_def
    by (simp add: stun_get_message_len_str_def rd8_def rd16_def rd32_def numeral_3_eq_3 Let_def
        channel_bret [unfolded One_nat_def] cong: bind_option_cong if_cong)
qed

text \<open>C34: The search for the next message in a stream reads no byte outside of the memory object
  that holds the stream, if a zero byte follows the received bytes, and its result is -1 (no complete
  message) or at most the number of received bytes.\<close>

theorem next_message_len_safe:
  assumes "blen < length buf" "0 \<in> set (drop blen buf)"
  shows "\<exists>n a. stun_get_message_len_str buf blen padding = Some (n, a) \<and>
    (n = - 1 \<or> 0 \<le> n \<and> n \<le> int blen)"
proof (cases "4 \<le> blen")
  case True
  obtain h where h: "is_http buf blen = Some h" "0 \<le> h" using is_http_safe [OF assms] by blast
  have bl: "blen \<le> length buf" using assms(1) by simp
  have u: "uint w \<le> int blen \<longleftrightarrow> unat w \<le> blen" for w :: u16
    by (simp only: uint_nat of_nat_le_iff)
  show ?thesis unfolding stun_part [OF bl True] using h by (auto simp: u)
next
  case False
  obtain h where "is_http buf blen = Some h" "0 \<le> h" using is_http_safe [OF assms] by blast
  with False show ?thesis by (auto simp: stun_get_message_len_str_def)
qed

theorem next_message_len_safe_witness:
  "4 < length [0x40, 0x01, 0x00, 0x00, 0 :: u8] \<and> 0 \<in> set (drop 4 [0x40, 0x01, 0x00, 0x00, 0 :: u8]) \<and>
   (\<exists>n a. stun_get_message_len_str [0x40, 0x01, 0x00, 0x00, 0] 4 True = Some (n, a) \<and>
      (n = - 1 \<or> 0 \<le> n \<and> n \<le> int 4))"
  using next_message_len_safe [of 4 "[0x40, 0x01, 0x00, 0x00, 0]" True] by simp

section \<open>Framing inverts the construction of messages\<close>

text \<open>In a stream that begins with a complete STUN message of at most 65535 bytes the next
  message is exactly that message, whatever follows it.\<close>

theorem command_message_framed:
  assumes "stun_is_command_message_str buf len = Some True" "len \<le> 65535" "len \<le> blen" "blen \<le> length buf"
  shows "stun_get_message_len_str buf blen padding = Some (int len, Some len)"
proof -
  have c: "20 \<le> len \<and>
     \<not> STUN_VALID_CHANNEL (host16 (buf ! 1) (buf ! 0)) \<and> buf ! 0 AND 0xC0 = 0 \<and>
     host32 (buf ! 7) (buf ! 6) (buf ! 5) (buf ! 4) = STUN_MAGIC_COOKIE \<and>
     be16 (buf ! 2) (buf ! 3) mod 4 = 0 \<and> be16 (buf ! 2) (buf ! 3) + 20 = len"
    using assms is_command_message_in [of len buf] by simp
  define w where "w = nswap16 (host16 (buf ! 2) (buf ! 3))"
  have w: "unat w = be16 (buf ! 2) (buf ! 3)" by (simp only: w_def unat_nswap16_host16)
  have "unat (w + 20) = len" using c assms(2) w by (simp add: unat_word_ariths)
  then show ?thesis
    using c assms w stun_part [of blen buf padding, folded w_def]
    by (simp add: and3_zero nswap16_host16 nswap32_host32)
qed

theorem command_message_framed_witness:
  "stun_is_command_message_str [0x00, 0x01, 0, 0, 0x21, 0x12, 0xA4, 0x42, 1, 2, 3, 4, 5, 6, 7, 8, 9, 10, 11, 12, 0x40, 0x41]
     20 = Some True \<and>
   stun_get_message_len_str [0x00, 0x01, 0, 0, 0x21, 0x12, 0xA4, 0x42, 1, 2, 3, 4, 5, 6, 7, 8, 9, 10, 11, 12, 0x40, 0x41]
     22 True = Some (int 20, Some 20)"
proof -
  let ?b = "[0x00, 0x01, 0, 0, 0x21, 0x12, 0xA4, 0x42, 1, 2, 3, 4, 5, 6, 7, 8, 9, 10, 11, 12, 0x40, 0x41] :: u8 list"
  have "stun_is_command_message_str ?b 20 = Some True"
    by (simp add: is_command_message_in STUN_VALID_CHANNEL_def host16_def host32_def be16_def
        word_le_nat_alt)
  then show ?thesis using command_message_framed [of ?b 20 22 True] by simp
qed

text \<open>A buffer with the header of a ChannelData message, and the length of the message.\<close>

definition channel_frame :: "u16 \<Rightarrow> nat \<Rightarrow> buffer \<Rightarrow> buffer" where
  "channel_frame ch n buf = patch buf 0 (bytes16 (nswap16 ch) @ bytes16 (nswap16 (of_nat n)))"

definition frame_length :: "bool \<Rightarrow> nat \<Rightarrow> nat" where
  "frame_length padding n = (if padding then 4 + pad4 n else 4 + n)"

lemma frame_length_bounds: "4 + n \<le> frame_length padding n" "frame_length padding n \<le> 7 + n"
  by (cases padding; simp add: frame_length_def pad4_eq; presburger)+

lemma channel_frame_header:
  assumes "4 \<le> length buf"
  shows "rd16 (channel_frame ch n buf) 0 = Some (nswap16 ch)" "rd16 (channel_frame ch n buf) 2 = Some (nswap16 (of_nat n))"
    "take 4 (channel_frame ch n buf) = bytes16 (nswap16 ch) @ bytes16 (nswap16 (of_nat n))"
    "drop 4 (channel_frame ch n buf) = drop 4 buf" "length (channel_frame ch n buf) = length buf"
proof -
  have "channel_frame ch n buf = patch (patch buf 0 (bytes16 (nswap16 ch))) 2 (bytes16 (nswap16 (of_nat n)))"
    using assms by (simp add: channel_frame_def patch_patch_adj)
  then show "rd16 (channel_frame ch n buf) 0 = Some (nswap16 ch)" "rd16 (channel_frame ch n buf) 2 = Some (nswap16 (of_nat n))"
    using assms by (simp_all add: rd16_patch)
qed (use assms in \<open>simp_all add: channel_frame_def patch_def\<close>)

lemma init_channel_message:
  assumes "n \<le> 65503" "4 \<le> length buf"
  shows "stun_init_channel_message_str ch buf len0 (int n) padding = Some (True, channel_frame ch n buf, frame_length padding n)"
proof -
  define w where "w = (of_nat n :: u16)"
  have w: "unat w = n" using assms(1) by (simp add: w_def unat_of_nat)
  have "unat (if w AND 3 \<noteq> 0 then push_bit 2 (drop_bit 2 w + 1) else w) = pad4 n"
    using round_up_word [of w] w assms(1) by simp
  then show ?thesis
    using assms w
    by (cases padding) (auto simp: stun_init_channel_message_str_def Let_def wr16_def store_def
        patch_patch_adj channel_frame_def frame_length_def simp flip: w_def split: if_splits)
qed

lemma is_channel_message_in:
  assumes "rd16 b 0 = Some (nswap16 ch)" "rd16 b 2 = Some (nswap16 (of_nat n))" "STUN_VALID_CHANNEL ch" "n \<le> 65503"
  shows "stun_is_channel_message_str b (frame_length padding n) padding = Some (True, 4 + n, Some ch)"
proof -
  define w where "w = (of_nat n :: u16)"
  have w: "unat w = n" using assms(4) by (simp add: w_def unat_of_nat)
  let ?total = "frame_length padding n"
  have t: "unat (of_nat ?total - 4 :: u16) = ?total - 4" "?total \<le> 65535" "4 \<le> ?total"
    using assms(4) frame_length_bounds [where n = n and padding = padding] by (auto simp: unat_sub_if' unat_of_nat)
  have "unat (of_nat ?total - 4 :: u16) = n \<or> unat (of_nat ?total - 4 :: u16) mod 4 = 0"
    using t(1) by (auto simp: frame_length_def pad4_eq)
  then have "w = of_nat ?total - 4 \<or> (of_nat ?total - 4 :: u16) AND 3 = 0"
    using w by (metis and3_zero word_unat_eq_iff)
  moreover have "w \<le> of_nat ?total - 4" using w t frame_length_bounds [where n = n and padding = padding] by (simp add: word_le_nat_alt)
  ultimately show ?thesis
    using t(2,3) assms(1,2,3) w
    by (auto simp: stun_is_channel_message_str_def Let_def not_less simp flip: w_def)
qed

text \<open>C35: A ChannelData message is laid out so that it is recognised with its channel number and
  exact payload length, with or without padding, its payload bytes are untouched, and it is cut out
  of a stream at its padded length.  The four headers that spell the beginning of an HTTP request are
  excluded.\<close>

theorem channel_message_roundtrip:
  assumes "STUN_VALID_CHANNEL ch" "n \<le> 65503" "n + 7 \<le> length buf"
    "\<not> http_start (bytes16 (nswap16 ch) @ bytes16 (nswap16 (of_nat n)))"
  shows "\<exists>b total. stun_init_channel_message_str ch buf len0 (int n) padding = Some (True, b, total) \<and>
    total = (if padding then 4 + pad4 n else 4 + n) \<and> length b = length buf \<and> drop 4 b = drop 4 buf \<and>
    stun_is_channel_message_str b total padding = Some (True, 4 + n, Some ch) \<and>
    (\<forall>blen. total \<le> blen \<longrightarrow> blen \<le> length b \<longrightarrow>
       stun_get_message_len_str b blen padding = Some (int total, Some (4 + n)))"
proof -
  let ?b = "channel_frame ch n buf" and ?w = "of_nat n :: u16" and ?total = "frame_length padding n"
  note hd = channel_frame_header [of buf ch n] and w = unat_of_nat [of n, where 'a = 16]
  have lb: "length ?b = length buf" "drop 4 ?b = drop 4 buf" using assms(3) hd by simp_all
  have "stun_get_message_len_str ?b blen padding = Some (int ?total, Some (4 + n))"
    if "?total \<le> blen" "blen \<le> length ?b" for blen
  proof -
    have "4 \<le> blen" using that(1) frame_length_bounds(1) [of n padding] by linarith
    have "is_http ?b blen = Some 0"
      using assms(3,4) hd that(2) by (intro is_http_other) simp_all
    moreover have "pad4 (4 + n) = 4 + pad4 n" unfolding pad4_eq by presburger
    moreover have "nswap16 (host16 (?b ! 0) (?b ! 1)) = ch" "nswap16 (host16 (?b ! 2) (?b ! 3)) = ?w"
      using hd(1,2) assms(3) by (auto simp: rd16_def numeral_3_eq_3 split: if_splits)
    ultimately show ?thesis
      using that stun_part [of blen ?b padding] \<open>4 \<le> blen\<close> assms(1,2) w
      by (cases padding) (simp_all add: channel_total_def frame_length_def)
  qed
  then show ?thesis
    using init_channel_message [of n buf ch len0 padding] is_channel_message_in [of ?b ch n padding] hd(1,2) lb assms
    by (auto simp: frame_length_def)
qed

theorem channel_message_roundtrip_witness:
  "STUN_VALID_CHANNEL 0x4001 \<and> \<not> http_start (bytes16 (nswap16 0x4001) @ bytes16 (nswap16 (of_nat 2))) \<and>
   (\<exists>b total. stun_init_channel_message_str 0x4001 (replicate 12 7) 0 (int 2) True = Some (True, b, total) \<and>
    total = (if True then 4 + pad4 2 else 4 + 2) \<and> length b = length (replicate 12 (7 :: u8)) \<and>
    drop 4 b = drop 4 (replicate 12 7) \<and>
    stun_is_channel_message_str b total True = Some (True, 4 + 2, Some 0x4001) \<and>
    (\<forall>blen. total \<le> blen \<longrightarrow> blen \<le> length b \<longrightarrow>
       stun_get_message_len_str b blen True = Some (int total, Some (4 + 2))))"
proof -
  have v: "STUN_VALID_CHANNEL 0x4001" by (simp add: STUN_VALID_CHANNEL_def)
  have h: "\<not> http_start (bytes16 (nswap16 0x4001) @ bytes16 (nswap16 (of_nat 2)))"
    by (simp add: http_start_def lit_def bytes16_def nswap16_def)
  show ?thesis
    using channel_message_roundtrip [OF v _ _ h, of "replicate 12 7" 0 True] v h by simp
qed

text \<open>The length field plus the header length is computed in 16 bits: a STUN header that
  announces 65520 bytes of attributes is taken for a complete message of 4 bytes.\<close>

theorem next_message_len_wraps:
  "stun_get_message_len_str ([0x00, 0x01, 0xFF, 0xF0, 0x21, 0x12, 0xA4, 0x42] @ replicate 12 0) 20 padding =
     Some (4, Some 4)"
  by (subst stun_part)
    (simp_all add: STUN_VALID_CHANNEL_def host16_def host32_def nswap16_def nswap32_def word_le_nat_alt)

lemma findstr_loop_numeral:
  "findstr_loop hay needle ic i (numeral k) = do {
     h \<leftarrow> sheadof needle (drop i hay) ic;
     if h then Some (Some i) else findstr_loop hay needle ic (i + 1) (pred_numeral k)
   }"
  by (simp add: numeral_eq_Suc)

lemmas http_eval = is_http_def lit_def has_prefix_def findstr_def Let_def or_else_def strtoul_mem_def
  findstr_loop_numeral strtoul_def strtoul_unsigned_def strtoul_digits_def digit_val_def isdigit_base_def
  isspace_def tolower_def

text \<open>The length that is_http computes for a request with an empty Content-Length value
  depends on the bytes that follow the received ones.\<close>

theorem is_http_reads_beyond:
  "is_http (lit ''GET / HTTP/'' @ [0x0D, 0x0A] @ lit ''Content-Length: '' @ [0x0D, 0x0A, 0x0D, 0x0A] @ [0x37, 0]) 33 \<noteq>
   is_http (lit ''GET / HTTP/'' @ [0x0D, 0x0A] @ lit ''Content-Length: '' @ [0x0D, 0x0A, 0x0D, 0x0A] @ [0x38, 0]) 33"
proof -
  have "is_http (lit ''GET / HTTP/'' @ [0x0D, 0x0A] @ lit ''Content-Length: '' @ [0x0D, 0x0A, 0x0D, 0x0A] @ [0x37, 0]) 33 =
      Some 40"
    by (simp add: http_eval)
  moreover have "is_http (lit ''GET / HTTP/'' @ [0x0D, 0x0A] @ lit ''Content-Length: '' @ [0x0D, 0x0A, 0x0D, 0x0A] @ [0x38, 0]) 33 =
      Some 41"
    by (simp add: http_eval)
  ultimately show ?thesis by simp
qed

end
