(* ===== verification/Port_Pool.thy ===== *)
theory Port_Pool
  imports Turn_Prelude
begin

text \<open>
  The contract of a pool of relay ports, as the relay code relies on it: the operations hand out a
  free port, or an even port together with its successor, and take ports back.  A client that
  returns only ports it holds never gets a port that it already holds, and no port is lost.
  The invariant carries a budget, because the counters of the pool are finite.
\<close>

datatype port_op = Alloc | Alloc_Pair | Release u16

fun port_cost :: "port_op \<Rightarrow> nat" where
  "port_cost Alloc = 0"
| "port_cost Alloc_Pair = 65536"
| "port_cost (Release p) = 1"

text \<open>A run of a client that starts with a set of held ports; None when the pool hands out a port
  that is held.\<close>

definition hand_out :: "u16 list \<Rightarrow> 'p \<Rightarrow> u16 set \<Rightarrow> ('p \<times> u16 set) option" where
  "hand_out hs t held = (if distinct hs \<and> set hs \<inter> held = {} then Some (t, set hs \<union> held) else None)"

fun port_run :: "('p \<Rightarrow> int \<times> 'p) \<Rightarrow> ('p \<Rightarrow> int \<times> 'p) \<Rightarrow> ('p \<Rightarrow> u16 \<Rightarrow> 'p) \<Rightarrow>
    port_op list \<Rightarrow> 'p \<Rightarrow> u16 set \<Rightarrow> ('p \<times> u16 set) option" where
  "port_run alloc pair rel [] t held = Some (t, held)"
| "port_run alloc pair rel (Alloc # ops) t held =
     (case alloc t of (r, t') \<Rightarrow>
        if r = - 1 then port_run alloc pair rel ops t' held
        else do { (t, held) \<leftarrow> hand_out [word_of_int r] t' held; port_run alloc pair rel ops t held })"
| "port_run alloc pair rel (Alloc_Pair # ops) t held =
     (case pair t of (r, t') \<Rightarrow>
        if r = - 1 then port_run alloc pair rel ops t' held
        else do {
          (t, held) \<leftarrow> hand_out [word_of_int r, word_of_int (r + 1)] t' held;
          port_run alloc pair rel ops t held
        })"
| "port_run alloc pair rel (Release p # ops) t held =
     (if p \<in> held then port_run alloc pair rel ops (rel t p) (held - {p})
      else port_run alloc pair rel ops t held)"

locale port_pool =
  fixes inv :: "nat \<Rightarrow> 'p \<Rightarrow> bool"
    and usable :: "'p \<Rightarrow> u16 set"
    and free :: "'p \<Rightarrow> u16 set"
    and alloc :: "'p \<Rightarrow> int \<times> 'p"
    and pair :: "'p \<Rightarrow> int \<times> 'p"
    and rel :: "'p \<Rightarrow> u16 \<Rightarrow> 'p"
  assumes free_usable: "inv k t \<Longrightarrow> free t \<subseteq> usable t"
    and alloc_law: "inv k t \<Longrightarrow> alloc t = (r, t') \<Longrightarrow> inv k t' \<and> usable t' = usable t \<and>
      (r = - 1 \<and> free t = {} \<and> free t' = {} \<or> (\<exists>p\<in>free t. r = uint p \<and> free t' = free t - {p}))"
    and pair_law: "inv (65536 + k) t \<Longrightarrow> pair t = (r, t') \<Longrightarrow> inv k t' \<and> usable t' = usable t \<and>
      (r = - 1 \<and> free t' = free t \<or>
       (\<exists>p\<in>free t. r = uint p \<and> p + 1 \<in> free t \<and> free t' = free t - {p, p + 1}))"
    and rel_law: "inv (Suc k) t \<Longrightarrow> inv k (rel t p) \<and> usable (rel t p) = usable t \<and>
      free (rel t p) = (if p \<in> usable t then insert p (free t) else free t)"
    and inv_weaken: "inv (Suc k) t \<Longrightarrow> inv k t"
begin

lemma inv_le: "inv (n + k) t \<Longrightarrow> inv k t"
  by (induction n) (auto dest: inv_weaken)

lemma run_consistent:
  assumes "inv (sum_list (map port_cost ops) + k) t" "held \<subseteq> usable t" "free t = usable t - held"
  shows "\<exists>t' held'. port_run alloc pair rel ops t held = Some (t', held') \<and> inv k t' \<and>
    usable t' = usable t \<and> held' \<subseteq> usable t \<and> free t' = usable t - held'"
  using assms
proof (induction ops arbitrary: t held)
  case (Cons op ops)
  let ?k = "sum_list (map port_cost ops) + k"
  show ?case
  proof (cases op)
    case Alloc
    obtain r t1 where a: "alloc t = (r, t1)" by fastforce
    have i: "inv ?k t" using Cons.prems(1) Alloc by simp
    from alloc_law [OF i a] show ?thesis
    proof (elim conjE disjE)
      assume "inv ?k t1" "usable t1 = usable t" "r = - 1" "free t = {}" "free t1 = {}"
      then show ?thesis using Cons.IH [of t1 held] Cons.prems a Alloc by simp
    next
      assume h: "inv ?k t1" "usable t1 = usable t" "\<exists>p\<in>free t. r = uint p \<and> free t1 = free t - {p}"
      then obtain p where p: "p \<in> free t" "r = uint p" "free t1 = free t - {p}" by blast
      have "r \<noteq> - 1" using p(2) uint_ge_0 [of p] by linarith
      moreover have "p \<notin> held" using p(1) Cons.prems(3) by auto
      moreover have "free t1 = usable t1 - insert p held" using p(3) Cons.prems(3) h(2) by auto
      moreover have "insert p held \<subseteq> usable t1" using p(1) Cons.prems(2,3) h(2) by auto
      ultimately show ?thesis
        using Cons.IH [OF h(1), of "insert p held"] h(2) p(2) a Alloc
        by (simp add: hand_out_def)
    qed
  next
    case Alloc_Pair
    obtain r t1 where a: "pair t = (r, t1)" by fastforce
    have i: "inv (65536 + ?k) t" using Cons.prems(1) Alloc_Pair by (simp add: add.assoc)
    from pair_law [OF i a] show ?thesis
    proof (elim conjE disjE)
      assume "inv ?k t1" "usable t1 = usable t" "r = - 1" "free t1 = free t"
      then show ?thesis using Cons.IH [of t1 held] Cons.prems a Alloc_Pair by simp
    next
      assume h: "inv ?k t1" "usable t1 = usable t"
        "\<exists>p\<in>free t. r = uint p \<and> p + 1 \<in> free t \<and> free t1 = free t - {p, p + 1}"
      then obtain p where p: "p \<in> free t" "r = uint p" "p + 1 \<in> free t" "free t1 = free t - {p, p + 1}" by blast
      have "r \<noteq> - 1" using p(2) uint_ge_0 [of p] by linarith
      moreover have "word_of_int (uint p + 1) = p + 1" by simp
      moreover have "free t1 = usable t1 - insert p (insert (p + 1) held)"
        using p(4) Cons.prems(3) h(2) by auto
      moreover have "insert p (insert (p + 1) held) \<subseteq> usable t1"
        using p(1,3) Cons.prems(2,3) h(2) by auto
      ultimately show ?thesis
        using Cons.IH [OF h(1), of "insert p (insert (p + 1) held)"] Cons.prems(3) h(2) p(1-3) a Alloc_Pair
        by (simp add: hand_out_def)
    qed
  next
    case (Release p)
    have i: "inv (Suc ?k) t" using Cons.prems(1) Release by simp
    show ?thesis
    proof (cases "p \<in> held")
      case True
      then have "p \<in> usable t" using Cons.prems(2) by auto
      with True show ?thesis
        using Cons.IH [of "rel t p" "held - {p}"] rel_law [OF i, of p] Cons.prems(2,3) Release by auto
    next
      case False
      then show ?thesis
        using Cons.IH [of t held] inv_weaken [OF i] Cons.prems(2,3) Release by simp
    qed
  qed
qed auto

end

end
