(* ===== verification/Turn_Ports.thy ===== *)
theory Turn_Ports
  imports Port_Pool
begin

text \<open>
  The pool of relay ports of one address (src/apps/relay/turn_ports.c): a ring of port numbers
  between the counters low and high, and a table that holds for every port its position in the ring
  or the way in which it is taken.  An array that is indexed by a uint16_t is a function on 16-bit
  words.  The mutex of a pool makes every operation atomic; it is not modelled.
\<close>

abbreviation (input) TPS_OUT_OF_RANGE :: u32 where "TPS_OUT_OF_RANGE \<equiv> 0xFFFFFFFF"
abbreviation (input) TPS_TAKEN_SINGLE :: u32 where "TPS_TAKEN_SINGLE \<equiv> 0xFFFFFFFE"
abbreviation (input) TPS_TAKEN_EVEN :: u32 where "TPS_TAKEN_EVEN \<equiv> 0xFFFFFFFD"
abbreviation (input) TPS_TAKEN_ODD :: u32 where "TPS_TAKEN_ODD \<equiv> 0xFFFFFFFC"

record turnports =
  tp_status :: "u16 \<Rightarrow> u32"
  tp_low :: u32
  tp_high :: u32
  range_start :: u16
  range_stop :: u16
  tp_ports :: "u16 \<Rightarrow> u16"

definition is_taken :: "u32 \<Rightarrow> bool" where
  "is_taken s \<longleftrightarrow> s = TPS_TAKEN_SINGLE \<or> s = TPS_TAKEN_EVEN \<or> s = TPS_TAKEN_ODD"

section \<open>Creation\<close>

text \<open>One round of the shuffle with the two random numbers it draws; the positions are used as
  indices of an array of 65536 elements.\<close>

definition swap_ports :: "turnports \<Rightarrow> u16 \<Rightarrow> u16 \<Rightarrow> turnports option" where
  "swap_ports tp port1 port2 =
     (if port1 \<noteq> port2 then
        (let pos1 = tp_status tp port1; pos2 = tp_status tp port2;
             st = (tp_status tp)(port1 := pos2);
             st = st(port2 := pos1)
         in if unat pos1 < 65536 \<and> unat pos2 < 65536 then
              (let p1 = ucast pos1; p2 = ucast pos2; tmp = tp_ports tp p1;
                   ps = (tp_ports tp)(p1 := tp_ports tp p2);
                   ps = ps(p2 := tmp)
               in Some (tp\<lparr>tp_status := st, tp_ports := ps\<rparr>))
            else None)
      else Some tp)"

definition random_port :: "turnports \<Rightarrow> u64 \<Rightarrow> u16" where
  "random_port tp r =
     (let size = tp_high tp - tp_low tp in ucast (tp_low tp + ucast (ucast (r mod ucast size) :: u16)))"

fun randomize_loop :: "(nat \<Rightarrow> u64) \<Rightarrow> nat \<Rightarrow> nat \<Rightarrow> turnports \<Rightarrow> turnports option" where
  "randomize_loop rnd i 0 tp = Some tp"
| "randomize_loop rnd i (Suc n) tp = do {
     tp \<leftarrow> swap_ports tp (random_port tp (rnd (2 * i))) (random_port tp (rnd (2 * i + 1)));
     randomize_loop rnd (i + 1) n tp
   }"

definition turnports_randomize :: "(nat \<Rightarrow> u64) \<Rightarrow> turnports \<Rightarrow> turnports option" where
  "turnports_randomize rnd tp =
     (let size = tp_high tp - tp_low tp; cycles = size * 10 in randomize_loop rnd 0 (unat cycles) tp)"

definition turnports_init :: "(nat \<Rightarrow> u64) \<Rightarrow> u16 \<Rightarrow> u16 \<Rightarrow> turnports option" where
  "turnports_init rnd start end_port =
     turnports_randomize rnd
       \<lparr>tp_status = (\<lambda>i. if i < start then TPS_OUT_OF_RANGE else if i \<le> end_port then ucast i else TPS_OUT_OF_RANGE),
        tp_low = ucast start, tp_high = ucast end_port + 1, range_start = start, range_stop = end_port,
        tp_ports = (\<lambda>i. i)\<rparr>"

text \<open>The inner None is the null pointer.\<close>

definition turnports_create :: "(nat \<Rightarrow> u64) \<Rightarrow> u16 \<Rightarrow> u16 \<Rightarrow> turnports option option" where
  "turnports_create rnd start end_port =
     (if start > end_port then Some None else map_option Some (turnports_init rnd start end_port))"

section \<open>Operations\<close>

definition turnports_size :: "turnports \<Rightarrow> u16" where
  "turnports_size tp = ucast (tp_high tp - tp_low tp)"

function turnports_allocate :: "turnports \<Rightarrow> int \<times> turnports" where
  "turnports_allocate tp =
     (if tp_high tp \<le> tp_low tp then (- 1, tp) else
        (let port = tp_ports tp (ucast (tp_low tp AND 0x0000FFFF)) in
         if port < range_start tp \<or> port > range_stop tp then (- 1, tp)
         else if is_taken (tp_status tp port) then turnports_allocate (tp\<lparr>tp_low := tp_low tp + 1\<rparr>)
         else if tp_status tp port \<noteq> tp_low tp then turnports_allocate (tp\<lparr>tp_low := tp_low tp + 1\<rparr>)
         else (uint port, tp\<lparr>tp_status := (tp_status tp)(port := TPS_TAKEN_SINGLE), tp_low := tp_low tp + 1\<rparr>)))"
  by pat_completeness auto

lemma counter_step:
  fixes l h :: u32
  assumes "\<not> h \<le> l"
  shows "unat (l + 1) = unat l + 1" "unat l < unat h"
proof -
  show "unat l < unat h" using assms by (simp add: not_le word_less_nat_alt)
  then show "unat (l + 1) = unat l + 1"
    using unat_u32 [of h] by (simp add: unat_word_ariths)
qed

termination turnports_allocate
proof (relation "measure (\<lambda>tp. unat (tp_high tp) - unat (tp_low tp))", goal_cases)
  case (2 tp port)
  then show ?case using counter_step [of "tp_high tp" "tp_low tp"] by simp
next
  case (3 tp port)
  then show ?case using counter_step [of "tp_high tp" "tp_low tp"] by simp
qed simp

declare turnports_allocate.simps [simp del]

definition turnports_release :: "turnports \<Rightarrow> u16 \<Rightarrow> turnports" where
  "turnports_release tp port =
     (if range_start tp \<le> port \<and> port \<le> range_stop tp then
        (let position = ucast (tp_high tp AND 0x0000FFFF) in
         if is_taken (tp_status tp port) then
           tp\<lparr>tp_status := (tp_status tp)(port := tp_high tp), tp_ports := (tp_ports tp)(position := port),
             tp_high := tp_high tp + 1\<rparr>
         else tp)
      else tp)"

definition turnports_is_allocated :: "turnports \<Rightarrow> u16 \<Rightarrow> bool" where
  "turnports_is_allocated tp port = is_taken (tp_status tp port)"

definition turnports_is_available :: "turnports \<Rightarrow> u16 \<Rightarrow> bool" where
  "turnports_is_available tp port =
     (let s = tp_status tp port in
      s \<noteq> TPS_OUT_OF_RANGE \<and> \<not> is_taken s \<and> tp_ports tp (ucast (s AND 0x0000FFFF)) = port)"

text \<open>The reservation token: two ring entries in the lower half and a random number in the upper
  half.\<close>

definition reservation_token :: "turnports \<Rightarrow> u64 \<Rightarrow> u64" where
  "reservation_token tp r =
     ucast (tp_ports tp (ucast (tp_low tp AND 0x0000FFFF)))
     OR push_bit 16 (ucast (tp_ports tp (ucast (tp_high tp AND 0x0000FFFF))))
     OR push_bit 32 (ucast (ucast r :: u32))"

text \<open>The loop of turnports_allocate_even; the second result is the token if one is written.\<close>

fun allocate_even_loop :: "nat \<Rightarrow> bool \<Rightarrow> u64 \<Rightarrow> turnports \<Rightarrow> int \<times> u64 option \<times> turnports" where
  "allocate_even_loop 0 want r tp = (- 1, None, tp)"
| "allocate_even_loop (Suc n) want r tp =
     (case turnports_allocate tp of (port, tp) \<Rightarrow>
        if odd port then allocate_even_loop n want r (turnports_release tp (word_of_int port))
        else
          (let rtcp_port = port + 1 in
           if rtcp_port > uint (range_stop tp) then
             allocate_even_loop n want r (turnports_release tp (word_of_int port))
           else if \<not> turnports_is_available tp (word_of_int rtcp_port) then
             allocate_even_loop n want r (turnports_release tp (word_of_int port))
           else
             (let tp = tp\<lparr>tp_status := (tp_status tp)(word_of_int port := TPS_TAKEN_EVEN,
                                                     word_of_int rtcp_port := TPS_TAKEN_ODD)\<rparr>
              in (port, if want then Some (reservation_token tp r) else None, tp))))"

definition turnports_allocate_even :: "turnports \<Rightarrow> bool \<Rightarrow> u64 \<Rightarrow> int \<times> u64 option \<times> turnports" where
  "turnports_allocate_even tp want r =
     (let size = turnports_size tp in
      if size > 1 then allocate_even_loop (unat size) want r tp else (- 1, None, tp))"

section \<open>The ring invariant\<close>

definition in_rng :: "turnports \<Rightarrow> u16 \<Rightarrow> bool" where
  "in_rng tp p \<longleftrightarrow> range_start tp \<le> p \<and> p \<le> range_stop tp"

definition free_ports :: "turnports \<Rightarrow> u16 set" where
  "free_ports tp = {p. in_rng tp p \<and> \<not> is_taken (tp_status tp p)}"

text \<open>The position of a port in the ring and the port at a position.\<close>

definition posn :: "turnports \<Rightarrow> u16 \<Rightarrow> nat" where
  "posn tp p = unat (tp_status tp p)"

definition slot :: "turnports \<Rightarrow> nat \<Rightarrow> u16" where
  "slot tp q = tp_ports tp (of_nat q)"

definition window :: "turnports \<Rightarrow> nat set" where
  "window tp = {unat (tp_low tp)..<unat (tp_high tp)}"

definition taken :: "turnports \<Rightarrow> u16 \<Rightarrow> bool" where
  "taken tp p \<longleftrightarrow> is_taken (tp_status tp p)"

text \<open>A position whose port is at another position or taken.  Only the odd ports that are taken
  together with the even port before them leave such positions behind.\<close>

definition stale :: "turnports \<Rightarrow> nat \<Rightarrow> bool" where
  "stale tp q \<longleftrightarrow> (let r = slot tp q in odd (unat r) \<and> in_rng tp (r - 1) \<and>
     (taken tp r \<or> q < posn tp r) \<and> (taken tp (r - 1) \<or> q < posn tp (r - 1)))"

definition ring_inv :: "turnports \<Rightarrow> bool" where
  "ring_inv tp \<longleftrightarrow> range_start tp \<le> range_stop tp \<and>
     unat (range_stop tp) - unat (range_start tp) < 43690 \<and>
     unat (tp_low tp) \<le> unat (tp_high tp) \<and> unat (tp_high tp) \<le> 4294967292 \<and>
     (\<forall>p\<in>free_ports tp. posn tp p \<in> window tp \<and> slot tp (posn tp p) = p) \<and>
     (\<forall>p. \<not> in_rng tp p \<longrightarrow> tp_status tp p = TPS_OUT_OF_RANGE) \<and>
     (\<forall>q\<in>window tp. in_rng tp (slot tp q) \<and> (posn tp (slot tp q) = q \<or> stale tp q)) \<and>
     (\<forall>q\<in>window tp. \<forall>q'\<in>window tp. q < q' \<longrightarrow> slot tp q = slot tp q' \<longrightarrow> posn tp (slot tp q) = q')"

lemma ring_invD:
  assumes "ring_inv tp"
  shows "range_start tp \<le> range_stop tp" "unat (range_stop tp) - unat (range_start tp) < 43690"
    "unat (tp_low tp) \<le> unat (tp_high tp)" "unat (tp_high tp) \<le> 4294967292"
    "\<And>p. p \<in> free_ports tp \<Longrightarrow> posn tp p \<in> window tp" "\<And>p. p \<in> free_ports tp \<Longrightarrow> slot tp (posn tp p) = p"
    "\<And>p. \<not> in_rng tp p \<Longrightarrow> tp_status tp p = TPS_OUT_OF_RANGE"
    "\<And>q. q \<in> window tp \<Longrightarrow> in_rng tp (slot tp q)"
    "\<And>q. q \<in> window tp \<Longrightarrow> posn tp (slot tp q) = q \<or> stale tp q"
    "\<And>q q'. q \<in> window tp \<Longrightarrow> q' \<in> window tp \<Longrightarrow> q < q' \<Longrightarrow> slot tp q = slot tp q' \<Longrightarrow> posn tp (slot tp q) = q'"
  using assms unfolding ring_inv_def by blast+

lemma ucast_of_nat_u16: "(ucast (w :: u32) :: u16) = of_nat (unat w)"
  by (rule word_unat_eq_iff [THEN iffD2]) (simp add: unat_of_nat unsigned_ucast_eq take_bit_eq_mod)

lemma ucast_low16: "(ucast ((w :: u32) AND 0xFFFF) :: u16) = of_nat (unat w)"
proof -
  have "(ucast (w AND 0xFFFF) :: u16) = ucast w"
    by (rule u16_eqI) (simp add: bit_simps)
  then show ?thesis by (simp only: ucast_of_nat_u16)
qed

lemma of_nat_u16_eq: "(of_nat a :: u16) = of_nat b \<longleftrightarrow> a mod 65536 = b mod 65536"
  by (simp add: word_of_nat_eq_iff take_bit_eq_mod)

text \<open>The values that mark a taken port are above all positions.\<close>

lemma taken_posn: "taken tp p \<Longrightarrow> 4294967292 \<le> posn tp p"
  by (auto simp: taken_def is_taken_def posn_def)

lemma window_not_taken:
  "ring_inv tp \<Longrightarrow> posn tp p \<in> window tp \<Longrightarrow> \<not> taken tp p"
  using taken_posn [of tp p] ring_invD(4) [of tp] by (auto simp: window_def)

lemma free_iff:
  "ring_inv tp \<Longrightarrow> p \<in> free_ports tp \<longleftrightarrow> in_rng tp p \<and> \<not> taken tp p"
  by (auto simp: free_ports_def taken_def)

text \<open>At most one position per port in range is live, and at most one per odd port is stale.\<close>

lemma unat_pred_odd: "odd (unat (r :: u16)) \<Longrightarrow> unat (r - 1) = unat r - 1"
  by (cases "r = 0") (simp_all add: unat_minus_one)

lemma card_in_rng:
  assumes "range_start tp \<le> range_stop tp"
  shows "card {p. in_rng tp p} = unat (range_stop tp) - unat (range_start tp) + 1" "finite {p. in_rng tp p}"
proof -
  have "{p. in_rng tp p} = of_nat ` {unat (range_start tp)..unat (range_stop tp)}"
  proof (intro equalityI subsetI)
    fix p assume "p \<in> {p. in_rng tp p}"
    then have "unat p \<in> {unat (range_start tp)..unat (range_stop tp)}"
      by (simp add: in_rng_def word_le_nat_alt)
    then show "p \<in> of_nat ` {unat (range_start tp)..unat (range_stop tp)}"
      by (intro image_eqI [where x = "unat p"]) simp_all
  next
    fix p :: u16 assume "p \<in> of_nat ` {unat (range_start tp)..unat (range_stop tp)}"
    then obtain n where n: "p = of_nat n" "unat (range_start tp) \<le> n" "n \<le> unat (range_stop tp)" by auto
    then have "unat p = n" using unat_u16 [of "range_stop tp"] by (simp add: unat_of_nat)
    with n show "p \<in> {p. in_rng tp p}" by (simp add: in_rng_def word_le_nat_alt)
  qed
  moreover have "inj_on (of_nat :: nat \<Rightarrow> u16) {unat (range_start tp)..unat (range_stop tp)}"
  proof (rule inj_onI)
    fix x y assume "x \<in> {unat (range_start tp)..unat (range_stop tp)}"
      "y \<in> {unat (range_start tp)..unat (range_stop tp)}" "(of_nat x :: u16) = of_nat y"
    then show "x = y" using unat_u16 [of "range_stop tp"] by (simp add: of_nat_u16_eq)
  qed
  ultimately show "card {p. in_rng tp p} = unat (range_stop tp) - unat (range_start tp) + 1" "finite {p. in_rng tp p}"
    using assms by (simp_all add: card_image word_le_nat_alt)
qed

lemma card_odd_rng:
  assumes "range_start tp \<le> range_stop tp"
  shows "2 * card {p. in_rng tp p \<and> odd (unat p) \<and> in_rng tp (p - 1)} \<le> card {p. in_rng tp p}"
proof -
  let ?R = "{p. in_rng tp p}" and ?O = "{p. in_rng tp p \<and> odd (unat p) \<and> in_rng tp (p - 1)}"
  have f: "finite ?R" by (rule card_in_rng [OF assms])
  have "even (unat (p - 1))" if "p \<in> ?O" for p
    using that unat_pred_odd [of p] by auto
  then have "?O \<inter> (\<lambda>p. p - 1) ` ?O = {}" by blast
  moreover have "finite ?O" using f by (rule finite_subset [rotated]) blast
  moreover have "card ((\<lambda>p. p - 1) ` ?O) = card ?O" by (rule card_image) (simp add: inj_on_def)
  ultimately have "2 * card ?O = card (?O \<union> (\<lambda>p. p - 1) ` ?O)"
    by (simp add: card_Un_disjoint)
  also have "\<dots> \<le> card ?R" using f by (intro card_mono) auto
  finally show ?thesis .
qed

lemma window_size:
  assumes inv: "ring_inv tp"
  shows "card (window tp) \<le> 65535"
proof -
  let ?live = "{q \<in> window tp. posn tp (slot tp q) = q}" and ?st = "{q \<in> window tp. posn tp (slot tp q) \<noteq> q}"
  let ?R = "{p. in_rng tp p}" and ?O = "{p. in_rng tp p \<and> odd (unat p) \<and> in_rng tp (p - 1)}"
  note D = ring_invD [OF inv]
  have fin: "finite ?R" and R: "card ?R \<le> 43690" using card_in_rng [OF D(1)] D(2) by auto
  have O: "2 * card ?O \<le> card ?R" by (rule card_odd_rng [OF D(1)])
  have "finite (window tp)" by (simp add: window_def)
  then have "card (window tp) = card ?live + card ?st"
    by (subst card_Un_disjoint [symmetric]) (auto intro: arg_cong [where f = card])
  moreover have "card ?live \<le> card ?R"
  proof (rule card_inj_on_le)
    show "inj_on (slot tp) ?live" by (rule inj_onI) (metis (mono_tags, lifting) mem_Collect_eq)
    show "slot tp ` ?live \<subseteq> ?R" using D(8) by auto
  qed (rule fin)
  moreover have "card ?st \<le> card ?O"
  proof (rule card_inj_on_le)
    show "inj_on (slot tp) ?st"
    proof (rule inj_onI)
      fix q q' assume "q \<in> ?st" "q' \<in> ?st" "slot tp q = slot tp q'"
      then show "q = q'" using D(10) [of q q'] D(10) [of q' q] by (cases q q' rule: linorder_cases) auto
    qed
    show "slot tp ` ?st \<subseteq> ?O" using D(8,9) by (auto simp: stale_def Let_def)
    show "finite ?O" using fin by (rule finite_subset [rotated]) blast
  qed
  ultimately show ?thesis using R O by linarith
qed

section \<open>Allocation\<close>

lemma set_low_simps [simp]:
  "free_ports (tp\<lparr>tp_low := l\<rparr>) = free_ports tp" "posn (tp\<lparr>tp_low := l\<rparr>) = posn tp"
  "slot (tp\<lparr>tp_low := l\<rparr>) = slot tp" "taken (tp\<lparr>tp_low := l\<rparr>) = taken tp"
  "in_rng (tp\<lparr>tp_low := l\<rparr>) = in_rng tp" "stale (tp\<lparr>tp_low := l\<rparr>) = stale tp"
  by (simp_all add: free_ports_def posn_def slot_def taken_def in_rng_def stale_def fun_eq_iff)

lemma allocate_unfold:
  "turnports_allocate tp =
     (if tp_high tp \<le> tp_low tp then (- 1, tp) else
        (let port = slot tp (unat (tp_low tp)) in
         if \<not> in_rng tp port then (- 1, tp)
         else if taken tp port \<or> posn tp port \<noteq> unat (tp_low tp) then turnports_allocate (tp\<lparr>tp_low := tp_low tp + 1\<rparr>)
         else (uint port, tp\<lparr>tp_status := (tp_status tp)(port := TPS_TAKEN_SINGLE), tp_low := tp_low tp + 1\<rparr>)))"
  unfolding turnports_allocate.simps [of tp] ucast_low16 slot_def [symmetric] taken_def posn_def in_rng_def
    word_unat_eq_iff [symmetric] Let_def
  by auto

lemma advance_low:
  assumes inv: "ring_inv tp" and lt: "\<not> tp_high tp \<le> tp_low tp"
    and skip: "slot tp (unat (tp_low tp)) \<in> free_ports tp \<Longrightarrow> posn tp (slot tp (unat (tp_low tp))) \<noteq> unat (tp_low tp)"
  shows "ring_inv (tp\<lparr>tp_low := tp_low tp + 1\<rparr>)"
proof -
  note D = ring_invD [OF inv] and c = counter_step [OF lt]
  have w: "window (tp\<lparr>tp_low := tp_low tp + 1\<rparr>) = window tp - {unat (tp_low tp)}"
    using c by (auto simp: window_def)
  have "posn tp p \<noteq> unat (tp_low tp)" if "p \<in> free_ports tp" for p
    using skip D(6) [OF that] that by auto
  then show ?thesis using inv c unfolding ring_inv_def set_low_simps w by auto
qed

text \<open>What an allocation of port p does: p was the free port with the least position and is now
  taken; every other port and the ring stay as they were.  No position of the window is left behind
  for the port after p.\<close>

definition allocated :: "turnports \<Rightarrow> u16 \<Rightarrow> turnports \<Rightarrow> bool" where
  "allocated tp p tp' \<longleftrightarrow> p \<in> free_ports tp \<and> (\<forall>x\<in>free_ports tp. posn tp p \<le> posn tp x) \<and>
     ring_inv tp' \<and> free_ports tp' = free_ports tp - {p} \<and> taken tp' p \<and>
     (\<forall>q\<in>window tp'. slot tp' q = p + 1 \<longrightarrow> posn tp' (p + 1) = q) \<and>
     (\<exists>l. tp' = tp\<lparr>tp_status := (tp_status tp)(p := TPS_TAKEN_SINGLE), tp_low := l\<rparr>)"

lemma take_low:
  fixes tp :: turnports
  assumes inv: "ring_inv tp" and lt: "\<not> tp_high tp \<le> tp_low tp"
  defines "p \<equiv> slot tp (unat (tp_low tp))"
  defines "tp' \<equiv> tp\<lparr>tp_status := (tp_status tp)(p := TPS_TAKEN_SINGLE), tp_low := tp_low tp + 1\<rparr>"
  assumes p: "p \<in> free_ports tp" "posn tp p = unat (tp_low tp)"
  shows "allocated tp p tp'"
proof -
  note D = ring_invD [OF inv] and c = counter_step [OF lt]
  have w: "window tp' = window tp - {unat (tp_low tp)}" using c by (auto simp: window_def tp'_def)
  have least: "posn tp p \<le> posn tp x" if "x \<in> free_ports tp" for x
    using D(5) [OF that] p(2) by (simp add: window_def)
  have r: "in_rng tp' = in_rng tp" "slot tp' = slot tp" "range_start tp' = range_start tp" "range_stop tp' = range_stop tp"
    "tp_high tp' = tp_high tp" "tp_low tp' = tp_low tp + 1"
    by (simp_all add: tp'_def in_rng_def slot_def fun_eq_iff)
  have t: "taken tp' x \<longleftrightarrow> x = p \<or> taken tp x" "x \<noteq> p \<Longrightarrow> posn tp' x = posn tp x" "x \<noteq> p \<Longrightarrow> tp_status tp' x = tp_status tp x" for x
    by (simp_all add: tp'_def taken_def posn_def is_taken_def)
  have f: "free_ports tp' = free_ports tp - {p}"
    using t(1) r(1) by (auto simp: free_ports_def taken_def)
  have st: "stale tp' q" if "stale tp q" for q
    using that t unfolding stale_def Let_def r by metis
  have other: "posn tp x \<noteq> unat (tp_low tp)" if "x \<in> free_ports tp" "x \<noteq> p" for x
    using D(6) [OF that(1)] that(2) p_def by auto
  have live: "posn tp' (slot tp q) = q \<or> stale tp' q" if "q \<in> window tp'" for q
  proof -
    have "q \<in> window tp" "q \<noteq> unat (tp_low tp)" using that w by auto
    moreover then have "slot tp q \<noteq> p" if "posn tp (slot tp q) = q" using that p(2) by auto
    ultimately show ?thesis using D(9) st t(2) by metis
  qed
  have uniq: "posn tp' (slot tp q) = q'"
    if "q \<in> window tp'" "q' \<in> window tp'" "q < q'" "slot tp q = slot tp q'" for q q'
  proof -
    have "posn tp (slot tp q) = q'" using D(10) that w by blast
    moreover have "q' \<noteq> unat (tp_low tp)" using that(2) w by auto
    ultimately show ?thesis using t(2) p(2) by metis
  qed
  have inv': "ring_inv tp'"
    unfolding ring_inv_def
  proof (intro conjI ballI allI impI)
    fix x assume x: "x \<in> free_ports tp'"
    then show "posn tp' x \<in> window tp'" "slot tp' (posn tp' x) = x"
      using D(5,6) [of x] other [of x] t(2) [of x] by (auto simp: f w r)
  next
    fix x assume "\<not> in_rng tp' x"
    then show "tp_status tp' x = TPS_OUT_OF_RANGE" using D(7) [of x] p(1) t(3) [of x] r(1) by (auto simp: free_ports_def)
  qed (use D c live uniq w in \<open>auto simp: r\<close>)
  have "posn tp' (p + 1) = q" if "q \<in> window tp'" "slot tp' q = p + 1" for q
  proof (rule ccontr)
    assume n: "posn tp' (p + 1) \<noteq> q"
    have q: "q \<in> window tp" "slot tp q = p + 1" using that w r by auto
    with n t(2) [of "p + 1"] D(9) [of q] have "stale tp q" by auto
    then have "q < posn tp p" using q(2) p(1) by (auto simp: stale_def Let_def free_ports_def taken_def)
    then show False using q(1) p(2) by (simp add: window_def)
  qed
  then show ?thesis
    unfolding allocated_def using p(1) least inv' f t(1) [of p] by (auto simp: tp'_def)
qed

lemma allocate_spec:
  assumes "ring_inv tp"
  shows "\<exists>l. free_ports tp = {} \<and> turnports_allocate tp = (- 1, tp\<lparr>tp_low := l\<rparr>) \<and> ring_inv (tp\<lparr>tp_low := l\<rparr>) \<or>
    (\<exists>p tp'. turnports_allocate tp = (uint p, tp') \<and> allocated tp p tp')"
  using assms
proof (induction "unat (tp_high tp) - unat (tp_low tp)" arbitrary: tp rule: less_induct)
  case (less tp)
  show ?case
  proof (cases "tp_high tp \<le> tp_low tp")
    case True
    then have "window tp = {}" by (simp add: window_def word_le_nat_alt)
    then have "free_ports tp = {}" using ring_invD(5) [OF less(2)] by blast
    then show ?thesis using True less(2) allocate_unfold [of tp] by (intro exI [of _ "tp_low tp"]) simp
  next
    case lt: False
    let ?p = "slot tp (unat (tp_low tp))" and ?tp = "tp\<lparr>tp_low := tp_low tp + 1\<rparr>"
    have p: "in_rng tp ?p"
      using ring_invD(8) [OF less(2)] counter_step [OF lt] by (simp add: window_def)
    show ?thesis
    proof (cases "?p \<in> free_ports tp \<and> posn tp ?p = unat (tp_low tp)")
      case True
      then show ?thesis
        using take_low [OF less(2) lt] allocate_unfold [of tp] lt p by (auto simp: Let_def free_ports_def taken_def)
    next
      case False
      have inv: "ring_inv ?tp" using advance_low [OF less(2) lt] False by blast
      have eq: "turnports_allocate tp = turnports_allocate ?tp"
        using False allocate_unfold [of tp] lt p by (auto simp: Let_def free_ports_def taken_def)
      have "unat (tp_high ?tp) - unat (tp_low ?tp) < unat (tp_high tp) - unat (tp_low tp)"
        using counter_step [OF lt] by simp
      from less(1) [OF this inv] show ?thesis unfolding eq by (auto simp: allocated_def)
    qed
  qed
qed

section \<open>Release\<close>

lemma window_mod:
  assumes "ring_inv tp" "q \<in> window tp"
  shows "(of_nat q :: u16) \<noteq> of_nat (unat (tp_high tp))"
proof -
  have "unat (tp_high tp) - unat (tp_low tp) \<le> 65535" using window_size [OF assms(1)] by (simp add: window_def)
  then have q: "q < unat (tp_high tp)" "unat (tp_high tp) - q \<le> 65535" using assms(2) by (auto simp: window_def)
  have "q mod 65536 \<noteq> unat (tp_high tp) mod 65536"
  proof
    assume "q mod 65536 = unat (tp_high tp) mod 65536"
    then have "65536 dvd unat (tp_high tp) - q" using q(1) by (metis less_imp_le mod_eq_dvd_iff_nat)
    then show False using q by (auto dest: dvd_imp_le)
  qed
  then show ?thesis using of_nat_u16_eq by blast
qed

lemma release_taken:
  fixes tp :: turnports
  assumes inv: "ring_inv tp" and room: "unat (tp_high tp) < 4294967292" and p: "in_rng tp p" "taken tp p"
  defines "tp' \<equiv> turnports_release tp p"
  shows "ring_inv tp'" "free_ports tp' = insert p (free_ports tp)" "in_rng tp' = in_rng tp"
    "unat (tp_high tp') = unat (tp_high tp) + 1" "posn tp' = (posn tp)(p := unat (tp_high tp))"
proof -
  note D = ring_invD [OF inv]
  let ?h = "unat (tp_high tp)"
  have tp': "tp' = tp\<lparr>tp_status := (tp_status tp)(p := tp_high tp), tp_ports := (tp_ports tp)(of_nat ?h := p),
      tp_high := tp_high tp + 1\<rparr>"
    using p unfolding tp'_def turnports_release_def ucast_low16 in_rng_def taken_def Let_def by simp
  show h: "unat (tp_high tp') = ?h + 1"
    using room by (simp add: tp' unat_word_ariths)
  have w: "window tp' = insert ?h (window tp)" using h D(3) by (auto simp: window_def tp')
  show r: "in_rng tp' = in_rng tp" by (simp add: tp' in_rng_def fun_eq_iff)
  show pos: "posn tp' = (posn tp)(p := ?h)" by (simp add: tp' posn_def fun_eq_iff)
  have sl: "slot tp' q = (if q = ?h then p else slot tp q)" if "q \<in> window tp'" for q
    using that window_mod [OF inv, of q] unfolding w by (auto simp: tp' slot_def)
  have "\<not> is_taken (tp_high tp)"
    using room by (auto simp: is_taken_def)
  then have t: "taken tp' x \<longleftrightarrow> x \<noteq> p \<and> taken tp x" for x by (auto simp: tp' taken_def)
  then show f: "free_ports tp' = insert p (free_ports tp)"
    using p(1) r by (auto simp: free_ports_def taken_def)
  have lt: "q < ?h" if "q \<in> window tp" for q using that by (simp add: window_def)
  have st: "stale tp' q" if "stale tp q" "q \<in> window tp" for q
    using that lt [OF that(2)] sl [of q] w unfolding stale_def Let_def r pos t by auto
  have np: "slot tp q \<noteq> p" if "q \<in> window tp" "posn tp (slot tp q) \<in> window tp" for q
    using window_not_taken [OF inv that(2)] p(2) by auto
  show "ring_inv tp'"
    unfolding ring_inv_def
  proof (intro conjI ballI allI impI)
    fix x assume x: "x \<in> free_ports tp'"
    then show "posn tp' x \<in> window tp'" using D(5) [of x] by (auto simp: f w pos)
    with x show "slot tp' (posn tp' x) = x"
      using D(5,6) [of x] lt [of "posn tp x"] sl [of "posn tp' x"] by (auto simp: f pos split: if_splits)
  next
    fix x assume "\<not> in_rng tp' x"
    then show "tp_status tp' x = TPS_OUT_OF_RANGE" using D(7) [of x] p(1) r by (auto simp: tp' in_rng_def)
  next
    fix q assume q: "q \<in> window tp'"
    then show "in_rng tp' (slot tp' q)" using sl [OF q] D(8) [of q] p(1) by (auto simp: r w)
    show "posn tp' (slot tp' q) = q \<or> stale tp' q"
      using q sl [OF q] D(9) [of q] st [of q] np [of q] by (auto simp: pos w)
  next
    fix q q' assume q: "q \<in> window tp'" "q' \<in> window tp'" "q < q'" "slot tp' q = slot tp' q'"
    then have qw: "q \<in> window tp" "q \<noteq> ?h" using lt [of q'] by (auto simp: w)
    then show "posn tp' (slot tp' q) = q'"
      using q sl [OF q(1)] sl [OF q(2)] D(10) [of q q'] np [of q] by (auto simp: pos w split: if_splits)
  qed (use D h room in \<open>simp_all add: tp'\<close>)
qed

lemma release_other: "\<not> in_rng tp p \<or> \<not> taken tp p \<Longrightarrow> turnports_release tp p = tp"
  by (auto simp: turnports_release_def in_rng_def taken_def)

lemma release_spec:
  assumes "ring_inv tp" "unat (tp_high tp) < 4294967292"
  shows "ring_inv (turnports_release tp p)" "in_rng (turnports_release tp p) = in_rng tp"
    "free_ports (turnports_release tp p) = (if in_rng tp p then insert p (free_ports tp) else free_ports tp)"
    "unat (tp_high (turnports_release tp p)) \<le> unat (tp_high tp) + 1"
proof -
  have "free_ports tp = insert p (free_ports tp)" if "in_rng tp p" "\<not> taken tp p"
    using that by (auto simp: free_ports_def taken_def)
  then show "ring_inv (turnports_release tp p)" "in_rng (turnports_release tp p) = in_rng tp"
    "free_ports (turnports_release tp p) = (if in_rng tp p then insert p (free_ports tp) else free_ports tp)"
    "unat (tp_high (turnports_release tp p)) \<le> unat (tp_high tp) + 1"
    using release_taken [OF assms] release_other [of tp p] assms(1)
    by (cases "in_rng tp p \<and> taken tp p"; auto)+
qed

section \<open>Pairs of ports\<close>

lemma is_available_free:
  assumes "ring_inv tp"
  shows "turnports_is_available tp p \<longleftrightarrow> p \<in> free_ports tp"
proof (cases "in_rng tp p \<and> \<not> taken tp p")
  case True
  then have f: "p \<in> free_ports tp" by (simp add: free_ports_def taken_def)
  have "posn tp p < 4294967292" using ring_invD(4,5) [OF assms] f by (fastforce simp: window_def)
  then have "tp_status tp p \<noteq> TPS_OUT_OF_RANGE" by (auto simp: posn_def)
  moreover have "tp_ports tp (of_nat (posn tp p)) = p" using ring_invD(6) [OF assms f] by (simp add: slot_def)
  ultimately show ?thesis
    using f True unfolding turnports_is_available_def Let_def ucast_low16 posn_def taken_def by simp
next
  case False
  then show ?thesis
    using ring_invD(7) [OF assms, of p] by (auto simp: turnports_is_available_def free_ports_def taken_def Let_def)
qed

lemma take_pair:
  fixes tp tp1 :: turnports
  assumes al: "allocated tp p tp1" and p: "even (unat p)" "p + 1 \<in> free_ports tp1"
  defines "tp2 \<equiv> tp1\<lparr>tp_status := (tp_status tp1)(p := TPS_TAKEN_EVEN, p + 1 := TPS_TAKEN_ODD)\<rparr>"
  shows "ring_inv tp2" "free_ports tp2 = free_ports tp - {p, p + 1}" "in_rng tp2 = in_rng tp"
    "tp_high tp2 = tp_high tp"
proof -
  have inv: "ring_inv tp1" and t1: "taken tp1 p" and pin: "in_rng tp1 p"
    and only: "\<And>q. q \<in> window tp1 \<Longrightarrow> slot tp1 q = p + 1 \<Longrightarrow> posn tp1 (p + 1) = q"
    using al by (auto simp: allocated_def free_ports_def in_rng_def)
  note D = ring_invD [OF inv]
  have r: "in_rng tp2 = in_rng tp1" "slot tp2 = slot tp1" "window tp2 = window tp1" "tp_low tp2 = tp_low tp1"
    "tp_high tp2 = tp_high tp1" "range_start tp2 = range_start tp1" "range_stop tp2 = range_stop tp1"
    by (simp_all add: tp2_def in_rng_def slot_def window_def fun_eq_iff)
  have t: "taken tp2 x \<longleftrightarrow> x = p \<or> x = p + 1 \<or> taken tp1 x" "x \<noteq> p \<Longrightarrow> x \<noteq> p + 1 \<Longrightarrow> tp_status tp2 x = tp_status tp1 x"
      "x \<noteq> p \<Longrightarrow> x \<noteq> p + 1 \<Longrightarrow> posn tp2 x = posn tp1 x" for x
    by (simp_all add: tp2_def taken_def posn_def is_taken_def)
  have o: "odd (unat (p + 1))"
  proof -
    have "unat p + 1 < 65536" using unat_u16 [of p] p(1) by presburger
    then show ?thesis using p(1) by (simp add: unat_word_ariths)
  qed
  have f: "free_ports tp2 = free_ports tp1 - {p, p + 1}"
    using t(1) r(1) by (auto simp: free_ports_def taken_def)
  then show "free_ports tp2 = free_ports tp - {p, p + 1}" using al by (auto simp: allocated_def)
  show "in_rng tp2 = in_rng tp" "tp_high tp2 = tp_high tp"
    using al by (auto simp: allocated_def tp2_def in_rng_def fun_eq_iff)
  have live: "posn tp2 (slot tp1 q) = q \<or> stale tp2 q" if q: "q \<in> window tp1" for q
  proof (cases "slot tp1 q = p + 1")
    case True
    then show ?thesis using o pin by (auto simp: stale_def r t(1))
  next
    case False
    have "slot tp1 q \<noteq> p" if "posn tp1 (slot tp1 q) = q"
      using window_not_taken [OF inv, of p] t1 that q by auto
    moreover have "stale tp2 q" if "stale tp1 q"
      using that t unfolding stale_def Let_def r by metis
    ultimately show ?thesis using D(9) [OF q] t(3) [of "slot tp1 q"] False by auto
  qed
  have uniq: "posn tp2 (slot tp1 q) = q'"
    if q: "q \<in> window tp1" "q' \<in> window tp1" "q < q'" "slot tp1 q = slot tp1 q'" for q q'
  proof -
    have "slot tp1 q \<noteq> p + 1" using only [of q] only [of q'] q by auto
    moreover have "posn tp1 (slot tp1 q) = q'" by (rule D(10) [OF q])
    moreover then have "slot tp1 q \<noteq> p" using window_not_taken [OF inv, of p] t1 q(2) by auto
    ultimately show ?thesis using t(3) by simp
  qed
  show "ring_inv tp2"
    unfolding ring_inv_def
  proof (intro conjI ballI allI impI)
    fix x assume x: "x \<in> free_ports tp2"
    then show "posn tp2 x \<in> window tp2" "slot tp2 (posn tp2 x) = x"
      using D(5,6) [of x] t(3) [of x] by (auto simp: f r)
  next
    fix x assume "\<not> in_rng tp2 x"
    then show "tp_status tp2 x = TPS_OUT_OF_RANGE"
      using D(7) [of x] pin p(2) t(2) [of x] r(1) by (auto simp: free_ports_def)
  qed (use D live uniq in \<open>auto simp: r\<close>)
qed

text \<open>The number of free ports that come before p in the ring.\<close>

definition rank :: "turnports \<Rightarrow> u16 \<Rightarrow> nat" where
  "rank tp p = card {x \<in> free_ports tp. posn tp x < posn tp p}"

lemma finite_free: "ring_inv tp \<Longrightarrow> finite (free_ports tp)"
  using card_in_rng(2) [of tp] ring_invD(1) [of tp] by (auto simp: free_ports_def intro: finite_subset)

lemma posn_inj: "ring_inv tp \<Longrightarrow> inj_on (posn tp) (free_ports tp)"
  by (rule inj_onI) (metis ring_invD(6))

text \<open>Taking the first free port and releasing it puts it at the end of the ring.\<close>

lemma rotate:
  fixes tp tp1 :: turnports
  assumes inv: "ring_inv tp" and al: "allocated tp p tp1" and room: "unat (tp_high tp) < 4294967292"
  defines "tp2 \<equiv> turnports_release tp1 p"
  shows "ring_inv tp2" "free_ports tp2 = free_ports tp" "in_rng tp2 = in_rng tp"
    "unat (tp_high tp2) = unat (tp_high tp) + 1"
    "x \<in> free_ports tp \<Longrightarrow> x \<noteq> p \<Longrightarrow> rank tp x = Suc (rank tp2 x)"
proof -
  obtain l where inv1: "ring_inv tp1" and t: "taken tp1 p" and f1: "free_ports tp1 = free_ports tp - {p}"
    and pf: "p \<in> free_ports tp" and least: "\<And>x. x \<in> free_ports tp \<Longrightarrow> posn tp p \<le> posn tp x"
    and tp1: "tp1 = tp\<lparr>tp_status := (tp_status tp)(p := TPS_TAKEN_SINGLE), tp_low := l\<rparr>"
    using al by (auto simp: allocated_def)
  have eq: "in_rng tp1 = in_rng tp" "tp_high tp1 = tp_high tp" "x \<noteq> p \<Longrightarrow> posn tp1 x = posn tp x" for x
    by (simp_all add: tp1 in_rng_def posn_def fun_eq_iff)
  have pin: "in_rng tp1 p" using pf eq(1) by (simp add: free_ports_def)
  note R = release_taken [OF inv1 _ pin t, unfolded eq(2), OF room, folded tp2_def]
  show "ring_inv tp2" by (rule R(1))
  show "free_ports tp2 = free_ports tp" using R(2) pf f1 by auto
  show "in_rng tp2 = in_rng tp" using R(3) eq(1) by simp
  show "unat (tp_high tp2) = unat (tp_high tp) + 1" by (rule R(4))
  assume x: "x \<in> free_ports tp" "x \<noteq> p"
  have h: "posn tp y < unat (tp_high tp)" if "y \<in> free_ports tp" for y
    using ring_invD(5) [OF inv that] by (simp add: window_def)
  have "posn tp p < posn tp x"
    using least [OF x(1)] posn_inj [OF inv] pf x by (metis inj_onD le_neq_implies_less)
  then have "{y \<in> free_ports tp. posn tp y < posn tp x} = insert p {y \<in> free_ports tp2. posn tp2 y < posn tp2 x}"
    using R(2,5) eq(3) x pf f1 h [OF x(1)] by (auto split: if_splits)
  moreover have "p \<notin> {y \<in> free_ports tp2. posn tp2 y < posn tp2 x}"
    using R(5) eq(3) [OF x(2)] x(2) h [OF x(1)] by simp
  moreover have "finite {y \<in> free_ports tp2. posn tp2 y < posn tp2 x}"
    using finite_free [OF R(1)] by simp
  ultimately show "rank tp x = Suc (rank tp2 x)" by (simp add: rank_def)
qed

lemma word_of_int_u16 [simp]: "word_of_int (uint (p :: u16)) = p"
  by simp

text \<open>The outcome of the search for an even port whose successor is free too, after n attempts.\<close>

definition even_outcome :: "nat \<Rightarrow> turnports \<Rightarrow> int \<times> u64 option \<times> turnports \<Rightarrow> bool" where
  "even_outcome n tp res \<longleftrightarrow> (case res of (r, tok, tp') \<Rightarrow>
     ring_inv tp' \<and> in_rng tp' = in_rng tp \<and> unat (tp_high tp') \<le> unat (tp_high tp) + n \<and>
     (r = - 1 \<and> free_ports tp' = free_ports tp \<and>
        (\<forall>p\<in>free_ports tp. even (unat p) \<longrightarrow> p + 1 \<in> free_ports tp \<longrightarrow> n \<le> rank tp p) \<or>
      (\<exists>p. r = uint p \<and> even (unat p) \<and> p \<in> free_ports tp \<and> p + 1 \<in> free_ports tp \<and>
        free_ports tp' = free_ports tp - {p, p + 1})))"

lemma uint_succ_even:
  assumes "even (unat (p :: u16))"
  shows "uint (p + 1) = uint p + 1"
proof -
  have "unat p + 1 < 65536" using unat_u16 [of p] assms by presburger
  then have "unat (p + 1) = unat p + 1" by (simp add: unat_word_ariths)
  then show ?thesis by (simp only: uint_nat of_nat_add of_nat_1)
qed

lemma odd_uint: "odd (uint (p :: u16)) \<longleftrightarrow> odd (unat p)"
  by (simp only: uint_nat even_of_nat)

lemma allocate_even_step:
  assumes inv: "ring_inv tp" and al: "allocated tp p tp1" and eq: "turnports_allocate tp = (uint p, tp1)"
  shows "allocate_even_loop (Suc n) want r tp =
    (if even (unat p) \<and> p + 1 \<in> free_ports tp
     then (uint p, if want then Some (reservation_token
        (tp1\<lparr>tp_status := (tp_status tp1)(p := TPS_TAKEN_EVEN, p + 1 := TPS_TAKEN_ODD)\<rparr>) r) else None,
        tp1\<lparr>tp_status := (tp_status tp1)(p := TPS_TAKEN_EVEN, p + 1 := TPS_TAKEN_ODD)\<rparr>)
     else allocate_even_loop n want r (turnports_release tp1 p))"
proof (cases "even (unat p)")
  case True
  have inv1: "ring_inv tp1" and f: "free_ports tp1 = free_ports tp - {p}" and rs: "range_stop tp1 = range_stop tp"
    using al by (auto simp: allocated_def)
  have e: "\<not> odd (uint p)" using True odd_uint by blast
  have w: "word_of_int (uint p + 1) = p + 1" "uint p + 1 > uint (range_stop tp1) \<longleftrightarrow> \<not> p + 1 \<le> range_stop tp1"
    using uint_succ_even [OF True] by (simp_all add: word_le_def not_le flip: uint_succ_even [OF True])
  have ne: "p + 1 \<noteq> p" by simp
  have "p + 1 \<in> free_ports tp \<Longrightarrow> p + 1 \<le> range_stop tp1" by (simp add: rs free_ports_def in_rng_def)
  then show ?thesis
    using True e w is_available_free [OF inv1, of "p + 1"] f ne by (auto simp: eq Let_def)
next
  case False
  then have "odd (uint p)" using odd_uint by blast
  then show ?thesis using False by (simp add: eq)
qed

lemma allocate_even_loop_spec:
  assumes "ring_inv tp" "unat (tp_high tp) + n \<le> 4294967292" "free_ports tp \<noteq> {} \<or> \<not> in_rng tp 0xFFFF"
  shows "even_outcome n tp (allocate_even_loop n want r tp)"
  using assms
proof (induction n arbitrary: tp)
  case 0
  then show ?case by (simp add: even_outcome_def)
next
  case (Suc n)
  from allocate_spec [OF Suc.prems(1)] consider
    l where "free_ports tp = {}" "turnports_allocate tp = (- 1, tp\<lparr>tp_low := l\<rparr>)" "ring_inv (tp\<lparr>tp_low := l\<rparr>)"
  | p tp1 where "turnports_allocate tp = (uint p, tp1)" "allocated tp p tp1" by blast
  then show ?case
  proof cases
    case 1
    have "(- 1 :: u16) = 0xFFFF" by simp
    then have "turnports_release (tp\<lparr>tp_low := l\<rparr>) (- 1) = tp\<lparr>tp_low := l\<rparr>"
      using Suc.prems(3) 1(1) by (intro release_other) (simp only: set_low_simps, simp)
    then have "allocate_even_loop (Suc n) want r tp = allocate_even_loop n want r (tp\<lparr>tp_low := l\<rparr>)"
      using 1(2) by simp
    with Suc.IH [OF 1(3)] Suc.prems 1(1) show ?thesis by (auto simp: even_outcome_def)
  next
    case (2 p tp1)
    have pf: "p \<in> free_ports tp" "free_ports tp1 = free_ports tp - {p}" using 2(2) by (auto simp: allocated_def)
    show ?thesis
    proof (cases "even (unat p) \<and> p + 1 \<in> free_ports tp")
      case True
      then have "p + 1 \<in> free_ports tp1" using pf by auto
      from take_pair [OF 2(2) _ this] True pf show ?thesis
        unfolding allocate_even_step [OF Suc.prems(1) 2(2,1)] by (auto simp: even_outcome_def)
    next
      case False
      have "unat (tp_high tp) < 4294967292" using Suc.prems(2) by simp
      note R = rotate [OF Suc.prems(1) 2(2) this]
      have "even_outcome n (turnports_release tp1 p) (allocate_even_loop n want r (turnports_release tp1 p))"
        using Suc.prems pf(1) R by (intro Suc.IH) auto
      moreover have "rank tp x = Suc (rank (turnports_release tp1 p) x)"
        if "x \<in> free_ports tp" "even (unat x)" "x + 1 \<in> free_ports tp" for x
        using R(5) [OF that(1)] that False by blast
      ultimately show ?thesis
        using R(2-4) False unfolding allocate_even_step [OF Suc.prems(1) 2(2,1)]
        by (auto simp: even_outcome_def split: prod.splits)
    qed
  qed
qed

lemma free_le_window:
  assumes "ring_inv tp"
  shows "card (free_ports tp) \<le> card (window tp)"
  using posn_inj [OF assms] ring_invD(5) [OF assms] by (intro card_inj_on_le) (auto simp: window_def)

lemma size_window:
  assumes "ring_inv tp"
  shows "unat (turnports_size tp) = card (window tp)"
proof -
  have "unat (tp_high tp - tp_low tp) = card (window tp)"
    using ring_invD(3) [OF assms] by (simp add: window_def unat_sub word_le_nat_alt)
  then show ?thesis
    using window_size [OF assms] by (simp add: turnports_size_def unsigned_ucast_eq take_bit_nat_eq_self)
qed

lemma allocate_even_spec:
  assumes inv: "ring_inv tp" and room: "unat (tp_high tp) + 65536 \<le> 4294967292" and nz: "\<not> in_rng tp 0xFFFF"
  shows "case turnports_allocate_even tp want r of (res, tok, tp') \<Rightarrow>
     ring_inv tp' \<and> in_rng tp' = in_rng tp \<and> unat (tp_high tp') \<le> unat (tp_high tp) + 65536 \<and>
     (res = - 1 \<and> free_ports tp' = free_ports tp \<and>
        (\<forall>p\<in>free_ports tp. even (unat p) \<longrightarrow> p + 1 \<notin> free_ports tp) \<or>
      (\<exists>p. res = uint p \<and> even (unat p) \<and> p \<in> free_ports tp \<and> p + 1 \<in> free_ports tp \<and>
        free_ports tp' = free_ports tp - {p, p + 1}))"
proof -
  note f = finite_free [OF inv] and fw = free_le_window [OF inv] and sz = size_window [OF inv]
  show ?thesis
  proof (cases "1 < turnports_size tp")
    case True
    let ?n = "card (window tp)"
    have eq: "turnports_allocate_even tp want r = allocate_even_loop ?n want r tp"
      using True sz by (simp add: turnports_allocate_even_def)
    have "even_outcome ?n tp (allocate_even_loop ?n want r tp)"
      using room window_size [OF inv] nz by (intro allocate_even_loop_spec [OF inv]) auto
    moreover have "rank tp p < ?n" if "p \<in> free_ports tp" for p
    proof -
      have "rank tp p < card (free_ports tp)"
        unfolding rank_def using f that by (intro psubset_card_mono) auto
      with fw show ?thesis by simp
    qed
    ultimately show ?thesis
      using window_size [OF inv] unfolding eq even_outcome_def by (fastforce split: prod.splits)
  next
    case False
    have "p + 1 \<notin> free_ports tp" if "p \<in> free_ports tp" for p
    proof
      assume "p + 1 \<in> free_ports tp"
      then have "card {p, p + 1} \<le> card (free_ports tp)" using that f by (intro card_mono) auto
      then have "2 \<le> unat (turnports_size tp)" using fw sz by simp
      with False show False by (simp add: word_less_nat_alt)
    qed
    then show ?thesis using False inv by (simp add: turnports_allocate_even_def)
  qed
qed

section \<open>Creation establishes the invariant\<close>

definition shuffled :: "turnports \<Rightarrow> bool" where
  "shuffled tp \<longleftrightarrow> range_start tp \<le> range_stop tp \<and> tp_low tp = ucast (range_start tp) \<and>
     tp_high tp = ucast (range_stop tp) + 1 \<and>
     (\<forall>p. in_rng tp p \<longrightarrow> (\<exists>q. in_rng tp q \<and> tp_status tp p = ucast q \<and> tp_ports tp q = p)) \<and>
     (\<forall>q. in_rng tp q \<longrightarrow> in_rng tp (tp_ports tp q) \<and> tp_status tp (tp_ports tp q) = ucast q) \<and>
     (\<forall>p. \<not> in_rng tp p \<longrightarrow> tp_status tp p = TPS_OUT_OF_RANGE)"

lemma ucast_u16_u32 [simp]: "(ucast (ucast (q :: u16) :: u32) :: u16) = q"
  by (rule u16_eqI) (simp add: bit_simps)

lemma ucast_u32_inj: "(ucast (q :: u16) :: u32) = ucast q' \<longleftrightarrow> q = q'"
  by (metis ucast_u16_u32)

lemma unat_ucast_u32 [simp]: "unat (ucast (q :: u16) :: u32) = unat q"
  using unat_u16 [of q] by (simp add: unsigned_ucast_eq take_bit_nat_eq_self)

lemma swap_shuffled:
  assumes s: "shuffled tp" and p: "in_rng tp p1" "in_rng tp p2"
  shows "\<exists>tp'. swap_ports tp p1 p2 = Some tp' \<and> shuffled tp' \<and> range_start tp' = range_start tp \<and> range_stop tp' = range_stop tp"
proof (cases "p1 = p2")
  case False
  have D: "\<And>p. in_rng tp p \<Longrightarrow> \<exists>q. in_rng tp q \<and> tp_status tp p = ucast q \<and> tp_ports tp q = p"
    "\<And>q. in_rng tp q \<Longrightarrow> in_rng tp (tp_ports tp q)" "\<And>q. in_rng tp q \<Longrightarrow> tp_status tp (tp_ports tp q) = ucast q"
    "\<And>p. \<not> in_rng tp p \<Longrightarrow> tp_status tp p = TPS_OUT_OF_RANGE"
    using s by (simp_all add: shuffled_def)
  obtain q1 q2 where q: "in_rng tp q1" "tp_status tp p1 = ucast q1" "tp_ports tp q1 = p1"
    "in_rng tp q2" "tp_status tp p2 = ucast q2" "tp_ports tp q2 = p2"
    using D(1) [OF p(1)] D(1) [OF p(2)] by blast
  let ?tp = "tp\<lparr>tp_status := (tp_status tp)(p1 := ucast q2, p2 := ucast q1), tp_ports := (tp_ports tp)(q1 := p2, q2 := p1)\<rparr>"
  have eq: "swap_ports tp p1 p2 = Some ?tp"
    using False q unat_u16 [of q1] unat_u16 [of q2] by (simp add: swap_ports_def Let_def)
  have r: "in_rng ?tp = in_rng tp" by (simp add: in_rng_def fun_eq_iff)
  have ne: "q1 \<noteq> q2" using False q by auto
  have "\<exists>q. in_rng tp q \<and> tp_status ?tp x = ucast q \<and> tp_ports ?tp q = x" if x: "in_rng tp x" for x
  proof -
    obtain q where "in_rng tp q" "tp_status tp x = ucast q" "tp_ports tp q = x"
      using D(1) [OF x] by blast
    then show ?thesis
      using q ne False by (cases "x = p1"; cases "x = p2") auto
  qed
  moreover have "in_rng tp (tp_ports ?tp x) \<and> tp_status ?tp (tp_ports ?tp x) = ucast x" if "in_rng tp x" for x
  proof -
    have "in_rng tp (tp_ports tp x)" "tp_status tp (tp_ports tp x) = ucast x"
      using D that by auto
    then show ?thesis
      using q ne False p by (auto simp: ucast_u32_inj)
  qed
  moreover have "tp_status ?tp x = TPS_OUT_OF_RANGE" if "\<not> in_rng tp x" for x
    using D(4) that p by auto
  ultimately have "shuffled ?tp" using s unfolding shuffled_def r by simp
  with eq show ?thesis by auto
qed (use s in \<open>simp add: swap_ports_def\<close>)

lemma random_port_in:
  assumes "shuffled tp"
  shows "in_rng tp (random_port tp r)"
proof -
  define a b where "a = unat (range_start tp)" and "b = unat (range_stop tp)"
  have ab: "a \<le> b" "b < 65536" using assms unat_u16 by (auto simp: shuffled_def a_def b_def word_le_nat_alt)
  have low: "unat (tp_low tp) = a" and high: "unat (tp_high tp) = b + 1"
    using assms ab(2) by (simp_all add: shuffled_def a_def b_def unat_word_ariths)
  have size: "unat (tp_high tp - tp_low tp) = b + 1 - a"
    using low high ab by (simp add: unat_sub word_le_nat_alt)
  then have "unat (ucast (tp_high tp - tp_low tp) :: u64) = b + 1 - a"
    using ab by (simp add: unsigned_ucast_eq take_bit_nat_eq_self)
  then have m: "unat (r mod ucast (tp_high tp - tp_low tp)) = unat r mod (b + 1 - a)"
    by (simp add: unat_mod)
  have lt: "unat r mod (b + 1 - a) < b + 1 - a" using ab by simp
  define k where "k = unat r mod (b + 1 - a)"
  have k: "k \<le> b - a" "k < 65536" using lt ab unfolding k_def by linarith+
  have "unat (ucast (r mod ucast (tp_high tp - tp_low tp)) :: u16) = k"
    using m k by (simp add: unsigned_ucast_eq k_def take_bit_nat_eq_self)
  then have "unat (tp_low tp + ucast (ucast (r mod ucast (tp_high tp - tp_low tp)) :: u16)) = a + k"
    using low k ab by (simp add: unat_word_ariths)
  then have "unat (random_port tp r) = a + k"
    using k ab by (simp add: random_port_def Let_def unsigned_ucast_eq take_bit_nat_eq_self)
  then show ?thesis using k ab by (simp add: in_rng_def word_le_nat_alt a_def b_def)
qed

lemma randomize_loop_shuffled:
  assumes "shuffled tp"
  shows "\<exists>tp'. randomize_loop rnd i n tp = Some tp' \<and> shuffled tp' \<and> range_start tp' = range_start tp \<and>
    range_stop tp' = range_stop tp"
  using assms
proof (induction n arbitrary: i tp)
  case (Suc n)
  obtain tp1 where tp1: "swap_ports tp (random_port tp (rnd (2 * i))) (random_port tp (rnd (2 * i + 1))) = Some tp1"
    "shuffled tp1" "range_start tp1 = range_start tp" "range_stop tp1 = range_stop tp"
    using swap_shuffled [OF Suc.prems random_port_in [OF Suc.prems] random_port_in [OF Suc.prems]] by blast
  with Suc.IH [OF tp1(2), of "i + 1"] show ?case by simp
qed simp

lemma shuffled_ring_inv:
  assumes s: "shuffled tp" and n: "unat (range_stop tp) - unat (range_start tp) < 43690"
  shows "ring_inv tp" "free_ports tp = {range_start tp..range_stop tp}" "unat (tp_high tp) \<le> 65536"
proof -
  have D: "range_start tp \<le> range_stop tp" "tp_low tp = ucast (range_start tp)" "tp_high tp = ucast (range_stop tp) + 1"
    "\<And>p. in_rng tp p \<Longrightarrow> \<exists>q. in_rng tp q \<and> tp_status tp p = ucast q \<and> tp_ports tp q = p"
    "\<And>q. in_rng tp q \<Longrightarrow> in_rng tp (tp_ports tp q)" "\<And>q. in_rng tp q \<Longrightarrow> tp_status tp (tp_ports tp q) = ucast q"
    "\<And>p. \<not> in_rng tp p \<Longrightarrow> tp_status tp p = TPS_OUT_OF_RANGE"
    using s by (simp_all add: shuffled_def)
  have h: "unat (tp_high tp) = unat (range_stop tp) + 1" "unat (tp_low tp) = unat (range_start tp)"
    using unat_u16 [of "range_stop tp"] by (simp_all add: D(2,3) unat_word_ariths)
  then show "unat (tp_high tp) \<le> 65536" using unat_u16 [of "range_stop tp"] by simp
  have win: "q \<in> window tp \<longleftrightarrow> q < 65536 \<and> in_rng tp (of_nat q)" for q
    using unat_u16 [of "range_stop tp"] by (auto simp: window_def h in_rng_def word_le_nat_alt unat_of_nat)
  have pos: "posn tp p < 65536 \<and> in_rng tp (of_nat (posn tp p)) \<and> slot tp (posn tp p) = p" if p: "in_rng tp p" for p
  proof -
    obtain q where q: "in_rng tp q" "tp_status tp p = ucast q" "tp_ports tp q = p" using D(4) [OF p] by blast
    then have "posn tp p = unat q" by (simp add: posn_def)
    with q show ?thesis using unat_u16 [of q] by (simp add: slot_def)
  qed
  have nt: "\<not> is_taken (tp_status tp p)" if "in_rng tp p" for p
    using pos [OF that] by (auto simp: posn_def is_taken_def)
  then show f: "free_ports tp = {range_start tp..range_stop tp}"
    by (auto simp: free_ports_def in_rng_def)
  have live: "in_rng tp (slot tp q)" "posn tp (slot tp q) = q" if "q \<in> window tp" for q
    using that D(5,6) [of "of_nat q"] by (simp_all add: win slot_def posn_def unat_of_nat)
  show "ring_inv tp"
    unfolding ring_inv_def
  proof (intro conjI ballI allI impI)
    fix p assume "p \<in> free_ports tp"
    then show "posn tp p \<in> window tp" "slot tp (posn tp p) = p"
      using pos [of p] by (simp_all add: free_ports_def win)
  next
    fix q q' assume "q \<in> window tp" "q' \<in> window tp" "q < q'" "slot tp q = slot tp q'"
    then show "posn tp (slot tp q) = q'" using live(2) by metis
  qed (use D n h unat_u16 [of "range_stop tp"] live in \<open>auto simp: word_le_nat_alt\<close>)
qed

lemma create_ring_inv:
  assumes "s \<le> e" "unat e - unat s < 43690"
  shows "\<exists>tp. turnports_create rnd s e = Some (Some tp) \<and> ring_inv tp \<and> free_ports tp = {s..e} \<and>
    {p. in_rng tp p} = {s..e} \<and> unat (tp_high tp) \<le> 65536"
proof -
  let ?tp = "\<lparr>tp_status = (\<lambda>i. if i < s then TPS_OUT_OF_RANGE else if i \<le> e then ucast i else TPS_OUT_OF_RANGE),
        tp_low = ucast s, tp_high = ucast e + 1, range_start = s, range_stop = e, tp_ports = (\<lambda>i. i)\<rparr>"
  have "shuffled ?tp" using assms(1) by (auto simp: shuffled_def in_rng_def not_less)
  then obtain tp where tp: "randomize_loop rnd 0 (unat ((tp_high ?tp - tp_low ?tp) * 10)) ?tp = Some tp"
    "shuffled tp" "range_start tp = s" "range_stop tp = e"
    using randomize_loop_shuffled [of ?tp rnd 0 "unat ((tp_high ?tp - tp_low ?tp) * 10)"] by auto
  have "turnports_create rnd s e = Some (Some tp)"
    unfolding turnports_create_def turnports_init_def turnports_randomize_def Let_def tp(1)
    using assms(1) by simp
  moreover have "{p. in_rng tp p} = {s..e}" using tp by (auto simp: in_rng_def)
  ultimately show ?thesis
    using shuffled_ring_inv [OF tp(2)] assms(2) tp(3,4) by simp
qed

section \<open>The pool implements the contract\<close>

definition pool_inv :: "nat \<Rightarrow> turnports \<Rightarrow> bool" where
  "pool_inv k tp \<longleftrightarrow> ring_inv tp \<and> \<not> in_rng tp 0xFFFF \<and> unat (tp_high tp) + k \<le> 4294967292"

definition allocate_pair :: "turnports \<Rightarrow> int \<times> turnports" where
  "allocate_pair tp = (case turnports_allocate_even tp False 0 of (r, tok, tp') \<Rightarrow> (r, tp'))"

interpretation relay_ports: port_pool pool_inv "\<lambda>tp. {p. in_rng tp p}" free_ports
  turnports_allocate allocate_pair turnports_release
proof (unfold_locales, goal_cases)
  case (1 k tp)
  show ?case by (auto simp: free_ports_def)
next
  case (2 k tp r tp')
  then show ?case
    using allocate_spec [of tp] by (auto simp: pool_inv_def allocated_def in_rng_def)
next
  case (3 k tp r tp')
  then have "ring_inv tp" "unat (tp_high tp) + 65536 \<le> 4294967292" "\<not> in_rng tp 0xFFFF"
    by (auto simp: pool_inv_def)
  from allocate_even_spec [OF this, of False 0] 3 show ?case
    by (auto simp: pool_inv_def allocate_pair_def split: prod.splits)
next
  case (4 k tp p)
  then have "ring_inv tp" "unat (tp_high tp) < 4294967292" by (auto simp: pool_inv_def)
  from release_spec [OF this, of p] 4 show ?case by (simp add: pool_inv_def)
next
  case (5 k tp)
  then show ?case by (simp add: pool_inv_def)
qed

text \<open>An allocation returns the free port that has been free for the longest time and takes
  exactly that port, and it fails only if no port is free.\<close>

theorem turnports_allocate_fifo:
  assumes "ring_inv tp"
  shows "case turnports_allocate tp of (r, tp') \<Rightarrow> ring_inv tp' \<and>
    (if free_ports tp = {} then r = - 1 \<and> free_ports tp' = {}
     else \<exists>p\<in>free_ports tp. r = uint p \<and> (\<forall>x\<in>free_ports tp. posn tp p \<le> posn tp x) \<and>
       free_ports tp' = free_ports tp - {p} \<and> turnports_is_allocated tp' p)"
  using allocate_spec [OF assms]
  by (auto simp: allocated_def taken_def turnports_is_allocated_def)

lemma small_pool:
  obtains tp where "turnports_create (\<lambda>_. 7) 50000 50003 = Some (Some tp)" "ring_inv tp" "free_ports tp \<noteq> {}"
    "\<not> in_rng tp 0xFFFF" "unat (tp_high tp) \<le> 65536"
proof -
  have "(50000 :: u16) \<le> 50003" "unat (50003 :: u16) - unat (50000 :: u16) < 43690" by simp_all
  from create_ring_inv [OF this] obtain tp where tp: "turnports_create (\<lambda>_. 7) 50000 50003 = Some (Some tp)" "ring_inv tp"
    "free_ports tp = {50000..50003}" "{p. in_rng tp p} = {50000..50003}" "unat (tp_high tp) \<le> 65536" by blast
  have "(0xFFFF :: u16) \<notin> {50000..50003}" by simp
  then have "\<not> in_rng tp 0xFFFF" using tp(4) by blast
  moreover have "(50000 :: u16) \<in> {50000..50003}" by simp
  then have "free_ports tp \<noteq> {}" using tp(3) by blast
  ultimately show ?thesis using that tp by blast
qed

theorem turnports_allocate_fifo_witness:
  "\<exists>tp. turnports_create (\<lambda>_. 7) 50000 50003 = Some (Some tp) \<and> free_ports tp \<noteq> {} \<and>
     (case turnports_allocate tp of (r, tp') \<Rightarrow> ring_inv tp' \<and>
       (if free_ports tp = {} then r = - 1 \<and> free_ports tp' = {}
        else \<exists>p\<in>free_ports tp. r = uint p \<and> (\<forall>x\<in>free_ports tp. posn tp p \<le> posn tp x) \<and>
          free_ports tp' = free_ports tp - {p} \<and> turnports_is_allocated tp' p))"
proof -
  obtain tp where tp: "turnports_create (\<lambda>_. 7) 50000 50003 = Some (Some tp)" "ring_inv tp" "free_ports tp \<noteq> {}"
    by (rule small_pool)
  show ?thesis by (intro exI [of _ tp] conjI tp(1,3)) (rule turnports_allocate_fifo [OF tp(2)])
qed





section \<open>Two defects\<close>

lemmas allocate_even_loop_numeral =
  allocate_even_loop.simps(2) [of "pred_numeral k" for k, folded numeral_eq_Suc]

text \<open>When a pool whose range ends at port 65535 has no free port, a request for a pair of
  ports can make port 65535 available although it is in use: the failed allocation returns -1, which
  is odd and is released as port 65535.  Here a pool of four ports is filled by two pairs, a third
  request fails, and the next allocation returns port 65535 again.\<close>

theorem allocate_even_frees_used_port:
  "\<exists>tp. turnports_create (\<lambda>n. if n = 0 then 1 else if n = 1 then 2 else 0) 0xFFFC 0xFFFF = Some (Some tp) \<and>
    (case turnports_allocate_even tp False 0 of (p1, _, tp1) \<Rightarrow>
     case turnports_allocate_even tp1 False 0 of (p2, _, tp2) \<Rightarrow>
     case turnports_allocate_even tp2 False 0 of (p3, _, tp3) \<Rightarrow>
       p1 = 0xFFFC \<and> p2 = 0xFFFE \<and> turnports_is_allocated tp2 0xFFFF \<and>
       p3 = - 1 \<and> fst (turnports_allocate tp3) = 0xFFFF)"
proof -
  let ?rnd = "\<lambda>n. if n = 0 then 1 else if n = 1 then 2 else (0 :: u64)"
  have noop: "randomize_loop ?rnd (Suc i) n tp = Some tp" for i n tp
    by (induction n arbitrary: i) (simp_all add: swap_ports_def)
  define st where "st = (\<lambda>i :: u16. if i < 0xFFFC then TPS_OUT_OF_RANGE else if i \<le> 0xFFFF then ucast i else TPS_OUT_OF_RANGE)"
  have st: "st 0xFFFC = 0xFFFC" "st 0xFFFD = 0xFFFD" "st 0xFFFE = 0xFFFE" "st 0xFFFF = 0xFFFF"
    by (simp_all add: st_def)
  let ?A = "\<lparr>tp_status = st(0xFFFD := 0xFFFE, 0xFFFE := 0xFFFD), tp_low = 0xFFFC, tp_high = 0x10000,
    range_start = 0xFFFC, range_stop = 0xFFFF, tp_ports = (\<lambda>i. i)(0xFFFD := 0xFFFE, 0xFFFE := 0xFFFD)\<rparr>"
  have "(40 :: nat) = Suc 39" by simp
  then have "randomize_loop ?rnd 0 40 \<lparr>tp_status = st, tp_low = 0xFFFC, tp_high = 0x10000, range_start = 0xFFFC,
      range_stop = 0xFFFF, tp_ports = \<lambda>i. i\<rparr> = Some ?A"
    by (simp only: randomize_loop.simps) (simp add: noop random_port_def swap_ports_def st Let_def)
  then have A: "turnports_create ?rnd 0xFFFC 0xFFFF = Some (Some ?A)"
    by (simp add: turnports_create_def turnports_init_def turnports_randomize_def Let_def flip: st_def)
  let ?B = "?A\<lparr>tp_status := (tp_status ?A)(0xFFFC := TPS_TAKEN_EVEN, 0xFFFD := TPS_TAKEN_ODD), tp_low := 0xFFFD\<rparr>"
  let ?C = "?B\<lparr>tp_status := (tp_status ?B)(0xFFFE := TPS_TAKEN_EVEN, 0xFFFF := TPS_TAKEN_ODD), tp_low := 0xFFFE\<rparr>"
  note al = is_taken_def Let_def st and ev = turnports_allocate_even_def turnports_size_def
    turnports_is_available_def turnports_release_def
  have "turnports_allocate ?A =
      (0xFFFC, ?A\<lparr>tp_status := (tp_status ?A)(0xFFFC := TPS_TAKEN_SINGLE), tp_low := 0xFFFD\<rparr>)"
    by (subst turnports_allocate.simps) (simp add: al)
  then have B: "turnports_allocate_even ?A False 0 = (0xFFFC, None, ?B)"
    by (simp add: ev al allocate_even_loop_numeral)
  have "turnports_allocate ?B =
      (0xFFFE, ?B\<lparr>tp_status := (tp_status ?B)(0xFFFE := TPS_TAKEN_SINGLE), tp_low := 0xFFFE\<rparr>)"
    by (subst turnports_allocate.simps) (simp add: al)
  then have C: "turnports_allocate_even ?B False 0 = (0xFFFE, None, ?C)"
    by (simp add: ev al allocate_even_loop_numeral)
  let ?D1 = "?C\<lparr>tp_status := (tp_status ?C)(0xFFFF := 0x10000), tp_low := 0x10000, tp_high := 0x10001,
    tp_ports := (tp_ports ?C)(0 := 0xFFFF)\<rparr>"
  let ?D2 = "?D1\<lparr>tp_status := (tp_status ?D1)(0xFFFF := 0x10001), tp_low := 0x10001, tp_high := 0x10002,
    tp_ports := (tp_ports ?D1)(1 := 0xFFFF)\<rparr>"
  have C1: "turnports_allocate ?C = (- 1, ?C\<lparr>tp_low := 0x10000\<rparr>)"
    by (subst turnports_allocate.simps, simp add: al, subst turnports_allocate.simps, simp add: al,
        subst turnports_allocate.simps, simp)
  have C2: "turnports_allocate ?D1 =
      (0xFFFF, ?D1\<lparr>tp_status := (tp_status ?D1)(0xFFFF := TPS_TAKEN_SINGLE), tp_low := 0x10001\<rparr>)"
    by (subst turnports_allocate.simps) (simp add: al)
  have m: "(- 1 :: u16) = 0xFFFF" by simp
  have D: "turnports_allocate_even ?C False 0 = (- 1, None, ?D2)"
    using C1 C2 by (simp add: ev al allocate_even_loop_numeral m)
  have "fst (turnports_allocate ?D2) = 0xFFFF"
    by (subst turnports_allocate.simps) (simp add: al)
  with A B C D show ?thesis
    by (intro exI [of _ ?A]) (simp add: turnports_is_allocated_def is_taken_def)
qed

text \<open>The position counters are 32 bits wide and are never reset: the release that makes the
  counter high wrap around to zero marks the port as out of range, and from then on every allocation
  fails although the port is in range and not taken.\<close>

theorem turnports_counter_wrap:
  assumes "in_rng tp p" "taken tp p" "tp_high tp = 0xFFFFFFFF"
  shows "p \<in> free_ports (turnports_release tp p) \<and>
    \<not> turnports_is_available (turnports_release tp p) p \<and>
    turnports_allocate (turnports_release tp p) = (- 1, turnports_release tp p)"
proof -
  have r: "turnports_release tp p = tp\<lparr>tp_status := (tp_status tp)(p := 0xFFFFFFFF),
      tp_ports := (tp_ports tp)(0xFFFF := p), tp_high := 0\<rparr>"
    using assms by (simp add: turnports_release_def in_rng_def taken_def)
  have "p \<in> free_ports (turnports_release tp p)"
    using assms(1) by (simp add: r free_ports_def in_rng_def is_taken_def)
  moreover have "turnports_allocate (turnports_release tp p) = (- 1, turnports_release tp p)"
    unfolding r by (subst turnports_allocate.simps) simp
  ultimately show ?thesis by (simp add: r turnports_is_available_def)
qed

theorem turnports_counter_wrap_witness:
  "let tp = \<lparr>tp_status = (\<lambda>_. TPS_TAKEN_SINGLE), tp_low = 0xFFFFFFFF, tp_high = 0xFFFFFFFF, range_start = 49152,
     range_stop = 65535, tp_ports = (\<lambda>i. i)\<rparr> in
   50000 \<in> free_ports (turnports_release tp 50000) \<and> turnports_allocate (turnports_release tp 50000) =
     (- 1, turnports_release tp 50000)"
proof -
  let ?tp = "\<lparr>tp_status = (\<lambda>_. TPS_TAKEN_SINGLE), tp_low = 0xFFFFFFFF, tp_high = 0xFFFFFFFF, range_start = 49152,
     range_stop = 65535, tp_ports = (\<lambda>i. i)\<rparr>"
  have "in_rng ?tp 50000" "taken ?tp 50000" by (simp_all add: in_rng_def taken_def is_taken_def)
  from turnports_counter_wrap [OF this] show ?thesis by (simp add: Let_def)
qed

end
