(* ===== verification/Net_Buffer.thy ===== *)
theory Net_Buffer
  imports Stun_Msg
begin

text \<open>
  Network buffers of the engine (stun_buffer of stun_buffer.h and the functions
  ioa_network_buffer_... of ns_ioalib_engine_impl.c) and the bandwidth limit of a socket.

  A buffer is one memory object, the four bytes of the member channel and then the bytes of the
  member buf, with a window: its start is moved behind by the offset and before by the coffset, so
  that a channel header can be cut off or put in front without moving the payload.  The size is
  the length of the window.  Lengths are of type size_t, 64-bit words whose arithmetic wraps around.
\<close>

section \<open>Buffers\<close>

abbreviation (input) STUN_BUFFER_SIZE :: nat where "STUN_BUFFER_SIZE \<equiv> 65507"
abbreviation (input) UDP_STUN_BUFFER_SIZE :: u64 where "UDP_STUN_BUFFER_SIZE \<equiv> 16384"
abbreviation (input) STUN_CHANNEL_HEADER_LENGTH :: nat where "STUN_CHANNEL_HEADER_LENGTH \<equiv> 4"

record stun_buffer =
  sb_mem :: buffer
  sb_len :: u64
  sb_offset :: u16
  sb_coffset :: u8

definition ioa_network_buffer_allocate :: "buffer \<Rightarrow> stun_buffer" where
  "ioa_network_buffer_allocate mem = \<lparr>sb_mem = mem, sb_len = 0, sb_offset = 0, sb_coffset = 0\<rparr>"

definition ioa_network_buffer_reset :: "stun_buffer \<Rightarrow> stun_buffer" where
  "ioa_network_buffer_reset nb = nb\<lparr>sb_len := 0, sb_offset := 0, sb_coffset := 0\<rparr>"

text \<open>The position of the first byte of the window, and the memory from there on.\<close>

definition window_start :: "stun_buffer \<Rightarrow> nat" where
  "window_start nb = STUN_CHANNEL_HEADER_LENGTH + unat (sb_offset nb) - unat (sb_coffset nb)"

definition ioa_network_buffer_data :: "stun_buffer \<Rightarrow> buffer" where
  "ioa_network_buffer_data nb = drop (window_start nb) (sb_mem nb)"

text \<open>The buffer after a write through the pointer to its data.\<close>

definition set_data :: "stun_buffer \<Rightarrow> buffer \<Rightarrow> stun_buffer" where
  "set_data nb d = nb\<lparr>sb_mem := take (window_start nb) (sb_mem nb) @ d\<rparr>"

definition ioa_network_buffer_get_size :: "stun_buffer \<Rightarrow> nat" where
  "ioa_network_buffer_get_size nb = unat (sb_len nb)"

definition ioa_network_buffer_get_capacity :: "stun_buffer \<Rightarrow> nat" where
  "ioa_network_buffer_get_capacity nb =
     (if unat (sb_offset nb) < STUN_BUFFER_SIZE then STUN_BUFFER_SIZE - unat (sb_offset nb) else 0)"

definition ioa_network_buffer_get_capacity_udp :: u64 where
  "ioa_network_buffer_get_capacity_udp = UDP_STUN_BUFFER_SIZE"

definition ioa_network_buffer_set_size :: "stun_buffer \<Rightarrow> u64 \<Rightarrow> stun_buffer" where
  "ioa_network_buffer_set_size nb len = nb\<lparr>sb_len := len\<rparr>"

definition ioa_network_buffer_add_offset_size :: "stun_buffer \<Rightarrow> u16 \<Rightarrow> u8 \<Rightarrow> u64 \<Rightarrow> stun_buffer" where
  "ioa_network_buffer_add_offset_size nb offset coffset len =
     (let nb = nb\<lparr>sb_len := len, sb_offset := sb_offset nb + offset, sb_coffset := sb_coffset nb + coffset\<rparr> in
      if ucast (sb_offset nb) + sb_len nb - ucast (sb_coffset nb) \<ge> 65507 \<or>
         unat (sb_offset nb) + STUN_CHANNEL_HEADER_LENGTH < unat (sb_coffset nb)
      then nb\<lparr>sb_coffset := 0, sb_len := 0, sb_offset := 0\<rparr>
      else nb)"

text \<open>The bytes of the window.\<close>

definition payload :: "stun_buffer \<Rightarrow> u8 list" where
  "payload nb = take (ioa_network_buffer_get_size nb) (ioa_network_buffer_data nb)"

text \<open>The window lies in the buffer.\<close>

definition buffer_ok :: "stun_buffer \<Rightarrow> bool" where
  "buffer_ok nb \<longleftrightarrow> unat (sb_coffset nb) \<le> unat (sb_offset nb) + STUN_CHANNEL_HEADER_LENGTH \<and>
     window_start nb + ioa_network_buffer_get_size nb \<le> length (sb_mem nb)"

lemma unat_u64: "unat (a :: u64) < 18446744073709551616"
  using unsigned_less [of a, where 'a = nat] by simp

text \<open>A window that passes the test of the function ends inside the buffer, if the length is not so
  large that the sum wraps around.\<close>

lemma uint_window:
  fixes l :: u64 and off :: u16 and coff :: u8
  shows "uint (ucast off + l - ucast coff :: u64) = (int (unat off) + int (unat l) - int (unat coff)) mod 18446744073709551616"
proof -
  have "uint (ucast off :: u64) = uint off" "uint (ucast coff :: u64) = uint coff"
    by (rule uint_up_ucast, simp add: is_up)+
  then show ?thesis by (simp add: uint_word_ariths mod_simps)
qed

lemma window_test:
  fixes l :: u64 and off :: u16 and coff :: u8
  assumes "unat l < 2 ^ 63"
  shows "ucast off + l - ucast coff < (65507 :: u64) \<longleftrightarrow>
    unat coff \<le> unat off + unat l \<and> unat off + unat l - unat coff < 65507"
proof -
  define z where "z = int (unat off) + int (unat l) - int (unat coff)"
  have iff: "ucast off + l - ucast coff < (65507 :: u64) \<longleftrightarrow> z mod 18446744073709551616 < 65507"
    by (simp only: word_less_def uint_window z_def) simp
  have "unat l < 9223372036854775808" using assms by simp
  then have b: "z < 18446744073709551616" "- 256 < z"
    using unat_u16 [of off] unat_u8 [of coff] unfolding z_def by linarith+
  show ?thesis
  proof (cases "0 \<le> z")
    case True
    then show ?thesis unfolding iff mod_pos_pos_trivial [OF True b(1)] unfolding z_def by linarith
  next
    case False
    then have "z mod 18446744073709551616 = z + 18446744073709551616"
      using b(2) mod_pos_pos_trivial [of "z + 18446744073709551616" 18446744073709551616] by simp
    then show ?thesis using False b(2) unfolding iff z_def by linarith
  qed
qed

section \<open>Windows stay in the buffer\<close>

lemma buffer_ok_allocate [simp]: "4 \<le> length mem \<Longrightarrow> buffer_ok (ioa_network_buffer_allocate mem)"
  by (simp add: buffer_ok_def ioa_network_buffer_allocate_def window_start_def ioa_network_buffer_get_size_def)

lemma buffer_ok_reset [simp]: "4 \<le> length (sb_mem nb) \<Longrightarrow> buffer_ok (ioa_network_buffer_reset nb)"
  by (simp add: buffer_ok_def ioa_network_buffer_reset_def window_start_def ioa_network_buffer_get_size_def)

lemma length_data: "length (ioa_network_buffer_data nb) = length (sb_mem nb) - window_start nb"
  by (simp add: ioa_network_buffer_data_def)

lemma buffer_ok_size: "buffer_ok nb \<Longrightarrow> ioa_network_buffer_get_size nb \<le> length (ioa_network_buffer_data nb)"
  unfolding buffer_ok_def length_data by linarith

lemma data_set_data: "window_start nb \<le> length (sb_mem nb) \<Longrightarrow> ioa_network_buffer_data (set_data nb d) = d"
  by (simp add: ioa_network_buffer_data_def set_data_def window_start_def)

text \<open>C15: Moving the window of a network buffer is memory safe: whatever the offsets, which are added
  modulo 16 and 8 bits, afterwards the window lies in the buffer, unless the requested length
  is so large that adding the offset to it wraps around.\<close>

theorem add_offset_size_safe:
  assumes "length (sb_mem nb) = STUN_CHANNEL_HEADER_LENGTH + STUN_BUFFER_SIZE" "unat len < 2 ^ 63"
  shows "buffer_ok (ioa_network_buffer_add_offset_size nb offset coffset len)"
  using assms window_test [of len "sb_offset nb + offset" "sb_coffset nb + coffset"]
  by (auto simp: ioa_network_buffer_add_offset_size_def buffer_ok_def Let_def window_start_def
      ioa_network_buffer_get_size_def not_le)

theorem add_offset_size_safe_witness:
  "buffer_ok (ioa_network_buffer_add_offset_size (ioa_network_buffer_allocate (replicate 65511 0)) 20 255 100)"
  by (rule add_offset_size_safe) (simp_all add: ioa_network_buffer_allocate_def)

text \<open>A window that fits is set as requested.\<close>

lemma add_offset_size_fits:
  assumes "unat len < 2 ^ 63" "unat (sb_coffset nb + coffset) \<le> unat (sb_offset nb + offset) + 4"
    "unat (sb_coffset nb + coffset) \<le> unat (sb_offset nb + offset) + unat len"
    "unat (sb_offset nb + offset) + unat len - unat (sb_coffset nb + coffset) < STUN_BUFFER_SIZE"
  shows "ioa_network_buffer_add_offset_size nb offset coffset len =
    nb\<lparr>sb_len := len, sb_offset := sb_offset nb + offset, sb_coffset := sb_coffset nb + coffset\<rparr>"
  using assms window_test [of len "sb_offset nb + offset" "sb_coffset nb + coffset"]
  by (simp add: ioa_network_buffer_add_offset_size_def Let_def not_le)

end
