(* ===== verification/Net_Bandwidth.thy ===== *)
theory Net_Bandwidth
  imports Net_Buffer
begin

text \<open>
  The bandwidth limit of a socket (ioa_socket_check_bandwidth of ns_ioalib_engine_impl.c).  In
  every interval of the engine's clock, a jiffie, a socket may read and write a number of bytes
  given by its session, counted apart for data and for control messages and for the two
  directions.
\<close>

datatype SOCKET_APP_TYPE = UNKNOWN_APP_SOCKET | CLIENT_SOCKET | HTTP_CLIENT_SOCKET | HTTPS_CLIENT_SOCKET | RELAY_SOCKET |
  RELAY_RTCP_SOCKET | TCP_CLIENT_DATA_SOCKET | TCP_RELAY_DATA_SOCKET | LISTENER_SOCKET

record traffic_bytes =
  jiffie_bytes_read :: u64
  jiffie_bytes_write :: u64

text \<open>The members of a socket that the limit uses; session_bps is None if the socket has no session.\<close>

record socket_traffic =
  sat :: SOCKET_APP_TYPE
  jiffie :: turn_time_t
  session_bps :: "u64 option"
  data_traffic :: traffic_bytes
  control_traffic :: traffic_bytes

definition limited :: "socket_traffic \<Rightarrow> bool" where
  "limited s \<longleftrightarrow> sat s \<in> {CLIENT_SOCKET, RELAY_SOCKET, RELAY_RTCP_SOCKET}"

text \<open>The traffic a message is counted in.\<close>

definition is_control :: "socket_traffic \<Rightarrow> stun_buffer \<Rightarrow> bool option" where
  "is_control s nbh =
     (if sat s = CLIENT_SOCKET then do {
        let buf = ioa_network_buffer_data nbh;
        let sz = ioa_network_buffer_get_size nbh;
        command \<leftarrow> stun_is_command_message_str buf sz;
        if command then do {
          meth \<leftarrow> stun_get_method_str buf sz;
          Some (meth \<noteq> STUN_METHOD_SEND \<and> meth \<noteq> STUN_METHOD_DATA)
        } else Some False
      } else Some False)"

definition traffic :: "bool \<Rightarrow> socket_traffic \<Rightarrow> traffic_bytes" where
  "traffic control s = (if control then control_traffic s else data_traffic s)"

definition set_traffic :: "bool \<Rightarrow> traffic_bytes \<Rightarrow> socket_traffic \<Rightarrow> socket_traffic" where
  "set_traffic control t s = (if control then s\<lparr>control_traffic := t\<rparr> else s\<lparr>data_traffic := t\<rparr>)"

definition count :: "bool \<Rightarrow> traffic_bytes \<Rightarrow> u64" where
  "count rd t = (if rd then jiffie_bytes_read t else jiffie_bytes_write t)"

definition set_count :: "bool \<Rightarrow> u64 \<Rightarrow> traffic_bytes \<Rightarrow> traffic_bytes" where
  "set_count rd n t = (if rd then t\<lparr>jiffie_bytes_read := n\<rparr> else t\<lparr>jiffie_bytes_write := n\<rparr>)"

definition ioa_socket_check_bandwidth ::
    "turn_time_t \<Rightarrow> socket_traffic \<Rightarrow> stun_buffer \<Rightarrow> bool \<Rightarrow> (bool \<times> socket_traffic) option" where
  "ioa_socket_check_bandwidth now s nbh rd =
     (case session_bps s of
        None \<Rightarrow> Some (True, s)
      | Some max_bps \<Rightarrow>
          if \<not> limited s then Some (True, s)
          else if max_bps < 1 then Some (True, s)
          else do {
            control \<leftarrow> is_control s nbh;
            let bsz = sb_len nbh;
            if jiffie s \<noteq> now then
              let s = s\<lparr>jiffie := now\<rparr>; t = \<lparr>jiffie_bytes_read = 0, jiffie_bytes_write = 0\<rparr> in
              if bsz > max_bps then Some (False, set_traffic control t s)
              else Some (True, set_traffic control (set_count rd bsz t) s)
            else
              let t = traffic control s; nsz = count rd t + bsz in
              if nsz > max_bps then Some (False, s)
              else Some (True, set_traffic control (set_count rd nsz t) s)
          })"

section \<open>The limit is respected\<close>

lemma count_set_count [simp]: "count d (set_count d' n t) = (if d = d' then n else count d t)"
  by (simp add: count_def set_count_def)

lemma count_zero [simp]: "count d \<lparr>jiffie_bytes_read = 0, jiffie_bytes_write = 0\<rparr> = 0"
  by (simp add: count_def)

lemma traffic_set_traffic [simp]: "traffic c (set_traffic c' t s) = (if c = c' then t else traffic c s)"
  by (simp add: traffic_def set_traffic_def)

lemma set_traffic_other [simp]:
  "jiffie (set_traffic c t s) = jiffie s" "session_bps (set_traffic c t s) = session_bps s"
  "sat (set_traffic c t s) = sat s"
  by (simp_all add: set_traffic_def)

lemma traffic_jiffie [simp]: "traffic c (s\<lparr>jiffie := now\<rparr>) = traffic c s"
  by (simp add: traffic_def)

text \<open>A sequence of messages in one jiffie: the bytes let through in a class and a direction.\<close>

fun passed_bytes :: "turn_time_t \<Rightarrow> bool \<Rightarrow> bool \<Rightarrow> socket_traffic \<Rightarrow> (stun_buffer \<times> bool) list \<Rightarrow> nat option" where
  "passed_bytes now c d s [] = Some 0"
| "passed_bytes now c d s ((nbh, rd) # ms) = do {
     control \<leftarrow> is_control s nbh;
     (ok, s') \<leftarrow> ioa_socket_check_bandwidth now s nbh rd;
     n \<leftarrow> passed_bytes now c d s' ms;
     Some (if ok \<and> control = c \<and> rd = d then unat (sb_len nbh) + n else n)
   }"

definition small :: "u64 \<Rightarrow> bool" where "small n \<longleftrightarrow> unat n < 2 ^ 63"

lemma small_add:
  assumes "small a" "small b"
  shows "unat (a + b) = unat a + unat b"
  using assms by (simp add: small_def unat_add_lem [THEN iffD1])

text \<open>In the jiffie of the socket the counter bounds what may still pass.\<close>

lemma passed_current:
  assumes "jiffie s = now" "session_bps s = Some b" "limited s" "b \<noteq> 0" "small b"
    "\<forall>m\<in>set ms. small (sb_len (fst m))" "\<And>c d. count d (traffic c s) \<le> b" "passed_bytes now c d s ms = Some n"
  shows "unat (count d (traffic c s)) + n \<le> unat b"
  using assms
proof (induction ms arbitrary: s n)
  case Nil
  then show ?case by (simp add: word_le_nat_alt)
next
  case (Cons m ms)
  obtain nbh rd where m: "m = (nbh, rd)" by (cases m)
  obtain control ok s' k where step: "is_control s nbh = Some control"
      "ioa_socket_check_bandwidth now s nbh rd = Some (ok, s')" "passed_bytes now c d s' ms = Some k"
      "n = (if ok \<and> control = c \<and> rd = d then unat (sb_len nbh) + k else k)"
    using Cons.prems(8) by (auto simp: m split: option.splits prod.splits Option.bind_splits)
  have "\<not> b < 1" using Cons.prems(4) by simp
  then have s': "s' = (if ok then set_traffic control (set_count rd (count rd (traffic control s) + sb_len nbh) (traffic control s)) s else s)"
      "ok \<longleftrightarrow> \<not> count rd (traffic control s) + sb_len nbh > b"
    using step(2) Cons.prems(1-3) step(1)
    by (auto simp: ioa_socket_check_bandwidth_def Let_def split: if_splits)
  have IH: "unat (count d (traffic c s')) + k \<le> unat b"
    by (rule Cons.IH) (use Cons.prems step s' in \<open>auto simp: limited_def m\<close>)
  have "small (count rd (traffic control s))" "small (sb_len nbh)"
    using Cons.prems(5,6) Cons.prems(7) [of rd control] by (auto simp: small_def m word_le_nat_alt)
  then show ?case using IH s' step(4) small_add by (auto split: if_splits)
qed

text \<open>C16: A socket respects its limit: in one jiffie the bytes it lets through in a class of traffic
  and a direction are at most the bytes per jiffie of its session, whatever the sequence of messages.\<close>

theorem bandwidth_respected:
  assumes "session_bps s = Some b" "limited s" "b \<noteq> 0" "small b" "\<forall>m\<in>set ms. small (sb_len (fst m))"
    "\<And>c d. count d (traffic c s) \<le> b" "passed_bytes now c d s ms = Some n"
  shows "n \<le> unat b"
proof (cases "jiffie s = now")
  case True
  have "unat (count d (traffic c s)) + n \<le> unat b" by (rule passed_current [OF True assms])
  then show ?thesis by simp
next
  case new: False
  show ?thesis
  proof (cases ms)
    case Nil
    then show ?thesis using assms(7) by simp
  next
    case (Cons m rest)
    obtain nbh rd where m: "m = (nbh, rd)" by (cases m)
    obtain control ok s' k where step: "is_control s nbh = Some control"
        "ioa_socket_check_bandwidth now s nbh rd = Some (ok, s')" "passed_bytes now c d s' rest = Some k"
        "n = (if ok \<and> control = c \<and> rd = d then unat (sb_len nbh) + k else k)"
      using assms(7) by (auto simp: m Cons split: option.splits prod.splits Option.bind_splits)
    have s': "s' = set_traffic control (set_count rd (if ok then sb_len nbh else 0) \<lparr>jiffie_bytes_read = 0, jiffie_bytes_write = 0\<rparr>) (s\<lparr>jiffie := now\<rparr>)"
        "ok \<longleftrightarrow> \<not> sb_len nbh > b"
      using step(2) assms(1-3) step(1) new
      by (auto simp: ioa_socket_check_bandwidth_def Let_def set_count_def split: if_splits)
    have counts: "count d (traffic c s') \<le> b" for c d
      using assms(6) [of d c] s'(2) unfolding s'(1) by (auto simp: not_less)
    have "unat (count d (traffic c s')) + k \<le> unat b"
      by (rule passed_current [OF _ _ _ assms(3,4) _ counts step(3)])
        (use assms(1,2,5) in \<open>simp_all add: s'(1) Cons limited_def\<close>)
    moreover have "ok \<Longrightarrow> control = c \<Longrightarrow> rd = d \<Longrightarrow> count d (traffic c s') = sb_len nbh" by (simp add: s'(1))
    ultimately show ?thesis using step(4) by (auto split: if_splits)
  qed
qed

text \<open>A relay socket with a limit of 100 bytes, and a message of 60 bytes.\<close>

definition no_traffic :: traffic_bytes where
  "no_traffic = \<lparr>jiffie_bytes_read = 0, jiffie_bytes_write = 0\<rparr>"

definition limited_socket :: socket_traffic where
  "limited_socket = \<lparr>sat = CLIENT_SOCKET, jiffie = 0, session_bps = Some 100, data_traffic = no_traffic, control_traffic = no_traffic\<rparr>"

definition message :: "u8 list \<Rightarrow> stun_buffer" where
  "message bs = \<lparr>sb_mem = replicate 4 0 @ bs, sb_len = of_nat (length bs), sb_offset = 0, sb_coffset = 0\<rparr>"

theorem bandwidth_respected_witness:
  "\<exists>n. passed_bytes 1 False False limited_socket (replicate 3 (message (replicate 60 0x40), False)) = Some n \<and> n \<le> 100"
proof -
  have run: "passed_bytes 1 False False limited_socket (replicate 3 (message (replicate 60 0x40), False)) = Some 60"
    by code_simp
  have "60 \<le> unat (100 :: u64)"
    by (rule bandwidth_respected [OF _ _ _ _ _ _ run])
      (auto simp: limited_socket_def limited_def small_def message_def count_def traffic_def no_traffic_def)
  then show ?thesis using run by simp
qed

definition binding_request :: stun_buffer where
  "binding_request = message ([0, 1, 0, 40, 0x21, 0x12, 0xA4, 0x42] @ replicate 52 0)"


end
