(* ===== verification/Map_Spec.thy ===== *)
theory Map_Spec
  imports Main
begin

text \<open>
  The contract of the keyed containers of the server: lookups after a sequence of insertions and
  deletions are those of a mathematical map whose keys are taken up to the equality test of the
  container.  The containers differ in what they do when a key is inserted that they already hold,
  hence the two interfaces: one for insertions of fresh keys, one for insertions of any key.
\<close>

datatype ('k, 'v) map_op = Put 'k 'v | Del 'k

text \<open>The specification: what a lookup of each key returns after the operations.\<close>

fun spec_run :: "('k \<Rightarrow> 'k \<Rightarrow> bool) \<Rightarrow> ('k, 'v) map_op list \<Rightarrow> ('k \<Rightarrow> 'v option) \<Rightarrow> 'k \<Rightarrow> 'v option" where
  "spec_run same [] f = f"
| "spec_run same (Put k v # ops) f = spec_run same ops (\<lambda>x. if same k x then Some v else f x)"
| "spec_run same (Del k # ops) f = spec_run same ops (\<lambda>x. if same k x then None else f x)"

text \<open>Every insertion is of a key that the map does not hold at that time.\<close>

fun fresh_run :: "('k \<Rightarrow> 'k \<Rightarrow> bool) \<Rightarrow> ('k, 'v) map_op list \<Rightarrow> ('k \<Rightarrow> 'v option) \<Rightarrow> bool" where
  "fresh_run same [] f = True"
| "fresh_run same (Put k v # ops) f = (f k = None \<and> fresh_run same ops (\<lambda>x. if same k x then Some v else f x))"
| "fresh_run same (Del k # ops) f = fresh_run same ops (\<lambda>x. if same k x then None else f x)"

fun ops_ok :: "('k \<Rightarrow> bool) \<Rightarrow> ('v \<Rightarrow> bool) \<Rightarrow> ('k, 'v) map_op \<Rightarrow> bool" where
  "ops_ok okk okv (Put k v) = (okk k \<and> okv v)"
| "ops_ok okk okv (Del k) = okk k"

fun map_run :: "('m \<Rightarrow> 'k \<Rightarrow> 'v \<Rightarrow> 'm) \<Rightarrow> ('m \<Rightarrow> 'k \<Rightarrow> 'm) \<Rightarrow> ('k, 'v) map_op list \<Rightarrow> 'm \<Rightarrow> 'm" where
  "map_run put del [] m = m"
| "map_run put del (Put k v # ops) m = map_run put del ops (put m k v)"
| "map_run put del (Del k # ops) m = map_run put del ops (del m k)"

lemma spec_run_cong:
  assumes "\<And>x. ok x \<Longrightarrow> f x = g x" "ok x"
  shows "spec_run same ops f x = spec_run same ops g x"
  using assms
proof (induction ops arbitrary: f g)
  case (Cons op ops)
  have "spec_run same ops (\<lambda>x. if same k x then r else f x) x = spec_run same ops (\<lambda>x. if same k x then r else g x) x"
    for k r
    using Cons.prems by (intro Cons.IH) auto
  then show ?case by (cases op) simp_all
qed auto

lemma fresh_run_cong:
  assumes "\<And>x. ok x \<Longrightarrow> f x = g x" "list_all (ops_ok ok okv) ops"
  shows "fresh_run same ops f = fresh_run same ops g"
  using assms
proof (induction ops arbitrary: f g)
  case (Cons op ops)
  show ?case
  proof (cases op)
    case (Put k v)
    with Cons.prems have "f k = g k" by simp
    moreover have "fresh_run same ops (\<lambda>x. if same k x then Some v else f x) =
        fresh_run same ops (\<lambda>x. if same k x then Some v else g x)"
      using Cons.prems by (intro Cons.IH) auto
    ultimately show ?thesis using Put by simp
  next
    case (Del k)
    have "fresh_run same ops (\<lambda>x. if same k x then None else f x) =
        fresh_run same ops (\<lambda>x. if same k x then None else g x)"
      using Cons.prems by (intro Cons.IH) auto
    then show ?thesis using Del by simp
  qed
qed simp

locale fresh_map =
  fixes inv :: "'m \<Rightarrow> bool"
    and okk :: "'k \<Rightarrow> bool"
    and okv :: "'v \<Rightarrow> bool"
    and same :: "'k \<Rightarrow> 'k \<Rightarrow> bool"
    and get :: "'m \<Rightarrow> 'k \<Rightarrow> 'v option"
    and put :: "'m \<Rightarrow> 'k \<Rightarrow> 'v \<Rightarrow> 'm"
    and del :: "'m \<Rightarrow> 'k \<Rightarrow> 'm"
  assumes put_fresh: "inv m \<Longrightarrow> okk k \<Longrightarrow> okv v \<Longrightarrow> get m k = None \<Longrightarrow>
      inv (put m k v) \<and> (\<forall>x. okk x \<longrightarrow> get (put m k v) x = (if same k x then Some v else get m x))"
    and del_law: "inv m \<Longrightarrow> okk k \<Longrightarrow>
      inv (del m k) \<and> (\<forall>x. okk x \<longrightarrow> get (del m k) x = (if same k x then None else get m x))"
begin

text \<open>Deleting what was inserted gives the old contents back.\<close>

lemma del_put:
  assumes "inv m" "okk k" "okv v" "get m k = None" "okk x" "same k x \<Longrightarrow> get m x = None"
  shows "get (del (put m k v) k) x = get m x"
  using put_fresh [OF assms(1-4)] del_law [of "put m k v" k] assms(2,5,6) by auto

lemma run_fresh:
  assumes "inv m" "list_all (ops_ok okk okv) ops" "fresh_run same ops (get m)"
  shows "inv (map_run put del ops m) \<and> (\<forall>x. okk x \<longrightarrow> get (map_run put del ops m) x = spec_run same ops (get m) x)"
  using assms
proof (induction ops arbitrary: m)
  case (Cons op ops)
  show ?case
  proof (cases op)
    case (Put k v)
    note p = put_fresh [of m k v]
    have eq: "get (put m k v) x = (if same k x then Some v else get m x)" if "okk x" for x
      using p Cons.prems Put that by auto
    have "fresh_run same ops (get (put m k v)) = fresh_run same ops (\<lambda>x. if same k x then Some v else get m x)"
      by (rule fresh_run_cong [of okk]) (use eq Cons.prems Put in auto)
    then have "inv (map_run put del ops (put m k v)) \<and>
        (\<forall>x. okk x \<longrightarrow> get (map_run put del ops (put m k v)) x = spec_run same ops (get (put m k v)) x)"
      using p Cons.prems Put by (intro Cons.IH) auto
    moreover have "spec_run same ops (get (put m k v)) x = spec_run same ops (\<lambda>x. if same k x then Some v else get m x) x"
      if "okk x" for x
      by (rule spec_run_cong [of okk]) (use eq that in auto)
    ultimately show ?thesis using Put by simp
  next
    case (Del k)
    note d = del_law [of m k]
    have eq: "get (del m k) x = (if same k x then None else get m x)" if "okk x" for x
      using d Cons.prems Del that by auto
    have "fresh_run same ops (get (del m k)) = fresh_run same ops (\<lambda>x. if same k x then None else get m x)"
      by (rule fresh_run_cong [of okk]) (use eq Cons.prems Del in auto)
    then have "inv (map_run put del ops (del m k)) \<and>
        (\<forall>x. okk x \<longrightarrow> get (map_run put del ops (del m k)) x = spec_run same ops (get (del m k)) x)"
      using d Cons.prems Del by (intro Cons.IH) auto
    moreover have "spec_run same ops (get (del m k)) x = spec_run same ops (\<lambda>x. if same k x then None else get m x) x"
      if "okk x" for x
      by (rule spec_run_cong [of okk]) (use eq that in auto)
    ultimately show ?thesis using Del by simp
  qed
qed simp

end

text \<open>A container in which an insertion replaces the old value of the key.\<close>

locale update_map = fresh_map +
  assumes put_any: "inv m \<Longrightarrow> okk k \<Longrightarrow> okv v \<Longrightarrow>
      inv (put m k v) \<and> (\<forall>x. okk x \<longrightarrow> get (put m k v) x = (if same k x then Some v else get m x))"
begin

lemma run_any:
  assumes "inv m" "list_all (ops_ok okk okv) ops"
  shows "inv (map_run put del ops m) \<and> (\<forall>x. okk x \<longrightarrow> get (map_run put del ops m) x = spec_run same ops (get m) x)"
  using assms
proof (induction ops arbitrary: m)
  case (Cons op ops)
  show ?case
  proof (cases op)
    case (Put k v)
    then have eq: "get (put m k v) x = (if same k x then Some v else get m x)" if "okk x" for x
      using put_any [of m k v] Cons.prems that by auto
    have "inv (map_run put del ops (put m k v)) \<and>
        (\<forall>x. okk x \<longrightarrow> get (map_run put del ops (put m k v)) x = spec_run same ops (get (put m k v)) x)"
      using put_any [of m k v] Cons.prems Put by (intro Cons.IH) auto
    moreover have "spec_run same ops (get (put m k v)) x = spec_run same ops (\<lambda>x. if same k x then Some v else get m x) x"
      if "okk x" for x
      by (rule spec_run_cong [of okk]) (use eq that in auto)
    ultimately show ?thesis using Put by simp
  next
    case (Del k)
    then have eq: "get (del m k) x = (if same k x then None else get m x)" if "okk x" for x
      using del_law [of m k] Cons.prems that by auto
    have "inv (map_run put del ops (del m k)) \<and>
        (\<forall>x. okk x \<longrightarrow> get (map_run put del ops (del m k)) x = spec_run same ops (get (del m k)) x)"
      using del_law [of m k] Cons.prems Del by (intro Cons.IH) auto
    moreover have "spec_run same ops (get (del m k)) x = spec_run same ops (\<lambda>x. if same k x then None else get m x) x"
      if "okk x" for x
      by (rule spec_run_cong [of okk]) (use eq that in auto)
    ultimately show ?thesis using Del by simp
  qed
qed simp

end

end
