(* ===== verification/Turn_Maps.thy ===== *)
theory Turn_Maps
  imports Ioaddr C_String Map_Spec
begin

text \<open>
  The containers of src/server/ns_turn_maps.c: the small hash map lm_map from numbers to numbers,
  the map ur_addr_map from transport addresses to pointers, the map ur_string_map from strings to
  pointers, and the map ur_map, whose hash table is the library khashl.  A bucket array whose size
  is a power of two is a function on words of the index width.  A pointer value is an option, None
  the null pointer.  Allocations of memory succeed; a function that a container calls on values it
  drops is represented by the list of these values.
\<close>

section \<open>lm_map\<close>

text \<open>A bucket: the LM_MAP_ARRAY_SIZE fixed cells and the extra_sz allocated ones, each a key and a
  value, a free cell having key 0 or value 0.  A value is a pointer kept as an integer: None is 0.\<close>

record 'v lm_map_array =
  main_cells :: "(u64 \<times> 'v option) list"
  extra_cells :: "(u64 \<times> 'v option) list"

record 'v lm_map =
  lm_table :: "3 word \<Rightarrow> 'v lm_map_array"

definition lm_map_init :: "'v lm_map" where
  "lm_map_init = \<lparr>lm_table = (\<lambda>_. \<lparr>main_cells = replicate 3 (0, None), extra_cells = []\<rparr>)\<rparr>"

definition lm_index :: "u64 \<Rightarrow> 3 word" where
  "lm_index key = ucast (key AND 7)"

text \<open>The loops of lm_map_put over the fixed cells (None: go on) and over the allocated ones.\<close>

fun main_put :: "u64 \<Rightarrow> 'v option \<Rightarrow> (u64 \<times> 'v option) list \<Rightarrow> (bool \<times> (u64 \<times> 'v option) list) option" where
  "main_put key value [] = None"
| "main_put key value ((key0, value0) # cs) =
     (if key0 = key then Some (value0 = value, (key0, value0) # cs)
      else if key0 = 0 \<or> value0 = None then Some (True, (key, value) # cs)
      else map_option (\<lambda>(r, cs). (r, (key0, value0) # cs)) (main_put key value cs))"

fun extra_put :: "u64 \<Rightarrow> 'v option \<Rightarrow> (u64 \<times> 'v option) list \<Rightarrow> (u64 \<times> 'v option) list" where
  "extra_put key value [] = [(key, value)]"
| "extra_put key value ((key0, value0) # cs) =
     (if key0 = 0 \<or> value0 = None then (key, value) # cs else (key0, value0) # extra_put key value cs)"

definition lm_map_put :: "'v lm_map \<Rightarrow> u64 \<Rightarrow> 'v option \<Rightarrow> bool \<times> 'v lm_map" where
  "lm_map_put m key value =
     (if key = 0 \<or> value = None then (False, m) else
        (let index = lm_index key; a = lm_table m index in
         case main_put key value (main_cells a) of
           Some (r, cs) \<Rightarrow> (r, m\<lparr>lm_table := (lm_table m)(index := a\<lparr>main_cells := cs\<rparr>)\<rparr>)
         | None \<Rightarrow> (True, m\<lparr>lm_table := (lm_table m)(index :=
             a\<lparr>extra_cells := extra_put key value (extra_cells a)\<rparr>)\<rparr>)))"

fun main_get :: "u64 \<Rightarrow> (u64 \<times> 'v option) list \<Rightarrow> 'v option option" where
  "main_get key [] = None"
| "main_get key ((key0, value0) # cs) = (if key0 = key \<and> value0 \<noteq> None then Some value0 else main_get key cs)"

fun extra_get :: "u64 \<Rightarrow> (u64 \<times> 'v option) list \<Rightarrow> 'v option option" where
  "extra_get key [] = None"
| "extra_get key ((key0, value0) # cs) = (if key0 = key then Some value0 else extra_get key cs)"

definition lm_map_get :: "'v lm_map \<Rightarrow> u64 \<Rightarrow> 'v option option" where
  "lm_map_get m key =
     (if key = 0 then None else
        (let a = lm_table m (lm_index key) in
         case main_get key (main_cells a) of
           Some v \<Rightarrow> Some v
         | None \<Rightarrow> extra_get key (extra_cells a)))"

fun main_del :: "u64 \<Rightarrow> (u64 \<times> 'v option) list \<Rightarrow> ('v option \<times> (u64 \<times> 'v option) list) option" where
  "main_del key [] = None"
| "main_del key ((key0, value0) # cs) =
     (if key0 = key \<and> value0 \<noteq> None then Some (value0, (0, None) # cs)
      else map_option (\<lambda>(v, cs). (v, (key0, value0) # cs)) (main_del key cs))"

fun extra_del :: "u64 \<Rightarrow> (u64 \<times> 'v option) list \<Rightarrow> ('v option \<times> (u64 \<times> 'v option) list) option" where
  "extra_del key [] = None"
| "extra_del key ((key0, value0) # cs) =
     (if key0 = key then Some (value0, (0, None) # cs)
      else map_option (\<lambda>(v, cs). (v, (key0, value0) # cs)) (extra_del key cs))"

text \<open>The result is the returned truth value, the value handed to delfunc, and the map.\<close>

definition lm_map_del :: "'v lm_map \<Rightarrow> u64 \<Rightarrow> bool \<times> 'v option option \<times> 'v lm_map" where
  "lm_map_del m key =
     (if key = 0 then (False, None, m) else
        (let index = lm_index key; a = lm_table m index in
         case main_del key (main_cells a) of
           Some (v, cs) \<Rightarrow> (True, Some v, m\<lparr>lm_table := (lm_table m)(index := a\<lparr>main_cells := cs\<rparr>)\<rparr>)
         | None \<Rightarrow>
             (case extra_del key (extra_cells a) of
                Some (v, cs) \<Rightarrow> (True, Some v, m\<lparr>lm_table := (lm_table m)(index := a\<lparr>extra_cells := cs\<rparr>)\<rparr>)
              | None \<Rightarrow> (False, None, m))))"

definition lm_map_exist :: "'v lm_map \<Rightarrow> u64 \<Rightarrow> bool" where
  "lm_map_exist m key = (lm_map_get m key \<noteq> None)"

definition lm_map_clean :: "'v lm_map \<Rightarrow> 'v lm_map" where
  "lm_map_clean m = lm_map_init"

definition lm_cells :: "'v lm_map \<Rightarrow> (u64 \<times> 'v option) list" where
  "lm_cells m = concat (map (\<lambda>i. main_cells (lm_table m (of_nat i)) @ extra_cells (lm_table m (of_nat i))) [0..<8])"

definition lm_map_size :: "'v lm_map \<Rightarrow> nat" where
  "lm_map_size m = length (filter (\<lambda>(k, v). k \<noteq> 0 \<and> v \<noteq> None) (lm_cells m))"

text \<open>A callback transforms the state it works on; returning true ends the loop.\<close>

fun foreach_cells :: "(u64 \<Rightarrow> 'v \<Rightarrow> 's \<Rightarrow> bool \<times> 's) \<Rightarrow> (u64 \<times> 'v option) list \<Rightarrow> 's \<Rightarrow> bool \<times> 's" where
  "foreach_cells func [] s = (False, s)"
| "foreach_cells func ((k, v) # cs) s =
     (if k \<noteq> 0 \<and> v \<noteq> None then
        (case func k (the v) s of (True, s) \<Rightarrow> (True, s) | (False, s) \<Rightarrow> foreach_cells func cs s)
      else foreach_cells func cs s)"

definition lm_map_foreach :: "'v lm_map \<Rightarrow> (u64 \<Rightarrow> 'v \<Rightarrow> 's \<Rightarrow> bool \<times> 's) \<Rightarrow> 's \<Rightarrow> bool \<times> 's" where
  "lm_map_foreach m func s = foreach_cells func (lm_cells m) s"

definition lm_map_foreach_arg :: "'v lm_map \<Rightarrow> (u64 \<Rightarrow> 'v \<Rightarrow> 's \<Rightarrow> bool \<times> 's) \<Rightarrow> 's \<Rightarrow> bool \<times> 's" where
  "lm_map_foreach_arg m func s = foreach_cells func (lm_cells m) s"

section \<open>ur_addr_map\<close>

record 'v addr_elem =
  elem_key :: ioa_addr
  elem_value :: "'v option"

record 'v addr_list_header =
  main_list :: "'v addr_elem list"
  extra_list :: "'v addr_elem list"

record 'v ur_addr_map =
  addr_lists :: "10 word \<Rightarrow> 'v addr_list_header"
  addr_magic :: u64

abbreviation (input) MAGIC_HASH :: u64 where "MAGIC_HASH \<equiv> 0x90ABCDEF"

definition empty_header :: "'v addr_list_header" where
  "empty_header = \<lparr>main_list = replicate 4 \<lparr>elem_key = addr_set_any, elem_value = None\<rparr>, extra_list = []\<rparr>"

definition addr_list_free :: "'v addr_list_header \<Rightarrow> 'v addr_list_header" where
  "addr_list_free slh = empty_header"

fun add_elem :: "ioa_addr \<Rightarrow> 'v \<Rightarrow> 'v addr_elem list \<Rightarrow> 'v addr_elem list option" where
  "add_elem key value [] = None"
| "add_elem key value (e # es) =
     (if elem_value e = None then Some (\<lparr>elem_key = key, elem_value = Some value\<rparr> # es)
      else map_option ((#) e) (add_elem key value es))"

definition addr_list_add :: "'v addr_list_header \<Rightarrow> ioa_addr option \<Rightarrow> 'v option \<Rightarrow> 'v addr_list_header" where
  "addr_list_add slh key value =
     (case (key, value) of
        (Some k, Some v) \<Rightarrow>
          (case add_elem k v (main_list slh) of
             Some l \<Rightarrow> slh\<lparr>main_list := l\<rparr>
           | None \<Rightarrow>
               (case add_elem k v (extra_list slh) of
                  Some l \<Rightarrow> slh\<lparr>extra_list := l\<rparr>
                | None \<Rightarrow> slh\<lparr>extra_list := extra_list slh @ [\<lparr>elem_key = k, elem_value = Some v\<rparr>]\<rparr>))
      | _ \<Rightarrow> slh)"

definition holds_key :: "ioa_addr option \<Rightarrow> 'v addr_elem \<Rightarrow> bool" where
  "holds_key key e \<longleftrightarrow> elem_value e \<noteq> None \<and> addr_eq (Some (elem_key e)) key"

definition clear_key :: "ioa_addr option \<Rightarrow> 'v addr_elem \<Rightarrow> 'v addr_elem" where
  "clear_key key e = (if holds_key key e then e\<lparr>elem_value := None\<rparr> else e)"

text \<open>The result is the list, the values handed to delfunc and the counter.\<close>

definition addr_list_remove :: "'v addr_list_header \<Rightarrow> ioa_addr option \<Rightarrow> 'v addr_list_header \<times> 'v list \<times> nat" where
  "addr_list_remove slh key =
     (case key of None \<Rightarrow> (slh, [], 0) | Some k \<Rightarrow>
        (let gone = filter (holds_key key) (main_list slh @ extra_list slh) in
         (slh\<lparr>main_list := map (clear_key key) (main_list slh), extra_list := map (clear_key key) (extra_list slh)\<rparr>,
          map (the \<circ> elem_value) gone, length gone)))"

definition live_values :: "'v addr_list_header \<Rightarrow> 'v list" where
  "live_values slh = map (the \<circ> elem_value) (filter (\<lambda>e. elem_value e \<noteq> None) (main_list slh @ extra_list slh))"

definition addr_list_foreach :: "'v addr_list_header \<Rightarrow> ('v \<Rightarrow> 's \<Rightarrow> 's) \<Rightarrow> 's \<Rightarrow> 's" where
  "addr_list_foreach slh func s = fold func (live_values slh) s"

text \<open>A callback that returns false ends the loop.\<close>

fun foreach_elems :: "('a \<Rightarrow> 's \<Rightarrow> bool \<times> 's) \<Rightarrow> 'a list \<Rightarrow> 's \<Rightarrow> bool \<times> 's" where
  "foreach_elems func [] s = (True, s)"
| "foreach_elems func (x # xs) s =
     (case func x s of (False, s) \<Rightarrow> (False, s) | (True, s) \<Rightarrow> foreach_elems func xs s)"

definition addr_list_foreach_arg :: "'v addr_list_header \<Rightarrow> ('v \<Rightarrow> 's \<Rightarrow> bool \<times> 's) \<Rightarrow> 's \<Rightarrow> bool \<times> 's" where
  "addr_list_foreach_arg slh func s = foreach_elems func (live_values slh) s"

definition addr_list_foreach_key_arg ::
    "'v addr_list_header \<Rightarrow> (ioa_addr \<Rightarrow> 'v \<Rightarrow> 's \<Rightarrow> bool \<times> 's) \<Rightarrow> 's \<Rightarrow> bool \<times> 's" where
  "addr_list_foreach_key_arg slh func s =
     foreach_elems (\<lambda>e. func (elem_key e) (the (elem_value e)))
       (filter (\<lambda>e. elem_value e \<noteq> None) (main_list slh @ extra_list slh)) s"

definition addr_list_num_elements :: "'v addr_list_header \<Rightarrow> nat" where
  "addr_list_num_elements slh = length (filter (\<lambda>e. elem_value e \<noteq> None) (main_list slh @ extra_list slh))"

definition addr_list_size :: "'v addr_list_header \<Rightarrow> nat" where
  "addr_list_size slh = 4 + length (extra_list slh)"

text \<open>A pointer to an element: which of the two lists, and the index.\<close>

fun find_elem :: "ioa_addr option \<Rightarrow> 'v addr_elem list \<Rightarrow> nat \<Rightarrow> nat option" where
  "find_elem key [] i = None"
| "find_elem key (e # es) i = (if holds_key key e then Some i else find_elem key es (i + 1))"

definition addr_list_get :: "'v addr_list_header \<Rightarrow> ioa_addr option \<Rightarrow> (bool \<times> nat) option" where
  "addr_list_get slh key =
     (case key of None \<Rightarrow> None | Some k \<Rightarrow>
        (case find_elem key (main_list slh) 0 of
           Some i \<Rightarrow> Some (False, i)
         | None \<Rightarrow> map_option (Pair True) (find_elem key (extra_list slh) 0)))"

definition addr_list_get_const :: "'v addr_list_header \<Rightarrow> ioa_addr option \<Rightarrow> 'v addr_elem option" where
  "addr_list_get_const slh key =
     (case key of None \<Rightarrow> None | Some k \<Rightarrow>
        (case find (holds_key key) (main_list slh) of
           Some e \<Rightarrow> Some e
         | None \<Rightarrow> find (holds_key key) (extra_list slh)))"

definition set_elem_value :: "'v addr_list_header \<Rightarrow> bool \<times> nat \<Rightarrow> 'v option \<Rightarrow> 'v addr_list_header" where
  "set_elem_value slh p value =
     (case p of
        (False, i) \<Rightarrow> slh\<lparr>main_list := (main_list slh)[i := (main_list slh ! i)\<lparr>elem_value := value\<rparr>]\<rparr>
      | (True, i) \<Rightarrow> slh\<lparr>extra_list := (extra_list slh)[i := (extra_list slh ! i)\<lparr>elem_value := value\<rparr>]\<rparr>)"

definition addr_map_index :: "ioa_addr option \<Rightarrow> 10 word" where
  "addr_map_index key = ucast (addr_hash key AND 1023)"

definition ur_addr_map_valid :: "'v ur_addr_map \<Rightarrow> bool" where
  "ur_addr_map_valid m \<longleftrightarrow> addr_magic m = MAGIC_HASH"

definition ur_addr_map_init :: "'v ur_addr_map" where
  "ur_addr_map_init = \<lparr>addr_lists = (\<lambda>_. empty_header), addr_magic = MAGIC_HASH\<rparr>"

definition ur_addr_map_clean :: "'v ur_addr_map \<Rightarrow> 'v ur_addr_map" where
  "ur_addr_map_clean m =
     (if ur_addr_map_valid m then \<lparr>addr_lists = (\<lambda>i. addr_list_free (addr_lists m i)), addr_magic = 0\<rparr> else m)"

definition ur_addr_map_put :: "'v ur_addr_map \<Rightarrow> ioa_addr option \<Rightarrow> 'v option \<Rightarrow> bool \<times> 'v ur_addr_map" where
  "ur_addr_map_put m key value =
     (if \<not> ur_addr_map_valid m then (False, m) else
        (let i = addr_map_index key; slh = addr_lists m i;
             slh' = (case addr_list_get slh key of
                       Some p \<Rightarrow> set_elem_value slh p value
                     | None \<Rightarrow> addr_list_add slh key value)
         in (True, m\<lparr>addr_lists := (addr_lists m)(i := slh')\<rparr>)))"

definition ur_addr_map_get :: "'v ur_addr_map \<Rightarrow> ioa_addr option \<Rightarrow> 'v option" where
  "ur_addr_map_get m key =
     (if \<not> ur_addr_map_valid m then None else
        (case addr_list_get_const (addr_lists m (addr_map_index key)) key of
           Some e \<Rightarrow> elem_value e
         | None \<Rightarrow> None))"

definition ur_addr_map_del :: "'v ur_addr_map \<Rightarrow> ioa_addr option \<Rightarrow> bool \<times> 'v list \<times> 'v ur_addr_map" where
  "ur_addr_map_del m key =
     (if \<not> ur_addr_map_valid m then (False, [], m) else
        (let i = addr_map_index key in
         case addr_list_remove (addr_lists m i) key of (slh, gone, counter) \<Rightarrow>
           (counter > 0, gone, m\<lparr>addr_lists := (addr_lists m)(i := slh)\<rparr>)))"

definition addr_headers :: "'v ur_addr_map \<Rightarrow> 'v addr_list_header list" where
  "addr_headers m = map (\<lambda>i. addr_lists m (of_nat i)) [0..<1024]"

definition ur_addr_map_foreach :: "'v ur_addr_map \<Rightarrow> ('v \<Rightarrow> 's \<Rightarrow> 's) \<Rightarrow> 's \<Rightarrow> 's" where
  "ur_addr_map_foreach m func s =
     (if ur_addr_map_valid m then fold (\<lambda>slh. addr_list_foreach slh func) (addr_headers m) s else s)"

definition ur_addr_map_foreach_arg :: "'v ur_addr_map \<Rightarrow> ('v \<Rightarrow> 's \<Rightarrow> bool \<times> 's) \<Rightarrow> 's \<Rightarrow> bool \<times> 's" where
  "ur_addr_map_foreach_arg m func s =
     (if ur_addr_map_valid m then foreach_elems (\<lambda>slh. addr_list_foreach_arg slh func) (addr_headers m) s
      else (True, s))"

definition ur_addr_map_foreach_key_arg ::
    "'v ur_addr_map \<Rightarrow> (ioa_addr \<Rightarrow> 'v \<Rightarrow> 's \<Rightarrow> bool \<times> 's) \<Rightarrow> 's \<Rightarrow> bool \<times> 's" where
  "ur_addr_map_foreach_key_arg m func s =
     (if ur_addr_map_valid m then foreach_elems (\<lambda>slh. addr_list_foreach_key_arg slh func) (addr_headers m) s
      else (True, s))"

definition ur_addr_map_num_elements :: "'v ur_addr_map \<Rightarrow> nat" where
  "ur_addr_map_num_elements m =
     (if ur_addr_map_valid m then sum_list (map addr_list_num_elements (addr_headers m)) else 0)"

definition ur_addr_map_size :: "'v ur_addr_map \<Rightarrow> nat" where
  "ur_addr_map_size m =
     (if ur_addr_map_valid m then sum_list (map addr_list_size (addr_headers m)) else 0)"

section \<open>ur_string_map\<close>

text \<open>A key is the string without its terminating zero.\<close>

record 'v string_elem =
  se_key :: "u8 list"
  se_value :: "'v option"

record 'v ur_string_map =
  string_lists :: "10 word \<Rightarrow> 'v string_elem list"
  string_magic :: u64
  has_del_func :: bool

definition string_list_size :: "'v string_elem list \<Rightarrow> nat" where
  "string_list_size sl = length sl"

text \<open>The values handed to del_value_func when a list is dropped.\<close>

definition string_list_free :: "bool \<Rightarrow> 'v string_elem list \<Rightarrow> 'v list" where
  "string_list_free del sl =
     (if del then map (the \<circ> se_value) (filter (\<lambda>e. se_value e \<noteq> None) sl) else [])"

definition string_list_add :: "'v string_elem list \<Rightarrow> u8 list \<Rightarrow> 'v option \<Rightarrow> 'v string_elem list" where
  "string_list_add sl key value = \<lparr>se_key = key, se_value = value\<rparr> # sl"

fun string_list_remove ::
    "bool \<Rightarrow> u8 list \<Rightarrow> 'v string_elem list \<Rightarrow> 'v string_elem list \<times> 'v option list \<times> nat" where
  "string_list_remove del key [] = ([], [], 0)"
| "string_list_remove del key (e # tail) =
     (case string_list_remove del key tail of (sl, gone, counter) \<Rightarrow>
        if se_key e = key then (sl, (if del then se_value e # gone else gone), counter + 1)
        else (e # sl, gone, counter))"

fun string_list_get :: "'v string_elem list \<Rightarrow> u8 list \<Rightarrow> 'v string_elem option" where
  "string_list_get [] key = None"
| "string_list_get (e # tail) key = (if se_key e = key then Some e else string_list_get tail key)"

definition string_hash :: "u8 list \<Rightarrow> u32" where
  "string_hash key = foldl (\<lambda>hash c. ucast c + push_bit 6 hash + push_bit 16 hash - hash) 0 key"

definition string_map_index :: "u8 list \<Rightarrow> 10 word" where
  "string_map_index key = of_nat (unat (string_hash key) mod 1024)"

definition ur_string_map_valid :: "'v ur_string_map \<Rightarrow> bool" where
  "ur_string_map_valid m \<longleftrightarrow> string_magic m = MAGIC_HASH"

definition ur_string_map_init :: "'v ur_string_map" where
  "ur_string_map_init = \<lparr>string_lists = (\<lambda>_. []), string_magic = MAGIC_HASH, has_del_func = False\<rparr>"

definition ur_string_map_create :: "bool \<Rightarrow> 'v ur_string_map" where
  "ur_string_map_create del = ur_string_map_init\<lparr>has_del_func := del\<rparr>"

fun set_value :: "u8 list \<Rightarrow> 'v option \<Rightarrow> 'v string_elem list \<Rightarrow> 'v string_elem list" where
  "set_value key value [] = []"
| "set_value key value (e # es) =
     (if se_key e = key then e\<lparr>se_value := value\<rparr> # es else e # set_value key value es)"

text \<open>The middle component is the list of pointers handed to del_value_func.\<close>

definition ur_string_map_put ::
    "'v ur_string_map \<Rightarrow> u8 list \<Rightarrow> 'v option \<Rightarrow> bool \<times> 'v option list \<times> 'v ur_string_map" where
  "ur_string_map_put m key value =
     (if \<not> ur_string_map_valid m then (False, [], m) else
        (let i = string_map_index key; sl = string_lists m i in
         case string_list_get sl key of
           Some e \<Rightarrow>
             if se_value e \<noteq> value then
               (True, if has_del_func m then [se_value e] else [],
                m\<lparr>string_lists := (string_lists m)(i := set_value key value sl)\<rparr>)
             else (True, [], m)
         | None \<Rightarrow> (True, [], m\<lparr>string_lists := (string_lists m)(i := string_list_add sl key value)\<rparr>)))"

definition ur_string_map_get :: "'v ur_string_map \<Rightarrow> u8 list \<Rightarrow> 'v option option" where
  "ur_string_map_get m key =
     (if \<not> ur_string_map_valid m then None else
        map_option se_value (string_list_get (string_lists m (string_map_index key)) key))"

definition ur_string_map_del :: "'v ur_string_map \<Rightarrow> u8 list \<Rightarrow> bool \<times> 'v option list \<times> 'v ur_string_map" where
  "ur_string_map_del m key =
     (if \<not> ur_string_map_valid m then (False, [], m) else
        (let i = string_map_index key in
         case string_list_remove (has_del_func m) key (string_lists m i) of (sl, gone, counter) \<Rightarrow>
           (counter > 0, gone, m\<lparr>string_lists := (string_lists m)(i := sl)\<rparr>)))"

definition string_lists_of :: "'v ur_string_map \<Rightarrow> 'v string_elem list list" where
  "string_lists_of m = map (\<lambda>i. string_lists m (of_nat i)) [0..<1024]"

definition ur_string_map_clean :: "'v ur_string_map \<Rightarrow> 'v list \<times> 'v ur_string_map" where
  "ur_string_map_clean m =
     (if ur_string_map_valid m then
        (concat (map (string_list_free (has_del_func m)) (string_lists_of m)), m\<lparr>string_lists := (\<lambda>_. [])\<rparr>)
      else ([], m))"

definition ur_string_map_free :: "'v ur_string_map option \<Rightarrow> 'v list \<times> 'v ur_string_map option" where
  "ur_string_map_free mp =
     (case mp of None \<Rightarrow> ([], None) | Some m \<Rightarrow>
        if ur_string_map_valid m then
          (concat (map (string_list_free (has_del_func m)) (string_lists_of m)), None)
        else ([], Some m))"

definition ur_string_map_size :: "'v ur_string_map \<Rightarrow> nat" where
  "ur_string_map_size m =
     (if ur_string_map_valid m then sum_list (map string_list_size (string_lists_of m)) else 0)"

section \<open>ur_map\<close>

text \<open>The table of the library khashl is represented by the map that it stores; it may refuse an
  insertion when memory is exhausted, which is the argument ok of ur_map_put.  A map pointer is an
  option.\<close>

record 'v ur_map =
  um_hash :: "(u64 \<rightharpoonup> 'v) option"
  um_magic :: u64

definition ur_map_valid :: "'v ur_map option \<Rightarrow> bool" where
  "ur_map_valid mp = (case mp of None \<Rightarrow> False | Some m \<Rightarrow> um_hash m \<noteq> None \<and> um_magic m = MAGIC_HASH)"

definition ur_map_create :: "bool \<Rightarrow> 'v ur_map option" where
  "ur_map_create ok = (if ok then Some \<lparr>um_hash = Some Map.empty, um_magic = MAGIC_HASH\<rparr> else None)"

definition um_table :: "'v ur_map option \<Rightarrow> u64 \<rightharpoonup> 'v" where
  "um_table mp = (case mp of None \<Rightarrow> Map.empty | Some m \<Rightarrow> (case um_hash m of None \<Rightarrow> Map.empty | Some h \<Rightarrow> h))"

definition ur_map_put :: "bool \<Rightarrow> 'v ur_map option \<Rightarrow> u64 \<Rightarrow> 'v \<Rightarrow> bool \<times> 'v ur_map option" where
  "ur_map_put ok mp key value =
     (if \<not> ur_map_valid mp then (False, mp)
      else if \<not> ok then (False, mp)
      else (True, map_option (\<lambda>m. m\<lparr>um_hash := Some ((um_table mp)(key \<mapsto> value))\<rparr>) mp))"

definition ur_map_get :: "'v ur_map option \<Rightarrow> u64 \<Rightarrow> 'v option" where
  "ur_map_get mp key = (if \<not> ur_map_valid mp then None else um_table mp key)"

definition ur_map_del :: "'v ur_map option \<Rightarrow> u64 \<Rightarrow> bool \<times> 'v option \<times> 'v ur_map option" where
  "ur_map_del mp key =
     (if \<not> ur_map_valid mp then (False, None, mp) else
        (case um_table mp key of
           Some v \<Rightarrow> (True, Some v, map_option (\<lambda>m. m\<lparr>um_hash := Some ((um_table mp)(key := None))\<rparr>) mp)
         | None \<Rightarrow> (False, None, mp)))"

definition ur_map_exist :: "'v ur_map option \<Rightarrow> u64 \<Rightarrow> bool" where
  "ur_map_exist mp key = (if \<not> ur_map_valid mp then False else um_table mp key \<noteq> None)"

section \<open>lm_map is a map for fresh keys\<close>

text \<open>In a bucket a cell is free or in use, cells in use have distinct keys, and their keys belong
  to the bucket.\<close>

definition used :: "(u64 \<times> 'v option) list \<Rightarrow> (u64 \<times> 'v option) list" where
  "used cs = filter (\<lambda>(k, v). k \<noteq> 0) cs"

definition bucket_inv :: "3 word \<Rightarrow> (u64 \<times> 'v option) list \<Rightarrow> bool" where
  "bucket_inv i cs \<longleftrightarrow> (\<forall>(k, v)\<in>set cs. k = 0 \<longleftrightarrow> v = None) \<and> distinct (map fst (used cs)) \<and>
     (\<forall>(k, v)\<in>set (used cs). lm_index k = i)"

definition lm_inv :: "'v lm_map \<Rightarrow> bool" where
  "lm_inv m \<longleftrightarrow> (\<forall>i. bucket_inv i (main_cells (lm_table m i) @ extra_cells (lm_table m i)))"

lemma main_get_map_of:
  "\<forall>(k, v)\<in>set cs. k = 0 \<longleftrightarrow> v = None \<Longrightarrow> key \<noteq> 0 \<Longrightarrow> main_get key cs = map_of (used cs) key"
  by (induction cs) (auto simp: used_def)

lemma extra_get_map_of:
  "\<forall>(k, v)\<in>set cs. k = 0 \<longleftrightarrow> v = None \<Longrightarrow> key \<noteq> 0 \<Longrightarrow> extra_get key cs = map_of (used cs) key"
  by (induction cs) (auto simp: used_def)

lemma lm_get_map_of:
  assumes "lm_inv m" "key \<noteq> 0"
  shows "lm_map_get m key =
    map_of (used (main_cells (lm_table m (lm_index key)) @ extra_cells (lm_table m (lm_index key)))) key"
proof -
  have "\<forall>(k, v)\<in>set (main_cells (lm_table m (lm_index key)) @ extra_cells (lm_table m (lm_index key))). k = 0 \<longleftrightarrow> v = None"
    using assms(1) by (auto simp: lm_inv_def bucket_inv_def)
  then show ?thesis
    using assms(2) main_get_map_of [of "main_cells (lm_table m (lm_index key))" key]
      extra_get_map_of [of "extra_cells (lm_table m (lm_index key))" key]
    by (auto simp: lm_map_get_def Let_def used_def map_add_def split: option.splits)
qed

lemma used_append [simp]: "used (a @ b) = used a @ used b"
  by (simp add: used_def)

lemma used_Cons [simp]: "used ((k, v) # cs) = (if k \<noteq> 0 then (k, v) # used cs else used cs)"
  by (simp add: used_def)

lemma used_Nil [simp]: "used [] = []"
  by (simp add: used_def)

text \<open>Putting a cell into a free place of a bucket and freeing a cell.\<close>

lemma fill_cell:
  assumes "bucket_inv i (a @ mid @ b)" "used mid = []" "key \<notin> fst ` set (used (a @ b))" "key \<noteq> 0" "v \<noteq> None" "lm_index key = i"
  shows "bucket_inv i (a @ (key, v) # b)"
    "map_of (used (a @ (key, v) # b)) x = (if key = x then Some v else map_of (used (a @ mid @ b)) x)"
proof -
  show "bucket_inv i (a @ (key, v) # b)" using assms by (auto simp: bucket_inv_def)
  have "map_of (used a) key = None" using assms(3) by (auto simp: map_of_eq_None_iff)
  then show "map_of (used (a @ (key, v) # b)) x = (if key = x then Some v else map_of (used (a @ mid @ b)) x)"
    using assms(2,4) by (auto simp: map_add_def split: option.splits)
qed

lemma free_cell:
  assumes "bucket_inv i (a @ (key, v) # b)" "key \<noteq> 0"
  shows "bucket_inv i (a @ (0, None) # b)"
    "map_of (used (a @ (0, None) # b)) x = (if key = x then None else map_of (used (a @ (key, v) # b)) x)"
proof -
  show "bucket_inv i (a @ (0, None) # b)" using assms by (auto simp: bucket_inv_def)
  have "map_of (used a) key = None" "map_of (used b) key = None"
    using assms by (auto simp: bucket_inv_def map_of_eq_None_iff)
  then show "map_of (used (a @ (0, None) # b)) x = (if key = x then None else map_of (used (a @ (key, v) # b)) x)"
    using assms(2) by (auto simp: map_add_def split: option.splits)
qed

lemma main_put_cases:
  assumes "\<forall>(k, v)\<in>set cs. k = 0 \<longleftrightarrow> v = None" "key \<notin> fst ` set (used cs)" "key \<noteq> 0"
  shows "main_put key value cs = None \<or>
    (\<exists>a b. cs = a @ (0, None) # b \<and> main_put key value cs = Some (True, a @ (key, value) # b))"
  using assms
proof (induction cs)
  case (Cons c cs)
  obtain k v where c: "c = (k, v)" by fastforce
  show ?case
  proof (cases "k = 0")
    case True
    then show ?thesis using Cons.prems c by (intro disjI2 exI [of _ "[]"] exI [of _ cs]) auto
  next
    case False
    then have n: "k \<noteq> key" "v \<noteq> None" using Cons.prems c by auto
    from Cons.IH Cons.prems False c consider "main_put key value cs = None"
      | a b where "cs = a @ (0, None) # b" "main_put key value cs = Some (True, a @ (key, value) # b)" by auto
    then show ?thesis
    proof cases
      case (2 a b)
      then show ?thesis using c n False by (intro disjI2 exI [of _ "c # a"] exI [of _ b]) auto
    qed (use c n False in auto)
  qed
qed simp

lemma extra_put_cases:
  assumes "\<forall>(k, v)\<in>set cs. k = 0 \<longleftrightarrow> v = None"
  shows "\<exists>a mid b. cs = a @ mid @ b \<and> used mid = [] \<and> extra_put key value cs = a @ (key, value) # b"
  using assms
proof (induction cs)
  case (Cons c cs)
  obtain k v where c: "c = (k, v)" by fastforce
  show ?case
  proof (cases "k = 0")
    case True
    then show ?thesis using c by (intro exI [of _ "[]"] exI [of _ "[c]"] exI [of _ cs]) auto
  next
    case False
    from Cons.IH Cons.prems obtain a mid b where "cs = a @ mid @ b" "used mid = []"
      "extra_put key value cs = a @ (key, value) # b" by auto
    moreover obtain w where "v = Some w" using Cons.prems c False by auto
    ultimately show ?thesis using c False by (intro exI [of _ "c # a"] exI [of _ mid] exI [of _ b]) simp
  qed
qed auto

lemma main_del_cases:
  assumes "\<forall>(k, v)\<in>set cs. k = 0 \<longleftrightarrow> v = None" "key \<noteq> 0"
  shows "main_del key cs = None \<and> key \<notin> fst ` set (used cs) \<or>
    (\<exists>a v b. cs = a @ (key, v) # b \<and> main_del key cs = Some (v, a @ (0, None) # b))"
  using assms
proof (induction cs)
  case (Cons c cs)
  obtain k v where c: "c = (k, v)" by fastforce
  show ?case
  proof (cases "k = key")
    case True
    then show ?thesis using Cons.prems c by (intro disjI2 exI [of _ "[]"] exI [of _ v] exI [of _ cs]) auto
  next
    case False
    from Cons.IH Cons.prems consider "main_del key cs = None" "key \<notin> fst ` set (used cs)"
      | a w b where "cs = a @ (key, w) # b" "main_del key cs = Some (w, a @ (0, None) # b)" by auto
    then show ?thesis
    proof cases
      case (2 a w b)
      then show ?thesis using c False by (intro disjI2 exI [of _ "c # a"] exI [of _ w] exI [of _ b]) auto
    qed (use c False in auto)
  qed
qed simp

lemma extra_del_main_del:
  "\<forall>(k, v)\<in>set cs. k = 0 \<longleftrightarrow> v = None \<Longrightarrow> key \<noteq> 0 \<Longrightarrow> extra_del key cs = main_del key cs"
  by (induction cs) auto

text \<open>Changing one bucket.\<close>

lemma lm_update:
  assumes inv: "lm_inv m"
    and b: "bucket_inv i (main_cells a @ extra_cells a)"
    and eq: "\<And>x. lm_index x = i \<Longrightarrow> x \<noteq> 0 \<Longrightarrow> map_of (used (main_cells a @ extra_cells a)) x =
      (if key = x then r else map_of (used (main_cells (lm_table m i) @ extra_cells (lm_table m i))) x)"
    and i: "i = lm_index key"
  shows "lm_inv (m\<lparr>lm_table := (lm_table m)(i := a)\<rparr>) \<and>
    (\<forall>x. x \<noteq> 0 \<longrightarrow> lm_map_get (m\<lparr>lm_table := (lm_table m)(i := a)\<rparr>) x = (if key = x then r else lm_map_get m x))"
proof -
  let ?m = "m\<lparr>lm_table := (lm_table m)(i := a)\<rparr>"
  have inv': "lm_inv ?m" using inv b by (simp add: lm_inv_def)
  moreover have "lm_map_get ?m x = (if key = x then r else lm_map_get m x)" if "x \<noteq> 0" for x
    using lm_get_map_of [OF inv' that] lm_get_map_of [OF inv that] eq [OF _ that] i
    by (cases "lm_index x = i") auto
  ultimately show ?thesis by blast
qed

lemma lm_put_law:
  assumes inv: "lm_inv m" and k: "key \<noteq> 0" and v: "v \<noteq> None" and fresh: "lm_map_get m key = None"
  shows "lm_inv (snd (lm_map_put m key v)) \<and> fst (lm_map_put m key v) \<and>
    (\<forall>x. x \<noteq> 0 \<longrightarrow> lm_map_get (snd (lm_map_put m key v)) x = (if key = x then Some v else lm_map_get m x))"
proof -
  define i a where "i = lm_index key" and "a = lm_table m i"
  have b: "bucket_inv i (main_cells a @ extra_cells a)" using inv by (simp add: lm_inv_def a_def)
  then have wf: "\<forall>(k, v)\<in>set (main_cells a). k = 0 \<longleftrightarrow> v = None" "\<forall>(k, v)\<in>set (extra_cells a). k = 0 \<longleftrightarrow> v = None"
    by (auto simp: bucket_inv_def)
  have nk: "key \<notin> fst ` set (used (main_cells a @ extra_cells a))"
    using fresh lm_get_map_of [OF inv k] by (simp add: a_def i_def map_of_eq_None_iff flip: used_append)
  then have nk1: "key \<notin> fst ` set (used (main_cells a))" by (auto simp: image_Un)
  from main_put_cases [OF wf(1) nk1 k, of v] consider "main_put key v (main_cells a) = None"
    | p q where "main_cells a = p @ (0, None) # q" "main_put key v (main_cells a) = Some (True, p @ (key, v) # q)"
    by metis
  then show ?thesis
  proof cases
    case 1
    obtain p mid q where e: "extra_cells a = p @ mid @ q" "used mid = []" "extra_put key v (extra_cells a) = p @ (key, v) # q"
      using extra_put_cases [OF wf(2)] by blast
    have f: "bucket_inv i (main_cells a @ (p @ (key, v) # q))"
      "map_of (used (main_cells a @ (p @ (key, v) # q))) x =
        (if key = x then Some v else map_of (used (main_cells a @ extra_cells a)) x)" for x
      using fill_cell [of i "main_cells a @ p" mid q key v] b e(1,2) nk k v i_def [symmetric] by (simp_all add: image_Un)
    have "lm_map_put m key v = (True, m\<lparr>lm_table := (lm_table m)(i := a\<lparr>extra_cells := p @ (key, v) # q\<rparr>)\<rparr>)"
      using 1 e(3) k v by (simp add: lm_map_put_def Let_def flip: i_def a_def)
    then show ?thesis
      using lm_update [OF inv, of i "a\<lparr>extra_cells := p @ (key, v) # q\<rparr>" key "Some v"] f i_def a_def by simp
  next
    case (2 p q)
    have f: "bucket_inv i ((p @ (key, v) # q) @ extra_cells a)"
      "map_of (used ((p @ (key, v) # q) @ extra_cells a)) x =
        (if key = x then Some v else map_of (used (main_cells a @ extra_cells a)) x)" for x
      using fill_cell [of i p "[(0, None)]" "q @ extra_cells a" key v] b 2(1) nk k v i_def [symmetric] by (simp_all add: image_Un)
    have "lm_map_put m key v = (True, m\<lparr>lm_table := (lm_table m)(i := a\<lparr>main_cells := p @ (key, v) # q\<rparr>)\<rparr>)"
      using 2(2) k v by (simp add: lm_map_put_def Let_def flip: i_def a_def)
    then show ?thesis
      using lm_update [OF inv, of i "a\<lparr>main_cells := p @ (key, v) # q\<rparr>" key "Some v"] f i_def a_def by simp
  qed
qed

lemma lm_del_law:
  assumes inv: "lm_inv m" and k: "key \<noteq> 0"
  shows "lm_inv (snd (snd (lm_map_del m key))) \<and> fst (snd (lm_map_del m key)) = lm_map_get m key \<and>
    (\<forall>x. x \<noteq> 0 \<longrightarrow> lm_map_get (snd (snd (lm_map_del m key))) x = (if key = x then None else lm_map_get m x))"
proof -
  define i a where "i = lm_index key" and "a = lm_table m i"
  have b: "bucket_inv i (main_cells a @ extra_cells a)" using inv by (simp add: lm_inv_def a_def)
  then have wf: "\<forall>(k, v)\<in>set (main_cells a). k = 0 \<longleftrightarrow> v = None" "\<forall>(k, v)\<in>set (extra_cells a). k = 0 \<longleftrightarrow> v = None"
    by (auto simp: bucket_inv_def)
  have get: "lm_map_get m key = map_of (used (main_cells a @ extra_cells a)) key"
    using lm_get_map_of [OF inv k] by (simp add: a_def i_def)
  from main_del_cases [OF wf(1) k] main_del_cases [OF wf(2) k] extra_del_main_del [OF wf(2) k] consider
    p v q where "main_cells a = p @ (key, v) # q" "main_del key (main_cells a) = Some (v, p @ (0, None) # q)"
  | p v q where "main_del key (main_cells a) = None" "extra_cells a = p @ (key, v) # q"
      "extra_del key (extra_cells a) = Some (v, p @ (0, None) # q)"
  | "main_del key (main_cells a) = None" "extra_del key (extra_cells a) = None"
      "key \<notin> fst ` set (used (main_cells a @ extra_cells a))"
    by (auto simp: image_Un)
  then show ?thesis
  proof cases
    case (1 p v q)
    have f: "bucket_inv i ((p @ (0, None) # q) @ extra_cells a)"
      "map_of (used ((p @ (0, None) # q) @ extra_cells a)) x =
        (if key = x then None else map_of (used (main_cells a @ extra_cells a)) x)" for x
      using free_cell [of i p key v "q @ extra_cells a"] b 1(1) k by simp_all
    have "lm_map_del m key = (True, Some v, m\<lparr>lm_table := (lm_table m)(i := a\<lparr>main_cells := p @ (0, None) # q\<rparr>)\<rparr>)"
      using 1(2) k by (simp add: lm_map_del_def Let_def flip: i_def a_def)
    moreover have "map_of (used p) key = None" using b 1(1) k by (auto simp: bucket_inv_def map_of_eq_None_iff)
    then have "lm_map_get m key = Some v" using 1(1) k by (simp add: get map_add_def)
    ultimately show ?thesis
      using lm_update [OF inv, of i "a\<lparr>main_cells := p @ (0, None) # q\<rparr>" key None] f i_def a_def by simp
  next
    case (2 p v q)
    have f: "bucket_inv i (main_cells a @ (p @ (0, None) # q))"
      "map_of (used (main_cells a @ (p @ (0, None) # q))) x =
        (if key = x then None else map_of (used (main_cells a @ extra_cells a)) x)" for x
      using free_cell [of i "main_cells a @ p" key v q] b 2(2) k by simp_all
    have "lm_map_del m key = (True, Some v, m\<lparr>lm_table := (lm_table m)(i := a\<lparr>extra_cells := p @ (0, None) # q\<rparr>)\<rparr>)"
      using 2 k by (simp add: lm_map_del_def Let_def flip: i_def a_def)
    moreover have "map_of (used (main_cells a)) key = None" "map_of (used p) key = None"
      using b 2(2) k by (auto simp: bucket_inv_def map_of_eq_None_iff)
    then have "lm_map_get m key = Some v" using 2(2) k by (simp add: get map_add_def split: option.splits)
    ultimately show ?thesis
      using lm_update [OF inv, of i "a\<lparr>extra_cells := p @ (0, None) # q\<rparr>" key None] f i_def a_def by simp
  next
    case 3
    then have "lm_map_del m key = (False, None, m)"
      using k by (simp add: lm_map_del_def Let_def flip: i_def a_def)
    moreover have "lm_map_get m key = None" using 3(3) get by (simp add: map_of_eq_None_iff image_Un)
    ultimately show ?thesis using inv by auto
  qed
qed

lemma lm_inv_init: "lm_inv lm_map_init"
  by (simp add: lm_inv_def lm_map_init_def bucket_inv_def numeral_3_eq_3)

lemma lm_get_init: "lm_map_get lm_map_init key = None"
  by (simp add: lm_map_get_def lm_map_init_def numeral_3_eq_3)

interpretation lm: fresh_map lm_inv "\<lambda>k. k \<noteq> 0" "\<lambda>v. v \<noteq> None" "(=)" lm_map_get
  "\<lambda>m k v. snd (lm_map_put m k v)" "\<lambda>m k. snd (snd (lm_map_del m k))"
  using lm_put_law lm_del_law by unfold_locales blast+

text \<open>C38: As long as no key is inserted that is already present, lookups in an lm_map are those of
  a map: every insertion is visible under its key only and every deletion removes its key only,
  for any sequence of operations on non-zero keys and values.\<close>

theorem lm_map_refines_map:
  assumes "list_all (ops_ok (\<lambda>k. k \<noteq> 0) (\<lambda>v. v \<noteq> None)) ops" "fresh_run (=) ops (\<lambda>_. None)" "k \<noteq> 0"
  shows "lm_map_get (map_run (\<lambda>m k v. snd (lm_map_put m k v)) (\<lambda>m k. snd (snd (lm_map_del m k))) ops lm_map_init) k =
    spec_run (=) ops (\<lambda>_. None) k"
proof -
  have e: "lm_map_get lm_map_init = (\<lambda>_. None)" by (simp add: lm_get_init fun_eq_iff)
  show ?thesis
    using lm.run_fresh [OF lm_inv_init assms(1)] assms(2,3) by (simp add: e)
qed

theorem lm_map_refines_map_witness:
  "lm_map_get (map_run (\<lambda>m k v. snd (lm_map_put m k v)) (\<lambda>m k. snd (snd (lm_map_del m k)))
      [Put 8 (Some 1), Put 16 (Some 2), Put 24 (Some 3), Put 32 (Some 4), Del 16, Put 40 (Some 5)] lm_map_init) 32 = Some (Some (4 :: u64))"
  using lm_map_refines_map [of "[Put 8 (Some (1 :: u64)), Put 16 (Some 2), Put 24 (Some 3), Put 32 (Some 4), Del 16, Put 40 (Some 5)]" 32] by simp

lemma replicate3: "replicate 3 x = [x, x, x]"
  by (simp add: numeral_3_eq_3)

text \<open>Inserting a key that an lm_map already holds can store it twice: after a deletion has
  freed an earlier cell of the bucket the second insertion reports success with a different value,
  and deleting the key once makes the first value visible again.\<close>

theorem lm_map_put_duplicates:
  "let m = map_run (\<lambda>m k v. snd (lm_map_put m k v)) (\<lambda>m k. snd (snd (lm_map_del m k)))
             [Put 8 (Some 1), Put 16 (Some 2), Del 8] lm_map_init in
   case lm_map_put m 16 (Some (3 :: u64)) of (r, m') \<Rightarrow>
     r \<and> lm_map_get m' 16 = Some (Some 3) \<and> lm_map_size m' = 2 \<and>
     lm_map_get (snd (snd (lm_map_del m' 16))) 16 = Some (Some 2)"
  by (simp add: lm_map_put_def lm_map_del_def lm_map_get_def lm_map_init_def lm_index_def Let_def replicate3
      lm_map_size_def lm_cells_def upt_rec)

section \<open>ur_addr_map is a map on addresses\<close>

definition addr_key_ok :: "ioa_addr \<Rightarrow> bool" where
  "addr_key_ok a \<longleftrightarrow> sa_family a = AF_INET \<or> sa_family a = AF_INET6"

definition same_addr :: "ioa_addr \<Rightarrow> ioa_addr \<Rightarrow> bool" where
  "same_addr a b = addr_eq (Some a) (Some b)"

lemma same_addr_refl: "addr_key_ok a \<Longrightarrow> same_addr a a"
  unfolding addr_key_ok_def same_addr_def addr_eq_refl_iff .

lemma same_addr_sym: "same_addr a b \<Longrightarrow> same_addr b a"
  by (simp only: same_addr_def addr_eq_sym [of "Some a"])

lemma same_addr_trans: "same_addr a b \<Longrightarrow> same_addr b c \<Longrightarrow> same_addr a c"
  unfolding same_addr_def by (rule addr_eq_trans)

lemma same_addr_iff: "same_addr a b \<Longrightarrow> same_addr a c \<longleftrightarrow> same_addr b c"
  by (meson same_addr_sym same_addr_trans)

lemma same_addr_index: "same_addr a b \<Longrightarrow> addr_map_index (Some a) = addr_map_index (Some b)"
  unfolding same_addr_def addr_map_index_def by (metis addr_hash_cong)

lemma holds_key_same: "holds_key (Some k) e \<longleftrightarrow> elem_value e \<noteq> None \<and> same_addr (elem_key e) k"
  by (simp only: holds_key_def same_addr_def)

lemma holds_key_dead: "elem_value e = None \<Longrightarrow> \<not> holds_key key e"
  by (simp add: holds_key_def)

lemma holds_key_live: "holds_key key e \<Longrightarrow> \<exists>v. elem_value e = Some v"
  using holds_key_dead by (cases "elem_value e") auto

declare addr_eq.simps [simp del]

text \<open>Lookup in a list of elements, and what the operations on a list do to it.\<close>

fun lookup_elem :: "'v addr_elem list \<Rightarrow> ioa_addr \<Rightarrow> 'v option" where
  "lookup_elem [] k = None"
| "lookup_elem (e # es) k = (if holds_key (Some k) e then elem_value e else lookup_elem es k)"

lemma lookup_elem_append:
  "lookup_elem (es @ fs) k = (case lookup_elem es k of None \<Rightarrow> lookup_elem fs k | Some v \<Rightarrow> Some v)"
  by (induction es) (auto simp: holds_key_def)

lemma find_lookup: "(case find (holds_key (Some k)) es of None \<Rightarrow> None | Some e \<Rightarrow> elem_value e) = lookup_elem es k"
  by (induction es) auto

lemma find_elem_spec:
  "find_elem key es i = Some j \<Longrightarrow> \<exists>a e b. es = a @ e # b \<and> j = i + length a \<and> holds_key key e \<and> list_all (\<lambda>f. \<not> holds_key key f) a"
  "find_elem key es i = None \<Longrightarrow> list_all (\<lambda>f. \<not> holds_key key f) es"
proof (induction es arbitrary: i j)
  case (Cons e es)
  { case 1
    show ?case
    proof (cases "holds_key key e")
      case True
      then show ?thesis using 1 by (intro exI [of _ "[]"] exI [of _ e] exI [of _ es]) auto
    next
      case False
      then obtain a f b where "es = a @ f # b" "j = i + 1 + length a" "holds_key key f" "list_all (\<lambda>f. \<not> holds_key key f) a"
        using Cons.IH(1) [of "i + 1" j] 1 by auto
      then show ?thesis using False by (intro exI [of _ "e # a"] exI [of _ f] exI [of _ b]) auto
    qed
  next
    case 2
    then show ?case using Cons.IH(2) [of "i + 1"] by (auto split: if_splits) }
qed auto

lemma lookup_none: "list_all (\<lambda>f. \<not> holds_key (Some k) f) es \<Longrightarrow> same_addr k x \<Longrightarrow> lookup_elem es x = None"
  by (induction es) (auto simp: holds_key_same dest: same_addr_sym same_addr_trans)

lemma lookup_replace:
  assumes "list_all (\<lambda>f. \<not> holds_key (Some k) f) a" "same_addr (elem_key e') k" "elem_value e' = Some v"
    "\<not> same_addr k x \<Longrightarrow> \<not> holds_key (Some x) e"
  shows "lookup_elem (a @ e' # b) x = (if same_addr k x then Some v else lookup_elem (a @ e # b) x)"
proof (cases "same_addr k x")
  case True
  then have "holds_key (Some x) e'" using assms(2,3) by (auto simp: holds_key_same intro: same_addr_trans)
  then show ?thesis using True lookup_none [OF assms(1) True] assms(3) by (simp add: lookup_elem_append)
next
  case False
  then have "\<not> holds_key (Some x) e'" "\<not> holds_key (Some x) e"
    using assms(2,4) by (auto simp: holds_key_same dest: same_addr_sym same_addr_trans)
  then show ?thesis using False by (simp add: lookup_elem_append split: option.splits)
qed

lemma add_elem_spec:
  "add_elem k v es = Some es' \<Longrightarrow> \<exists>a e b. es = a @ e # b \<and> elem_value e = None \<and>
     es' = a @ \<lparr>elem_key = k, elem_value = Some v\<rparr> # b"
proof (induction es arbitrary: es')
  case (Cons e es)
  show ?case
  proof (cases "elem_value e")
    case None
    then show ?thesis using Cons.prems by (intro exI [of _ "[]"] exI [of _ e] exI [of _ es]) auto
  next
    case (Some w)
    then obtain fs where fs: "add_elem k v es = Some fs" "es' = e # fs" using Cons.prems by auto
    from Cons.IH [OF fs(1)] obtain a f b where "es = a @ f # b" "elem_value f = None"
      "fs = a @ \<lparr>elem_key = k, elem_value = Some v\<rparr> # b" by blast
    then show ?thesis using fs(2) by (intro exI [of _ "e # a"] exI [of _ f] exI [of _ b]) auto
  qed
qed simp

lemma lookup_clear:
  "lookup_elem (map (clear_key (Some k)) es) x = (if same_addr k x then None else lookup_elem es x)"
proof (induction es)
  case (Cons e es)
  have "holds_key (Some x) (clear_key (Some k) e) \<longleftrightarrow> holds_key (Some x) e \<and> \<not> same_addr k x"
    by (auto simp: clear_key_def holds_key_same dest: same_addr_sym same_addr_trans)
  with Cons show ?case by (auto simp: clear_key_def holds_key_same dest: same_addr_sym same_addr_trans)
qed simp

definition elems :: "'v addr_list_header \<Rightarrow> 'v addr_elem list" where
  "elems slh = main_list slh @ extra_list slh"

lemma addr_map_get_elems:
  "ur_addr_map_get m (Some k) =
     (if ur_addr_map_valid m then lookup_elem (elems (addr_lists m (addr_map_index (Some k)))) k else None)"
proof -
  let ?slh = "addr_lists m (addr_map_index (Some k))"
  have "(case addr_list_get_const ?slh (Some k) of None \<Rightarrow> None | Some e \<Rightarrow> elem_value e) = lookup_elem (elems ?slh) k"
  proof (cases "find (holds_key (Some k)) (main_list ?slh)")
    case (Some e)
    then have "holds_key (Some k) e" by (auto simp: find_Some_iff)
    then obtain v where "elem_value e = Some v" using holds_key_live by blast
    then show ?thesis
      using Some find_lookup [of k "main_list ?slh", symmetric]
      by (simp add: addr_list_get_const_def elems_def lookup_elem_append)
  next
    case None
    then show ?thesis
      using find_lookup [of k "main_list ?slh"] find_lookup [of k "extra_list ?slh"]
      by (simp add: addr_list_get_const_def elems_def lookup_elem_append)
  qed
  then show ?thesis by (simp add: ur_addr_map_get_def)
qed

text \<open>The list header after an insertion.\<close>

definition put_header :: "'v addr_list_header \<Rightarrow> ioa_addr \<Rightarrow> 'v \<Rightarrow> 'v addr_list_header" where
  "put_header slh k v =
     (case addr_list_get slh (Some k) of
        Some p \<Rightarrow> set_elem_value slh p (Some v)
      | None \<Rightarrow> addr_list_add slh (Some k) (Some v))"

lemma lookup_add:
  assumes none: "list_all (\<lambda>f. \<not> holds_key (Some k) f) (elems slh)" and k: "addr_key_ok k"
  shows "lookup_elem (elems (addr_list_add slh (Some k) (Some v))) x =
    (if same_addr k x then Some v else lookup_elem (elems slh) x)"
proof -
  let ?new = "\<lparr>elem_key = k, elem_value = Some v\<rparr>"
  have repl: "lookup_elem (a @ ?new # b) x = (if same_addr k x then Some v else lookup_elem (a @ e # b) x)"
    if "elems slh = a @ e # b" "elem_value e = None" for a e b
    using none that by (intro lookup_replace) (auto simp: same_addr_refl [OF k] holds_key_dead)
  show ?thesis
  proof (cases "add_elem k v (main_list slh)")
    case (Some l)
    then obtain a e b where "main_list slh = a @ e # b" "elem_value e = None" "l = a @ ?new # b"
      using add_elem_spec [OF Some] by auto
    then show ?thesis
      using repl [of a e "b @ extra_list slh"] Some by (simp add: addr_list_add_def elems_def)
  next
    case no_main: None
    show ?thesis
    proof (cases "add_elem k v (extra_list slh)")
      case (Some l)
      then obtain a e b where "extra_list slh = a @ e # b" "elem_value e = None" "l = a @ ?new # b"
        using add_elem_spec [OF Some] by auto
      then show ?thesis
        using repl [of "main_list slh @ a" e b] Some no_main by (simp add: addr_list_add_def elems_def)
    next
      case None
      have "lookup_elem (elems slh @ [?new]) x = (if same_addr k x then Some v else lookup_elem (elems slh) x)"
        using lookup_none [OF none] by (auto simp: lookup_elem_append holds_key_same split: option.splits)
      then show ?thesis using None no_main by (simp add: addr_list_add_def elems_def)
    qed
  qed
qed

lemma lookup_put_header:
  assumes k: "addr_key_ok k"
  shows "lookup_elem (elems (put_header slh k v)) x = (if same_addr k x then Some v else lookup_elem (elems slh) x)"
proof (cases "find_elem (Some k) (main_list slh) 0")
  case (Some i)
  then obtain a e b where m: "main_list slh = a @ e # b" "i = length a" "holds_key (Some k) e"
      "list_all (\<lambda>f. \<not> holds_key (Some k) f) a"
    using find_elem_spec(1) [OF Some] by auto
  have "lookup_elem (a @ e\<lparr>elem_value := Some v\<rparr> # (b @ extra_list slh)) x =
      (if same_addr k x then Some v else lookup_elem (a @ e # (b @ extra_list slh)) x)"
    using m by (intro lookup_replace) (auto simp: holds_key_same dest: same_addr_sym same_addr_trans)
  then show ?thesis
    using Some m by (simp add: put_header_def addr_list_get_def set_elem_value_def elems_def)
next
  case no_main: None
  note nm = find_elem_spec(2) [OF no_main]
  show ?thesis
  proof (cases "find_elem (Some k) (extra_list slh) 0")
    case (Some i)
    then obtain a e b where m: "extra_list slh = a @ e # b" "i = length a" "holds_key (Some k) e"
        "list_all (\<lambda>f. \<not> holds_key (Some k) f) a"
      using find_elem_spec(1) [OF Some] by auto
    have "lookup_elem ((main_list slh @ a) @ e\<lparr>elem_value := Some v\<rparr> # b) x =
        (if same_addr k x then Some v else lookup_elem ((main_list slh @ a) @ e # b) x)"
      using m nm by (intro lookup_replace) (auto simp: holds_key_same dest: same_addr_sym same_addr_trans)
    then show ?thesis
      using Some m no_main by (simp add: put_header_def addr_list_get_def set_elem_value_def elems_def)
  next
    case None
    then have "list_all (\<lambda>f. \<not> holds_key (Some k) f) (elems slh)"
      using nm find_elem_spec(2) [OF None] by (simp add: elems_def)
    from lookup_add [OF this k] show ?thesis
      using None no_main by (simp add: put_header_def addr_list_get_def)
  qed
qed

lemma addr_put_law:
  assumes "ur_addr_map_valid m" "addr_key_ok k"
  shows "ur_addr_map_valid (snd (ur_addr_map_put m (Some k) (Some v))) \<and>
    ur_addr_map_get (snd (ur_addr_map_put m (Some k) (Some v))) (Some x) =
      (if same_addr k x then Some v else ur_addr_map_get m (Some x))"
proof -
  let ?i = "addr_map_index (Some k)"
  have eq: "snd (ur_addr_map_put m (Some k) (Some v)) =
      m\<lparr>addr_lists := (addr_lists m)(?i := put_header (addr_lists m ?i) k v)\<rparr>"
    using assms(1) by (simp add: ur_addr_map_put_def put_header_def Let_def)
  have valid: "ur_addr_map_valid (snd (ur_addr_map_put m (Some k) (Some v)))"
    using assms(1) by (simp add: eq ur_addr_map_valid_def)
  show ?thesis
  proof (cases "addr_map_index (Some x) = ?i")
    case True
    then show ?thesis
      using valid assms(1) lookup_put_header [OF assms(2), of "addr_lists m ?i" v x]
      by (simp add: addr_map_get_elems eq)
  next
    case False
    then have "\<not> same_addr k x" using same_addr_index [of k x] by metis
    with False show ?thesis using valid assms(1) by (simp add: addr_map_get_elems eq)
  qed
qed

lemma addr_del_law:
  assumes "ur_addr_map_valid m"
  shows "ur_addr_map_valid (snd (snd (ur_addr_map_del m (Some k)))) \<and>
    ur_addr_map_get (snd (snd (ur_addr_map_del m (Some k)))) (Some x) =
      (if same_addr k x then None else ur_addr_map_get m (Some x))"
proof -
  let ?i = "addr_map_index (Some k)"
  let ?slh = "fst (addr_list_remove (addr_lists m ?i) (Some k))"
  have eq: "snd (snd (ur_addr_map_del m (Some k))) = m\<lparr>addr_lists := (addr_lists m)(?i := ?slh)\<rparr>"
    using assms by (simp add: ur_addr_map_del_def Let_def split: prod.splits)
  have valid: "ur_addr_map_valid (snd (snd (ur_addr_map_del m (Some k))))"
    using assms by (simp add: eq ur_addr_map_valid_def)
  have "elems ?slh = map (clear_key (Some k)) (elems (addr_lists m ?i))"
    by (simp add: addr_list_remove_def elems_def Let_def)
  then have lk: "lookup_elem (elems ?slh) x = (if same_addr k x then None else lookup_elem (elems (addr_lists m ?i)) x)"
    by (simp add: lookup_clear)
  show ?thesis
  proof (cases "addr_map_index (Some x) = ?i")
    case True
    then show ?thesis using valid assms lk by (simp add: addr_map_get_elems eq)
  next
    case False
    then have "\<not> same_addr k x" using same_addr_index [of k x] by metis
    with False show ?thesis using valid assms by (simp add: addr_map_get_elems eq)
  qed
qed

interpretation addr_map: update_map ur_addr_map_valid addr_key_ok "\<lambda>_. True" same_addr
  "\<lambda>m k. ur_addr_map_get m (Some k)" "\<lambda>m k v. snd (ur_addr_map_put m (Some k) (Some v))"
  "\<lambda>m k. snd (snd (ur_addr_map_del m (Some k)))"
  by unfold_locales (simp_all add: addr_put_law addr_del_law)

lemma addr_map_init_valid: "ur_addr_map_valid ur_addr_map_init"
  by (simp add: ur_addr_map_valid_def ur_addr_map_init_def)

lemma addr_map_init_get: "ur_addr_map_get ur_addr_map_init (Some k) = None"
  by (simp add: addr_map_get_elems addr_map_init_valid)
    (simp add: ur_addr_map_init_def elems_def empty_header_def holds_key_dead eval_nat_numeral)

text \<open>C39: The address map is a map whose keys are addresses up to addr_eq: after any sequence of
  insertions and deletions of IPv4 and IPv6 addresses a lookup returns the value last inserted under
  an equal address and not deleted since, whatever collisions of hash values there are.\<close>

theorem ur_addr_map_refines_map:
  assumes "list_all (ops_ok addr_key_ok (\<lambda>_. True)) ops" "addr_key_ok k"
  shows "ur_addr_map_get (map_run (\<lambda>m k v. snd (ur_addr_map_put m (Some k) (Some v)))
      (\<lambda>m k. snd (snd (ur_addr_map_del m (Some k)))) ops ur_addr_map_init) (Some k) =
    spec_run same_addr ops (\<lambda>_. None) k"
  using addr_map.run_any [OF addr_map_init_valid assms(1)] assms(2)
  by (simp add: addr_map_init_get)

theorem ur_addr_map_refines_map_witness:
  "let a = \<lparr>sa_family = AF_INET, sin_port = 5, s_addr = 7, sin6_addr = replicate 16 0, sin6_scope_id = 0\<rparr>;
       b = a\<lparr>sin_port := 6\<rparr> in
   ur_addr_map_get (map_run (\<lambda>m k v. snd (ur_addr_map_put m (Some k) (Some v)))
      (\<lambda>m k. snd (snd (ur_addr_map_del m (Some k)))) [Put a (1 :: nat), Put b 2, Del a] ur_addr_map_init) (Some b) = Some 2"
  using ur_addr_map_refines_map [of "[Put a (1 :: nat), Put b 2, Del a]" b for a b]
  by (simp add: Let_def addr_key_ok_def same_addr_def addr_eq.simps)

section \<open>ur_string_map is a map, and owns its values\<close>

lemma string_get_set_value:
  "string_list_get sl key \<noteq> None \<Longrightarrow>
     map_option se_value (string_list_get (set_value key v sl) x) =
     (if key = x then Some v else map_option se_value (string_list_get sl x))"
  by (induction sl) auto

lemma string_get_add:
  "map_option se_value (string_list_get (string_list_add sl key v) x) =
     (if key = x then Some v else map_option se_value (string_list_get sl x))"
  by (simp add: string_list_add_def)

lemma string_get_remove:
  "string_list_get (fst (string_list_remove del key sl)) x = (if key = x then None else string_list_get sl x)"
  by (induction sl) (auto split: prod.splits)

lemma string_put_law:
  assumes "ur_string_map_valid m"
  shows "ur_string_map_valid (snd (snd (ur_string_map_put m key v))) \<and>
    ur_string_map_get (snd (snd (ur_string_map_put m key v))) x =
      (if key = x then Some v else ur_string_map_get m x)"
proof -
  let ?i = "string_map_index key"
  define sl where "sl = (case string_list_get (string_lists m ?i) key of
     Some e \<Rightarrow> if se_value e \<noteq> v then set_value key v (string_lists m ?i) else string_lists m ?i
   | None \<Rightarrow> string_list_add (string_lists m ?i) key v)"
  have eq: "snd (snd (ur_string_map_put m key v)) = m\<lparr>string_lists := (string_lists m)(?i := sl)\<rparr>"
    using assms by (simp add: ur_string_map_put_def sl_def Let_def split: option.splits)
  have sl: "map_option se_value (string_list_get sl x) =
      (if key = x then Some v else map_option se_value (string_list_get (string_lists m ?i) x))"
    using string_get_set_value [of "string_lists m ?i" key v x] string_get_add [of "string_lists m ?i" key v x]
    by (auto simp: sl_def split: option.splits)
  show ?thesis
    using assms sl by (cases "string_map_index x = ?i") (auto simp: eq ur_string_map_get_def ur_string_map_valid_def)
qed

lemma string_del_law:
  assumes "ur_string_map_valid m"
  shows "ur_string_map_valid (snd (snd (ur_string_map_del m key))) \<and>
    ur_string_map_get (snd (snd (ur_string_map_del m key))) x = (if key = x then None else ur_string_map_get m x)"
proof -
  let ?i = "string_map_index key"
  have "snd (snd (ur_string_map_del m key)) =
      m\<lparr>string_lists := (string_lists m)(?i := fst (string_list_remove (has_del_func m) key (string_lists m ?i)))\<rparr>"
    using assms by (simp add: ur_string_map_del_def Let_def split: prod.splits)
  then show ?thesis
    using assms by (auto simp: ur_string_map_get_def ur_string_map_valid_def string_get_remove)
qed

interpretation string_map: update_map ur_string_map_valid "\<lambda>_. True" "\<lambda>_. True" "(=)"
  ur_string_map_get "\<lambda>m k v. snd (snd (ur_string_map_put m k v))" "\<lambda>m k. snd (snd (ur_string_map_del m k))"
  by unfold_locales (simp_all add: string_put_law string_del_law)

lemma string_create_get: "ur_string_map_get (ur_string_map_create del) k = None"
  by (simp add: ur_string_map_create_def ur_string_map_init_def ur_string_map_get_def)

lemma string_create_valid: "ur_string_map_valid (ur_string_map_create del)"
  by (simp add: ur_string_map_create_def ur_string_map_init_def ur_string_map_valid_def)


text \<open>How often a pointer is stored in the map.\<close>

definition stored :: "'v ur_string_map \<Rightarrow> 'v option \<Rightarrow> nat" where
  "stored m p = (\<Sum>i\<in>UNIV. count_list (map se_value (string_lists m i)) p)"

lemma stored_update:
  "stored (m\<lparr>string_lists := (string_lists m)(i := sl)\<rparr>) p + count_list (map se_value (string_lists m i)) p =
   stored m p + count_list (map se_value sl) p"
proof -
  have "(\<Sum>j\<in>UNIV - {i}. count_list (map se_value (((string_lists m)(i := sl)) j)) p) =
      (\<Sum>j\<in>UNIV - {i}. count_list (map se_value (string_lists m j)) p)"
    by (rule sum.cong) auto
  then show ?thesis
    by (simp add: stored_def sum.remove [of UNIV i])
qed

lemma count_remove:
  "count_list (map se_value (fst (string_list_remove True key sl))) p + count_list (fst (snd (string_list_remove True key sl))) p =
   count_list (map se_value sl) p"
  by (induction sl) (auto split: prod.splits)

lemma count_set_value:
  "string_list_get sl key = Some e \<Longrightarrow>
   count_list (map se_value (set_value key v sl)) p + (if p = se_value e then 1 else 0) =
   count_list (map se_value sl) p + (if p = v then 1 else 0)"
  by (induction sl) (auto split: if_splits)

text \<open>A map with a release function hands every pointer that leaves it to that function exactly
  once: the pointers that are stored after an insertion or a deletion together with those that were
  released are the pointers stored before together with the inserted one.\<close>

theorem ur_string_map_releases_once:
  assumes "ur_string_map_valid m" "has_del_func m"
  shows "(case ur_string_map_put m key v of (_, gone, m') \<Rightarrow>
      stored m' p + count_list gone p =
        stored m p + (if p = v \<and> ur_string_map_get m key \<noteq> Some v then 1 else 0)) \<and>
    (case ur_string_map_del m key of (_, gone, m') \<Rightarrow> stored m' p + count_list gone p = stored m p)"
proof
  let ?i = "string_map_index key" and ?sl = "string_lists m (string_map_index key)"
  show "case ur_string_map_put m key v of (_, gone, m') \<Rightarrow>
      stored m' p + count_list gone p =
        stored m p + (if p = v \<and> ur_string_map_get m key \<noteq> Some v then 1 else 0)"
  proof (cases "string_list_get ?sl key")
    case None
    then show ?thesis
      using assms stored_update [of m ?i "string_list_add ?sl key v" p]
      by (auto simp: ur_string_map_put_def ur_string_map_get_def string_list_add_def Let_def split: if_splits)
  next
    case (Some e)
    then show ?thesis
      using assms stored_update [of m ?i "set_value key v ?sl" p] count_set_value [OF Some, of v p]
      by (auto simp: ur_string_map_put_def ur_string_map_get_def Let_def)
  qed
  show "case ur_string_map_del m key of (_, gone, m') \<Rightarrow> stored m' p + count_list gone p = stored m p"
    using assms stored_update [of m ?i "fst (string_list_remove True key ?sl)" p] count_remove [of key ?sl p]
    by (auto simp: ur_string_map_del_def Let_def split: prod.splits)
qed

theorem ur_string_map_releases_once_witness:
  "let m = snd (snd (ur_string_map_put (ur_string_map_create True) (lit ''k'') (Some (1 :: nat)))) in
   (case ur_string_map_put m (lit ''k'') (Some 2) of (_, gone, m') \<Rightarrow> stored m' (Some 1) + count_list gone (Some 1) = stored m (Some 1))"
proof -
  let ?m = "snd (snd (ur_string_map_put (ur_string_map_create True) (lit ''k'') (Some (1 :: nat))))"
  have "ur_string_map_valid ?m" using string_put_law [OF string_create_valid] by blast
  moreover have "has_del_func ?m"
    by (simp add: ur_string_map_put_def ur_string_map_create_def ur_string_map_init_def ur_string_map_valid_def Let_def)
  ultimately show ?thesis
    using ur_string_map_releases_once [where m = ?m and key = "lit ''k''" and v = "Some 2" and p = "Some 1"] by (simp add: Let_def split: prod.splits)
qed

end
