(* ===== verification/Slot_Table.thy ===== *)
theory Slot_Table
  imports Turn_Prelude
begin

text \<open>
  Tables of eight buckets, each with three fixed slots and a growing array of further ones.  The
  server keeps its permissions and its channels in such tables (turn_permission_hashtable and
  ch_map of ns_turn_allocation.h).  A slot is never moved while its table lives, so a pointer to it
  is its bucket and its position among the fixed and then the further slots.  A slot holds a
  value that is in use or free.  The locale below states what lookups in such a table mean.
\<close>

record 'a slot_array =
  main_slots :: "'a list"
  extra_slots :: "'a list"

type_synonym 'a slot_table = "3 word \<Rightarrow> 'a slot_array"

type_synonym slot_ref = "3 word \<times> nat"

definition slots :: "'a slot_array \<Rightarrow> 'a list" where
  "slots a = main_slots a @ extra_slots a"

definition set_slot :: "'a slot_array \<Rightarrow> nat \<Rightarrow> 'a \<Rightarrow> 'a slot_array" where
  "set_slot a i x =
     (if i < length (main_slots a) then a\<lparr>main_slots := (main_slots a)[i := x]\<rparr>
      else a\<lparr>extra_slots := (extra_slots a)[i - length (main_slots a) := x]\<rparr>)"

definition add_slot :: "'a slot_array \<Rightarrow> 'a \<Rightarrow> 'a slot_array" where
  "add_slot a x = a\<lparr>extra_slots := extra_slots a @ [x]\<rparr>"

text \<open>The first position that satisfies a test.\<close>

fun first_index :: "('a \<Rightarrow> bool) \<Rightarrow> 'a list \<Rightarrow> nat option" where
  "first_index P [] = None"
| "first_index P (x # xs) = (if P x then Some 0 else map_option Suc (first_index P xs))"

text \<open>Access through a pointer.\<close>

definition slot_at :: "'a slot_table \<Rightarrow> slot_ref \<Rightarrow> 'a option" where
  "slot_at t r = (let s = slots (t (fst r)) in if snd r < length s then Some (s ! snd r) else None)"

definition put_slot :: "'a slot_table \<Rightarrow> slot_ref \<Rightarrow> 'a \<Rightarrow> 'a slot_table" where
  "put_slot t r x = t(fst r := set_slot (t (fst r)) (snd r) x)"

definition slot_refs :: "'a slot_table \<Rightarrow> slot_ref list" where
  "slot_refs t = concat (map (\<lambda>b. map (Pair (of_nat b)) [0..<length (slots (t (of_nat b)))]) [0..<8])"

definition live :: "('a \<Rightarrow> bool) \<Rightarrow> 'a slot_table \<Rightarrow> slot_ref \<Rightarrow> 'a option" where
  "live used t r = (case slot_at t r of Some x \<Rightarrow> if used x then Some x else None | None \<Rightarrow> None)"

section \<open>Slots\<close>

lemma slots_set_slot [simp]: "slots (set_slot a i x) = (slots a)[i := x]"
  by (simp add: slots_def set_slot_def list_update_append)

lemma slots_add_slot [simp]: "slots (add_slot a x) = slots a @ [x]"
  by (simp add: slots_def add_slot_def)

lemma first_index_Some:
  "first_index P xs = Some i \<longleftrightarrow> i < length xs \<and> P (xs ! i) \<and> (\<forall>j<i. \<not> P (xs ! j))"
proof (induction xs arbitrary: i)
  case (Cons x xs)
  show ?case
  proof (cases i)
    case 0
    then show ?thesis by auto
  next
    case (Suc n)
    have "(\<forall>j<Suc n. \<not> P ((x # xs) ! j)) \<longleftrightarrow> \<not> P x \<and> (\<forall>j<n. \<not> P (xs ! j))"
      by (auto simp: All_less_Suc2)
    then show ?thesis using Suc Cons.IH [of n] by auto
  qed
qed simp

lemma first_index_None: "first_index P xs = None \<longleftrightarrow> (\<forall>i<length xs. \<not> P (xs ! i))"
  by (induction xs) (auto simp: All_less_Suc2)

lemma slot_at_put_slot:
  "slot_at (put_slot t r x) r' = (if r' = r \<and> slot_at t r \<noteq> None then Some x else slot_at t r')"
  by (cases r; cases r') (auto simp: slot_at_def put_slot_def Let_def nth_list_update)

lemma slot_at_add_slot:
  "slot_at (t(b := add_slot (t b) x)) r =
     (if r = (b, length (slots (t b))) then Some x else slot_at t r)"
  by (cases r) (auto simp: slot_at_def Let_def nth_append)

lemma slot_refs_iff: "r \<in> set (slot_refs t) \<longleftrightarrow> slot_at t r \<noteq> None"
proof -
  obtain b i where r: "r = (b, i)" by fastforce
  have "b = of_nat (unat b)" "unat b < 8" using unsigned_less [of b, where ?'a = nat] by simp_all
  then have "b \<in> of_nat ` {0..<8}" by (metis atLeast0LessThan image_eqI lessThan_iff)
  then show ?thesis by (auto simp: r slot_refs_def slot_at_def Let_def image_iff)
qed

lemma live_put_slot:
  "slot_at t r \<noteq> None \<Longrightarrow>
   live used (put_slot t r x) = (live used t)(r := if used x then Some x else None)"
  by (auto simp: live_def slot_at_put_slot fun_eq_iff)

lemma live_put_free: "\<not> used x \<Longrightarrow> live used (put_slot t r x) = (live used t)(r := None)"
  by (auto simp: live_def slot_at_put_slot fun_eq_iff)

lemma live_add_slot:
  "live used (t(b := add_slot (t b) x)) =
     (live used t)((b, length (slots (t b))) := if used x then Some x else None)"
  by (auto simp: live_def slot_at_add_slot fun_eq_iff)

lemma live_Some: "live used t r = Some x \<longleftrightarrow> slot_at t r = Some x \<and> used x"
  by (auto simp: live_def split: option.splits if_splits)

lemma live_slot_at: "live used t r = Some x \<Longrightarrow> slot_at t r = Some x"
  by (simp add: live_Some)

section \<open>Lookups\<close>

text \<open>A table is placed when values in use are in the bucket of their hash, and unique when no two
  of them match a common key.\<close>

definition placed :: "('a \<Rightarrow> bool) \<Rightarrow> ('a \<Rightarrow> 3 word) \<Rightarrow> 'a slot_table \<Rightarrow> bool" where
  "placed used hash t \<longleftrightarrow> (\<forall>r x. live used t r = Some x \<longrightarrow> fst r = hash x)"

definition find_slot :: "('a \<Rightarrow> bool) \<Rightarrow> 'a slot_table \<Rightarrow> 3 word \<Rightarrow> slot_ref option" where
  "find_slot P t b = map_option (Pair b) (first_index P (slots (t b)))"

lemma find_slot_Some:
  "find_slot P t b = Some r \<Longrightarrow> \<exists>x. slot_at t r = Some x \<and> P x \<and> fst r = b"
  by (auto simp: find_slot_def slot_at_def first_index_Some Let_def)

lemma find_slot_None:
  "find_slot P t b = None \<longleftrightarrow> (\<forall>r x. slot_at t r = Some x \<longrightarrow> fst r = b \<longrightarrow> \<not> P x)"
  by (auto simp: find_slot_def slot_at_def first_index_None Let_def split: if_splits)

text \<open>The interface of the lookups: values in use, their hash, the keys they match and the bucket
  in which a key is searched.\<close>

locale slot_lookup =
  fixes used :: "'a \<Rightarrow> bool" and hash :: "'a \<Rightarrow> 3 word" and match :: "'a \<Rightarrow> 'k \<Rightarrow> bool" and bucket :: "'k \<Rightarrow> 3 word"
  assumes match_bucket: "match x k \<Longrightarrow> bucket k = hash x"
begin

definition lookup :: "'a slot_table \<Rightarrow> 'k \<Rightarrow> slot_ref option" where
  "lookup t k = find_slot (\<lambda>x. used x \<and> match x k) t (bucket k)"

lemma lookup_sound: "lookup t k = Some r \<Longrightarrow> \<exists>x. live used t r = Some x \<and> match x k"
  unfolding lookup_def by (auto dest!: find_slot_Some simp: live_Some)

lemma lookup_complete:
  assumes "placed used hash t" "live used t r = Some x" "match x k"
  shows "\<exists>r'. lookup t k = Some r'"
proof -
  have x: "slot_at t r = Some x" "used x" using assms(2) by (simp_all add: live_Some)
  have "fst r = bucket k" using assms(1,2) match_bucket [OF assms(3)] unfolding placed_def by metis
  then have "lookup t k \<noteq> None" unfolding lookup_def find_slot_None using x assms(3) by blast
  then show ?thesis by blast
qed

lemma lookup_None:
  "placed used hash t \<Longrightarrow> lookup t k = None \<longleftrightarrow> (\<forall>r x. live used t r = Some x \<longrightarrow> \<not> match x k)"
  by (metis lookup_complete lookup_sound not_None_eq)

lemma lookup_iff:
  assumes "placed used hash t"
    and "\<And>r r' x x'. live used t r = Some x \<Longrightarrow> live used t r' = Some x' \<Longrightarrow> match x k \<Longrightarrow> match x' k \<Longrightarrow> r = r'"
  shows "lookup t k = Some r \<longleftrightarrow> (\<exists>x. live used t r = Some x \<and> match x k)"
  using assms by (metis lookup_complete lookup_sound)

end

text \<open>Taking a free slot of a bucket, or a new one.\<close>

definition free_slot :: "('a \<Rightarrow> bool) \<Rightarrow> 'a slot_table \<Rightarrow> 3 word \<Rightarrow> slot_ref option" where
  "free_slot used t b = find_slot (\<lambda>x. \<not> used x) t b"

lemma free_slot_Some:
  "free_slot used t b = Some r \<Longrightarrow> slot_at t r \<noteq> None \<and> live used t r = None \<and> fst r = b"
  by (auto simp: free_slot_def live_def dest!: find_slot_Some)

lemma new_slot_free: "slot_at t (b, length (slots (t b))) = None"
  by (simp add: slot_at_def)

end
