(* ===== verification/Turn_Allocation.thy ===== *)
theory Turn_Allocation
  imports Turn_Maps Slot_Table Stun_Msg
begin

text \<open>
  The permissions and channels of an allocation (ns_turn_allocation.h and ns_turn_allocation.c).
  Both are kept in slot tables; a pointer to a permission or to a channel is a slot reference.  A
  channel points to the permission that owns it, and a permission maps the ports of its peer to
  channels.  Freeing a permission frees its channels, so that the two tables stay consistent: the
  invariant of this theory states how, and the operations are shown to keep it.  A function of
  the source that returns a pointer returns a reference here, or None for NULL.  Memory
  allocations succeed, and log output is left out.
\<close>

declare split_paired_All [simp del] split_paired_Ex [simp del]

declare addr_eq_no_port.simps [simp del] addr_hash_no_port.simps [simp del] addr_get_port.simps [simp del]

section \<open>Data\<close>

record ch_info =
  chnum :: u16
  ch_allocated :: bool
  ch_port :: u16
  peer_addr :: ioa_addr
  ch_expiration_time :: turn_time_t
  ch_owner :: "slot_ref option"
  kernel_channel :: u64

text \<open>The owner of a permission is its allocation; the field tells whether it is set.\<close>

record turn_permission_info =
  pi_allocated :: bool
  pi_chns :: "slot_ref lm_map"
  pi_addr :: ioa_addr
  pi_expiration_time :: turn_time_t
  pi_owner :: bool
  pi_verbose :: bool
  pi_session_id :: u64

type_synonym turn_permission_array = "turn_permission_info slot_array"

type_synonym turn_permission_hashtable = "turn_permission_info slot_table"

type_synonym ch_map_array = "ch_info slot_array"

type_synonym ch_map = "ch_info slot_table"

type_synonym ioa_socket_handle = nat

type_synonym ioa_timer_handle = nat

record relay_endpoint_session =
  rs_s :: "ioa_socket_handle option"
  rs_expiration_time :: turn_time_t
  rs_lifetime_ev :: "ioa_timer_handle option"

text \<open>The arrays over the two address families are functions of the test for IPv6.  The elements
  of tcs are references to connections.\<close>

record allocation =
  is_valid :: bool
  alloc_tid :: "u8 list"
  addr_to_perm :: turn_permission_hashtable
  relay_sessions :: "bool \<Rightarrow> relay_endpoint_session"
  relay_sessions_failure :: "bool \<Rightarrow> int"
  chns :: ch_map
  tcs :: "nat option list"

definition zero_ch_info :: ch_info where
  "zero_ch_info = \<lparr>chnum = 0, ch_allocated = False, ch_port = 0, peer_addr = addr_set_any,
     ch_expiration_time = 0, ch_owner = None, kernel_channel = 0\<rparr>"

definition zero_permission_info :: turn_permission_info where
  "zero_permission_info = \<lparr>pi_allocated = False, pi_chns = lm_map_init, pi_addr = addr_set_any,
     pi_expiration_time = 0, pi_owner = False, pi_verbose = False, pi_session_id = 0\<rparr>"

definition zero_relay_session :: relay_endpoint_session where
  "zero_relay_session = \<lparr>rs_s = None, rs_expiration_time = 0, rs_lifetime_ev = None\<rparr>"

section \<open>Allocations\<close>

definition init_turn_permission_hashtable :: turn_permission_hashtable where
  "init_turn_permission_hashtable = (\<lambda>_. \<lparr>main_slots = replicate 3 zero_permission_info, extra_slots = []\<rparr>)"

definition init_allocation :: allocation where
  "init_allocation = \<lparr>is_valid = False, alloc_tid = replicate 12 0, addr_to_perm = init_turn_permission_hashtable,
     relay_sessions = (\<lambda>_. zero_relay_session), relay_sessions_failure = (\<lambda>_. 0),
     chns = (\<lambda>_. \<lparr>main_slots = replicate 3 zero_ch_info, extra_slots = []\<rparr>), tcs = []\<rparr>"

definition ALLOC_INDEX :: "u16 \<Rightarrow> bool" where
  "ALLOC_INDEX family = (family = AF_INET6)"

definition get_relay_session :: "allocation \<Rightarrow> u16 \<Rightarrow> relay_endpoint_session" where
  "get_relay_session a family = relay_sessions a (ALLOC_INDEX family)"

definition get_relay_session_failure :: "allocation \<Rightarrow> u16 \<Rightarrow> int" where
  "get_relay_session_failure a family = relay_sessions_failure a (ALLOC_INDEX family)"

definition set_relay_session_failure :: "allocation \<Rightarrow> u16 \<Rightarrow> allocation" where
  "set_relay_session_failure a family =
     a\<lparr>relay_sessions_failure := (relay_sessions_failure a)(ALLOC_INDEX family := 1)\<rparr>"

definition get_relay_socket :: "allocation \<Rightarrow> u16 \<Rightarrow> ioa_socket_handle option" where
  "get_relay_socket a family = rs_s (relay_sessions a (ALLOC_INDEX family))"

text \<open>The timer that is deleted, if any, is returned with the allocation.\<close>

definition set_allocation_lifetime_ev ::
    "allocation \<Rightarrow> turn_time_t \<Rightarrow> ioa_timer_handle option \<Rightarrow> u16 \<Rightarrow> ioa_timer_handle option \<times> allocation" where
  "set_allocation_lifetime_ev a exp_time ev family =
     (let i = ALLOC_INDEX family; s = relay_sessions a i in
      (rs_lifetime_ev s,
       a\<lparr>relay_sessions := (relay_sessions a)(i := s\<lparr>rs_expiration_time := exp_time, rs_lifetime_ev := ev\<rparr>)\<rparr>))"

definition is_allocation_valid :: "allocation \<Rightarrow> bool" where
  "is_allocation_valid a = is_valid a"

definition set_allocation_valid :: "allocation \<Rightarrow> bool \<Rightarrow> allocation" where
  "set_allocation_valid a v = a\<lparr>is_valid := v\<rparr>"

section \<open>Permissions\<close>

definition permission_index :: "ioa_addr \<Rightarrow> 3 word" where
  "permission_index addr = ucast (addr_hash_no_port (Some addr) AND 7)"

definition get_from_turn_permission_hashtable :: "turn_permission_hashtable \<Rightarrow> ioa_addr \<Rightarrow> slot_ref option" where
  "get_from_turn_permission_hashtable t addr =
     find_slot (\<lambda>i. pi_allocated i \<and> addr_eq_no_port (Some (pi_addr i)) (Some addr)) t (permission_index addr)"

definition allocation_get_permission :: "allocation \<Rightarrow> ioa_addr \<Rightarrow> slot_ref option" where
  "allocation_get_permission a addr = get_from_turn_permission_hashtable (addr_to_perm a) addr"

definition permission_at :: "allocation \<Rightarrow> slot_ref \<Rightarrow> turn_permission_info" where
  "permission_at a r = (case slot_at (addr_to_perm a) r of Some i \<Rightarrow> i | None \<Rightarrow> zero_permission_info)"

definition put_permission :: "allocation \<Rightarrow> slot_ref \<Rightarrow> turn_permission_info \<Rightarrow> allocation" where
  "put_permission a r i = a\<lparr>addr_to_perm := put_slot (addr_to_perm a) r i\<rparr>"

definition channel_at :: "allocation \<Rightarrow> slot_ref \<Rightarrow> ch_info" where
  "channel_at a r = (case slot_at (chns a) r of Some c \<Rightarrow> c | None \<Rightarrow> zero_ch_info)"

definition put_channel :: "allocation \<Rightarrow> slot_ref \<Rightarrow> ch_info \<Rightarrow> allocation" where
  "put_channel a r c = a\<lparr>chns := put_slot (chns a) r c\<rparr>"

definition ch_info_clean :: "allocation \<Rightarrow> slot_ref \<Rightarrow> allocation" where
  "ch_info_clean a r = put_channel a r zero_ch_info"

definition delete_channel_info_from_allocation_map :: "u64 \<Rightarrow> slot_ref \<Rightarrow> allocation \<Rightarrow> bool \<times> allocation" where
  "delete_channel_info_from_allocation_map key r a = (False, ch_info_clean a r)"

definition turn_permission_clean :: "allocation \<Rightarrow> slot_ref \<Rightarrow> allocation" where
  "turn_permission_clean a r =
     (let tinfo = permission_at a r in
      if \<not> pi_allocated tinfo then a
      else put_permission (snd (lm_map_foreach (pi_chns tinfo) delete_channel_info_from_allocation_map a))
             r zero_permission_info)"

definition allocation_count_permissions :: "turn_permission_hashtable \<Rightarrow> nat" where
  "allocation_count_permissions t =
     sum_list (map (\<lambda>b. length (filter pi_allocated (slots (t (of_nat b))))) [0..<8])"

abbreviation (input) TURN_MAX_PERMISSIONS_PER_ALLOCATION :: nat where
  "TURN_MAX_PERMISSIONS_PER_ALLOCATION \<equiv> 1024"

definition new_permission_info :: "ioa_addr \<Rightarrow> turn_permission_info" where
  "new_permission_info addr = zero_permission_info\<lparr>pi_allocated := True, pi_addr := addr, pi_owner := True\<rparr>"

definition allocation_add_permission :: "allocation \<Rightarrow> ioa_addr \<Rightarrow> slot_ref option \<times> allocation" where
  "allocation_add_permission a addr =
     (let t = addr_to_perm a; b = permission_index addr in
      case free_slot pi_allocated t b of
        Some r \<Rightarrow> (Some r, put_permission a r (new_permission_info addr))
      | None \<Rightarrow>
          if allocation_count_permissions t \<ge> TURN_MAX_PERMISSIONS_PER_ALLOCATION then (None, a)
          else (Some (b, length (slots (t b))),
                a\<lparr>addr_to_perm := t(b := add_slot (t b) (new_permission_info addr))\<rparr>))"

section \<open>Channels\<close>

definition channel_index :: "u16 \<Rightarrow> 3 word" where
  "channel_index n = ucast (n AND 7)"

text \<open>With new_chn unset ch_map_get searches the channel, otherwise it hands out a free slot.\<close>

definition ch_map_find :: "ch_map \<Rightarrow> u16 \<Rightarrow> slot_ref option" where
  "ch_map_find t n = find_slot (\<lambda>c. ch_allocated c \<and> chnum c = n) t (channel_index n)"

definition ch_map_new :: "ch_map \<Rightarrow> u16 \<Rightarrow> slot_ref \<times> ch_map" where
  "ch_map_new t n =
     (let b = channel_index n in
      case free_slot ch_allocated t b of
        Some r \<Rightarrow> (r, t)
      | None \<Rightarrow> ((b, length (slots (t b))), t(b := add_slot (t b) zero_ch_info)))"

definition ch_map_get :: "ch_map \<Rightarrow> u16 \<Rightarrow> bool \<Rightarrow> slot_ref option \<times> ch_map" where
  "ch_map_get t n new_chn =
     (if new_chn then (case ch_map_new t n of (r, t) \<Rightarrow> (Some r, t)) else (ch_map_find t n, t))"

definition clean_slots :: "ch_info list \<Rightarrow> ch_info list" where
  "clean_slots cs = map (\<lambda>c. if ch_allocated c then zero_ch_info else c) cs"

definition ch_map_clean :: "ch_map \<Rightarrow> ch_map" where
  "ch_map_clean t = (\<lambda>b. \<lparr>main_slots = clean_slots (main_slots (t b)), extra_slots = []\<rparr>)"

definition turn_channel_delete :: "allocation \<Rightarrow> slot_ref \<Rightarrow> allocation" where
  "turn_channel_delete a r =
     (let chn = channel_at a r; port = addr_get_port (Some (peer_addr chn));
          a = (case ch_owner chn of
                 Some p \<Rightarrow> (let tinfo = permission_at a p in
                   put_permission a p (tinfo\<lparr>pi_chns := snd (snd (lm_map_del (pi_chns tinfo) (ucast port)))\<rparr>))
               | None \<Rightarrow> a)
      in snd (delete_channel_info_from_allocation_map (ucast port) r a))"

definition bind_channel :: "allocation \<Rightarrow> slot_ref \<Rightarrow> u16 \<Rightarrow> ioa_addr \<Rightarrow> slot_ref option \<times> allocation" where
  "bind_channel a p n addr =
     (case ch_map_get (chns a) n True of
        (None, t) \<Rightarrow> (None, a\<lparr>chns := t\<rparr>)
      | (Some r, t) \<Rightarrow>
          (let a = a\<lparr>chns := t\<rparr>;
               a = put_channel a r ((channel_at a r)\<lparr>ch_allocated := True, chnum := n, ch_port := addr_get_port (Some addr),
                                                     peer_addr := addr, ch_owner := Some p\<rparr>);
               tinfo = permission_at a p
           in (Some r, put_permission a p
                 (tinfo\<lparr>pi_chns := snd (lm_map_put (pi_chns tinfo) (ucast (addr_get_port (Some addr))) (Some r))\<rparr>))))"

definition allocation_get_new_ch_info :: "allocation \<Rightarrow> u16 \<Rightarrow> ioa_addr \<Rightarrow> slot_ref option \<times> allocation" where
  "allocation_get_new_ch_info a n addr =
     (case allocation_get_permission a addr of
        Some p \<Rightarrow> bind_channel a p n addr
      | None \<Rightarrow>
          (case allocation_add_permission a addr of
             (None, a) \<Rightarrow> (None, a)
           | (Some p, a) \<Rightarrow> bind_channel a p n addr))"

definition allocation_get_ch_info :: "allocation \<Rightarrow> u16 \<Rightarrow> slot_ref option" where
  "allocation_get_ch_info a n = fst (ch_map_get (chns a) n False)"

definition get_turn_channel :: "allocation \<Rightarrow> slot_ref \<Rightarrow> ioa_addr \<Rightarrow> slot_ref option" where
  "get_turn_channel a p addr =
     (case lm_map_get (pi_chns (permission_at a p)) (ucast (addr_get_port (Some addr))) of
        Some (Some r) \<Rightarrow> if STUN_VALID_CHANNEL (chnum (channel_at a r)) then Some r else None
      | _ \<Rightarrow> None)"

definition get_turn_channel_number :: "allocation \<Rightarrow> slot_ref \<Rightarrow> ioa_addr \<Rightarrow> u16" where
  "get_turn_channel_number a p addr =
     (case lm_map_get (pi_chns (permission_at a p)) (ucast (addr_get_port (Some addr))) of
        Some (Some r) \<Rightarrow>
          if STUN_VALID_CHANNEL (chnum (channel_at a r)) then chnum (channel_at a r) else 0
      | _ \<Rightarrow> 0)"

definition allocation_get_ch_info_by_peer_addr :: "allocation \<Rightarrow> ioa_addr \<Rightarrow> slot_ref option" where
  "allocation_get_ch_info_by_peer_addr a addr =
     (case allocation_get_permission a addr of
        Some p \<Rightarrow> get_turn_channel a p addr
      | None \<Rightarrow> None)"

text \<open>Freeing the whole permission table: every permission in use is cleaned, bucket by bucket, and
  the further slots are freed.\<close>

definition free_turn_permission_hashtable :: "allocation \<Rightarrow> allocation" where
  "free_turn_permission_hashtable a =
     (let a = fold (\<lambda>r a. if pi_allocated (permission_at a r) then turn_permission_clean a r else a)
                (slot_refs (addr_to_perm a)) a
      in a\<lparr>addr_to_perm := (\<lambda>b. (addr_to_perm a b)\<lparr>extra_slots := []\<rparr>)\<rparr>)"

section \<open>The live permissions and channels\<close>

text \<open>The two tables seen as maps from references to the permissions and channels in use.\<close>

definition perms :: "allocation \<Rightarrow> slot_ref \<Rightarrow> turn_permission_info option" where
  "perms a = live pi_allocated (addr_to_perm a)"

definition chans :: "allocation \<Rightarrow> slot_ref \<Rightarrow> ch_info option" where
  "chans a = live ch_allocated (chns a)"

interpretation permission_lookup: slot_lookup pi_allocated "\<lambda>i. permission_index (pi_addr i)"
  "\<lambda>i addr. addr_eq_no_port (Some (pi_addr i)) (Some addr)" permission_index
  by unfold_locales (metis addr_hash_no_port_cong permission_index_def)

interpretation channel_lookup: slot_lookup ch_allocated "\<lambda>c. channel_index (chnum c)" "\<lambda>c n. chnum c = n" channel_index
  by unfold_locales simp

lemma get_permission_lookup: "allocation_get_permission a addr = permission_lookup.lookup (addr_to_perm a) addr"
  by (simp add: allocation_get_permission_def get_from_turn_permission_hashtable_def permission_lookup.lookup_def)

lemma get_ch_info_lookup: "allocation_get_ch_info a n = channel_lookup.lookup (chns a) n"
  by (simp add: allocation_get_ch_info_def ch_map_get_def ch_map_find_def channel_lookup.lookup_def)

lemma perms_at: "perms a r = Some i \<Longrightarrow> permission_at a r = i \<and> pi_allocated i \<and> slot_at (addr_to_perm a) r = Some i"
  by (auto simp: perms_def live_Some permission_at_def)

lemma chans_at: "chans a r = Some c \<Longrightarrow> channel_at a r = c \<and> ch_allocated c \<and> slot_at (chns a) r = Some c"
  by (auto simp: chans_def live_Some channel_at_def)

lemma put_permission_maps:
  "perms a r \<noteq> None \<Longrightarrow> perms (put_permission a r i) = (perms a)(r := if pi_allocated i then Some i else None)"
  "chans (put_permission a r i) = chans a"
  by (auto simp: perms_def chans_def put_permission_def live_put_slot dest!: live_slot_at)

lemma put_channel_maps:
  "slot_at (chns a) r \<noteq> None \<Longrightarrow> chans (put_channel a r c) = (chans a)(r := if ch_allocated c then Some c else None)"
  "perms (put_channel a r c) = perms a"
  by (simp_all add: perms_def chans_def put_channel_def live_put_slot)

lemma permission_at_put_channel [simp]: "permission_at (put_channel a r c) p = permission_at a p"
  by (simp add: permission_at_def put_channel_def)

lemma zero_not_allocated [simp]: "\<not> pi_allocated zero_permission_info" "\<not> ch_allocated zero_ch_info"
  by (simp_all add: zero_permission_info_def zero_ch_info_def)

lemma add_permission_maps:
  assumes "allocation_add_permission a addr = (Some r, a')"
  shows "perms a r = None" "perms a' = (perms a)(r \<mapsto> new_permission_info addr)" "chns a' = chns a"
    "fst r = permission_index addr"
proof -
  have al: "pi_allocated (new_permission_info addr)" by (simp add: new_permission_info_def)
  let ?b = "permission_index addr"
  consider "free_slot pi_allocated (addr_to_perm a) ?b = Some r" "a' = put_permission a r (new_permission_info addr)"
    | "r = (?b, length (slots (addr_to_perm a ?b)))"
      "a' = a\<lparr>addr_to_perm := (addr_to_perm a)(?b := add_slot (addr_to_perm a ?b) (new_permission_info addr))\<rparr>"
    using assms by (auto simp: allocation_add_permission_def Let_def split: option.splits if_splits)
  then have "perms a r = None \<and> perms a' = (perms a)(r \<mapsto> new_permission_info addr) \<and> chns a' = chns a \<and> fst r = ?b"
  proof cases
    case 1
    then show ?thesis
      using free_slot_Some [OF 1(1)] al by (auto simp: perms_def put_permission_def live_put_slot)
  next
    case 2
    then show ?thesis
      using new_slot_free [of "addr_to_perm a" ?b] al by (auto simp: perms_def live_add_slot live_def)
  qed
  then show "perms a r = None" "perms a' = (perms a)(r \<mapsto> new_permission_info addr)" "chns a' = chns a"
    "fst r = permission_index addr" by auto
qed

section \<open>The invariant\<close>

text \<open>Permissions in use stand in the bucket of their address, and no two of them have the same
  address up to the port.  A channel in use has a valid number of its own, stands in the bucket of
  this number, and its owner is a permission in use for the peer's address that maps the peer's
  port back to the channel; a permission maps ports to such channels only.\<close>

definition perms_ok :: "(slot_ref \<Rightarrow> turn_permission_info option) \<Rightarrow> bool" where
  "perms_ok P \<longleftrightarrow>
     (\<forall>r i. P r = Some i \<longrightarrow> fst r = permission_index (pi_addr i) \<and> lm_inv (pi_chns i) \<and> pi_owner i) \<and>
     (\<forall>r r' i i'. P r = Some i \<longrightarrow> P r' = Some i' \<longrightarrow>
        addr_eq_no_port (Some (pi_addr i)) (Some (pi_addr i')) \<longrightarrow> r = r')"

definition owned :: "(slot_ref \<Rightarrow> turn_permission_info option) \<Rightarrow> slot_ref \<Rightarrow> ch_info \<Rightarrow> bool" where
  "owned P c ch \<longleftrightarrow> (\<exists>r i. ch_owner ch = Some r \<and> P r = Some i \<and>
     addr_eq_no_port (Some (pi_addr i)) (Some (peer_addr ch)) \<and> lm_map_get (pi_chns i) (ucast (ch_port ch)) = Some (Some c))"

definition chans_ok :: "(slot_ref \<Rightarrow> turn_permission_info option) \<Rightarrow> (slot_ref \<Rightarrow> ch_info option) \<Rightarrow> bool" where
  "chans_ok P C \<longleftrightarrow>
     (\<forall>c ch. C c = Some ch \<longrightarrow> fst c = channel_index (chnum ch) \<and> STUN_VALID_CHANNEL (chnum ch) \<and>
        ch_port ch = addr_get_port (Some (peer_addr ch)) \<and> ch_port ch \<noteq> 0 \<and> owned P c ch) \<and>
     (\<forall>c c' ch ch'. C c = Some ch \<longrightarrow> C c' = Some ch' \<longrightarrow> chnum ch = chnum ch' \<longrightarrow> c = c') \<and>
     (\<forall>r i k v. P r = Some i \<longrightarrow> k \<noteq> 0 \<longrightarrow> lm_map_get (pi_chns i) k = Some v \<longrightarrow>
        (\<exists>c ch. v = Some c \<and> C c = Some ch \<and> ch_owner ch = Some r \<and> k = ucast (ch_port ch)))"

definition alloc_inv :: "allocation \<Rightarrow> bool" where
  "alloc_inv a \<longleftrightarrow> perms_ok (perms a) \<and> chans_ok (perms a) (chans a)"

lemma alloc_inv_placed:
  assumes "alloc_inv a"
  shows "placed pi_allocated (\<lambda>i. permission_index (pi_addr i)) (addr_to_perm a)"
    "placed ch_allocated (\<lambda>c. channel_index (chnum c)) (chns a)"
  using assms by (auto simp: alloc_inv_def perms_ok_def chans_ok_def placed_def perms_def chans_def)

text \<open>What the lookups find.\<close>

lemma get_permission_iff:
  assumes "alloc_inv a"
  shows "allocation_get_permission a addr = Some r \<longleftrightarrow>
    (\<exists>i. perms a r = Some i \<and> addr_eq_no_port (Some (pi_addr i)) (Some addr))"
  unfolding get_permission_lookup perms_def
proof (rule permission_lookup.lookup_iff [OF alloc_inv_placed(1) [OF assms]])
  fix r r' x x'
  assume l: "live pi_allocated (addr_to_perm a) r = Some x" "live pi_allocated (addr_to_perm a) r' = Some x'"
    and m: "addr_eq_no_port (Some (pi_addr x)) (Some addr)" "addr_eq_no_port (Some (pi_addr x')) (Some addr)"
  have "addr_eq_no_port (Some (pi_addr x)) (Some (pi_addr x'))"
    using addr_eq_no_port_trans [OF m(1)] m(2) addr_eq_no_port_sym by blast
  moreover have "perms_ok (live pi_allocated (addr_to_perm a))" using assms by (simp add: alloc_inv_def perms_def)
  ultimately show "r = r'" using l unfolding perms_ok_def by blast
qed

lemma get_ch_info_iff:
  assumes "alloc_inv a"
  shows "allocation_get_ch_info a n = Some c \<longleftrightarrow> (\<exists>ch. chans a c = Some ch \<and> chnum ch = n)"
  unfolding get_ch_info_lookup chans_def
proof (rule channel_lookup.lookup_iff [OF alloc_inv_placed(2) [OF assms]])
  fix r r' x x'
  assume "live ch_allocated (chns a) r = Some x" "live ch_allocated (chns a) r' = Some x'" "chnum x = n" "chnum x' = n"
  moreover have "chans_ok (perms a) (live ch_allocated (chns a))" using assms by (simp add: alloc_inv_def chans_def)
  ultimately show "r = r'" unfolding chans_ok_def by blast
qed

lemma ucast_port_eq [simp]: "(ucast (x :: u16) :: u64) = ucast y \<longleftrightarrow> x = y"
proof
  have t: "take_bit 64 (uint w) = uint w" for w :: u16
    using uint_bounded [of w] by (simp add: take_bit_int_eq_self_iff)
  assume "(ucast x :: u64) = ucast y"
  then have "uint (ucast x :: u64) = uint (ucast y :: u64)" by simp
  then show "x = y" by (simp add: unsigned_ucast_eq t word_uint_eq_iff)
qed simp

lemma alloc_permD:
  "alloc_inv a \<Longrightarrow> perms a r = Some i \<Longrightarrow> fst r = permission_index (pi_addr i) \<and> lm_inv (pi_chns i) \<and> pi_owner i"
  unfolding alloc_inv_def perms_ok_def by blast

lemma alloc_chanD:
  assumes "alloc_inv a" "chans a c = Some ch"
  shows "STUN_VALID_CHANNEL (chnum ch)" "ch_port ch = addr_get_port (Some (peer_addr ch))" "ch_port ch \<noteq> 0"
    "\<exists>r i. ch_owner ch = Some r \<and> perms a r = Some i \<and> addr_eq_no_port (Some (pi_addr i)) (Some (peer_addr ch)) \<and>
       lm_map_get (pi_chns i) (ucast (ch_port ch)) = Some (Some c)"
  using assms unfolding alloc_inv_def chans_ok_def owned_def by blast+

lemma alloc_portD:
  "alloc_inv a \<Longrightarrow> perms a r = Some i \<Longrightarrow> k \<noteq> 0 \<Longrightarrow> lm_map_get (pi_chns i) k = Some v \<Longrightarrow>
     \<exists>c ch. v = Some c \<and> chans a c = Some ch \<and> ch_owner ch = Some r \<and> k = ucast (ch_port ch)"
  unfolding alloc_inv_def chans_ok_def by blast

section \<open>Cleaning permissions\<close>

lemma ch_info_clean_maps [simp]:
  "chans (ch_info_clean a r) = (chans a)(r := None)" "perms (ch_info_clean a r) = perms a"
  "addr_to_perm (ch_info_clean a r) = addr_to_perm a"
  by (simp_all add: ch_info_clean_def put_channel_def chans_def perms_def live_put_free)

lemma put_zero_permission_maps [simp]:
  "perms (put_permission a r zero_permission_info) = (perms a)(r := None)"
  "chans (put_permission a r i) = chans a"
  by (simp_all add: put_permission_def perms_def chans_def live_put_free)

lemma clean_cells_perms:
  "addr_to_perm (snd (foreach_cells delete_channel_info_from_allocation_map cs a)) = addr_to_perm a"
  by (induction cs arbitrary: a) (auto simp: delete_channel_info_from_allocation_map_def)

lemma clean_cells_chans:
  "chans (snd (foreach_cells delete_channel_info_from_allocation_map cs a)) r =
     (if \<exists>k. k \<noteq> 0 \<and> (k, Some r) \<in> set cs then None else chans a r)"
proof (induction cs arbitrary: a)
  case (Cons kv cs)
  obtain k v where kv: "kv = (k, v)" by fastforce
  show ?case
  proof (cases "k \<noteq> 0 \<and> v \<noteq> None")
    case True
    then obtain c where v: "v = Some c" by blast
    have "chans (snd (foreach_cells delete_channel_info_from_allocation_map (kv # cs) a)) r =
        (if \<exists>k. k \<noteq> 0 \<and> (k, Some r) \<in> set cs then None else chans (ch_info_clean a c) r)"
      using True by (simp add: kv v delete_channel_info_from_allocation_map_def [of k] Cons.IH)
    then show ?thesis using True unfolding kv v by (cases "c = r") auto
  next
    case False
    then show ?thesis by (simp add: kv Cons.IH) blast
  qed
qed simp

lemma lm_get_cells:
  assumes "lm_inv m" "k \<noteq> 0"
  shows "lm_map_get m k = Some v \<longleftrightarrow> (k, v) \<in> set (lm_cells m)"
proof -
  let ?cells = "\<lambda>i. main_cells (lm_table m i) @ extra_cells (lm_table m i)"
  have b: "bucket_inv i (?cells i)" for i using assms(1) by (simp add: lm_inv_def)
  have "lm_map_get m k = Some v \<longleftrightarrow> (k, v) \<in> set (used (?cells (lm_index k)))"
    using b [of "lm_index k"] unfolding lm_get_map_of [OF assms] bucket_inv_def by (simp add: map_of_eq_Some_iff del: used_append)
  also have "\<dots> \<longleftrightarrow> (k, v) \<in> set (?cells (lm_index k))" using assms(2) by (auto simp: used_def)
  also have "\<dots> \<longleftrightarrow> (\<exists>i. (k, v) \<in> set (?cells i))"
  proof -
    have "lm_index k = i" if "(k, v) \<in> set (?cells i)" for i
    proof -
      have "(k, v) \<in> set (used (?cells i))" using that assms(2) by (auto simp: used_def)
      then show ?thesis using b [of i] unfolding bucket_inv_def by blast
    qed
    then show ?thesis by blast
  qed
  also have "\<dots> \<longleftrightarrow> (k, v) \<in> set (lm_cells m)"
  proof -
    have "\<exists>n<8. i = of_nat n" for i :: "3 word"
      using unsigned_less [of i, where ?'a = nat] by (intro exI [of _ "unat i"]) simp
    then show ?thesis by (auto simp: lm_cells_def) (metis atLeast0LessThan lessThan_iff set_upt)+
  qed
  finally show ?thesis .
qed

text \<open>Cleaning a permission removes it and the channels it owns.\<close>

lemma turn_permission_clean_maps:
  assumes inv: "alloc_inv a" and p: "perms a r = Some i"
  shows "perms (turn_permission_clean a r) = (perms a)(r := None)"
    "chans (turn_permission_clean a r) =
       (\<lambda>c. case chans a c of Some ch \<Rightarrow> if ch_owner ch = Some r then None else Some ch | None \<Rightarrow> None)"
proof -
  let ?b = "snd (lm_map_foreach (pi_chns i) delete_channel_info_from_allocation_map a)"
  have e: "turn_permission_clean a r = put_permission ?b r zero_permission_info"
    using perms_at [OF p] by (simp add: turn_permission_clean_def)
  have "perms ?b = perms a" by (simp add: lm_map_foreach_def perms_def clean_cells_perms)
  then show "perms (turn_permission_clean a r) = (perms a)(r := None)" by (simp add: e)
  have lm: "lm_inv (pi_chns i)" using inv p by (auto simp: alloc_inv_def perms_ok_def)
  have ok: "chans_ok (perms a) (chans a)" using inv by (simp add: alloc_inv_def)
  have "(\<exists>k. k \<noteq> 0 \<and> (k, Some c) \<in> set (lm_cells (pi_chns i))) \<longleftrightarrow> (\<exists>ch. chans a c = Some ch \<and> ch_owner ch = Some r)" for c
  proof
    assume "\<exists>k. k \<noteq> 0 \<and> (k, Some c) \<in> set (lm_cells (pi_chns i))"
    then obtain k where "k \<noteq> 0" "lm_map_get (pi_chns i) k = Some (Some c)" using lm_get_cells [OF lm] by blast
    then show "\<exists>ch. chans a c = Some ch \<and> ch_owner ch = Some r" using ok p unfolding chans_ok_def by blast
  next
    assume "\<exists>ch. chans a c = Some ch \<and> ch_owner ch = Some r"
    then obtain ch where ch: "chans a c = Some ch" "ch_owner ch = Some r" by blast
    then have "ch_port ch \<noteq> 0" "owned (perms a) c ch" using ok unfolding chans_ok_def by blast+
    then have "(ucast (ch_port ch) :: u64) \<noteq> 0" "lm_map_get (pi_chns i) (ucast (ch_port ch)) = Some (Some c)"
      using ch p ucast_port_eq [of "ch_port ch" 0] by (auto simp: owned_def)
    then show "\<exists>k. k \<noteq> 0 \<and> (k, Some c) \<in> set (lm_cells (pi_chns i))" using lm_get_cells [OF lm] by blast
  qed
  then show "chans (turn_permission_clean a r) =
       (\<lambda>c. case chans a c of Some ch \<Rightarrow> if ch_owner ch = Some r then None else Some ch | None \<Rightarrow> None)"
    by (auto simp: e lm_map_foreach_def clean_cells_chans fun_eq_iff split: option.splits)
qed

section \<open>The operations keep the invariant\<close>

lemma perms_okD:
  "perms_ok P \<Longrightarrow> P r = Some i \<Longrightarrow> fst r = permission_index (pi_addr i) \<and> lm_inv (pi_chns i) \<and> pi_owner i"
  unfolding perms_ok_def by blast

lemma perms_ok_unique:
  "perms_ok P \<Longrightarrow> P r = Some i \<Longrightarrow> P r' = Some i' \<Longrightarrow> addr_eq_no_port (Some (pi_addr i)) (Some (pi_addr i')) \<Longrightarrow> r = r'"
  unfolding perms_ok_def by blast

lemma chans_okD:
  "chans_ok P C \<Longrightarrow> C c = Some ch \<Longrightarrow> fst c = channel_index (chnum ch) \<and> STUN_VALID_CHANNEL (chnum ch) \<and>
     ch_port ch = addr_get_port (Some (peer_addr ch)) \<and> ch_port ch \<noteq> 0 \<and> owned P c ch"
  unfolding chans_ok_def by blast

lemma chans_ok_unique: "chans_ok P C \<Longrightarrow> C c = Some ch \<Longrightarrow> C c' = Some ch' \<Longrightarrow> chnum ch = chnum ch' \<Longrightarrow> c = c'"
  unfolding chans_ok_def by blast

lemma chans_ok_port:
  "chans_ok P C \<Longrightarrow> P r = Some i \<Longrightarrow> k \<noteq> 0 \<Longrightarrow> lm_map_get (pi_chns i) k = Some v \<Longrightarrow>
     \<exists>c ch. v = Some c \<and> C c = Some ch \<and> ch_owner ch = Some r \<and> k = ucast (ch_port ch)"
  unfolding chans_ok_def by blast

lemma perms_okI:
  assumes "\<And>r i. P r = Some i \<Longrightarrow> fst r = permission_index (pi_addr i) \<and> lm_inv (pi_chns i) \<and> pi_owner i"
    and "\<And>r r' i i'. P r = Some i \<Longrightarrow> P r' = Some i' \<Longrightarrow> addr_eq_no_port (Some (pi_addr i)) (Some (pi_addr i')) \<Longrightarrow> r = r'"
  shows "perms_ok P"
  unfolding perms_ok_def using assms by blast

lemma chans_okI:
  assumes "\<And>c ch. C c = Some ch \<Longrightarrow> fst c = channel_index (chnum ch) \<and> STUN_VALID_CHANNEL (chnum ch) \<and>
      ch_port ch = addr_get_port (Some (peer_addr ch)) \<and> ch_port ch \<noteq> 0 \<and> owned P c ch"
    and "\<And>c c' ch ch'. C c = Some ch \<Longrightarrow> C c' = Some ch' \<Longrightarrow> chnum ch = chnum ch' \<Longrightarrow> c = c'"
    and "\<And>r i k v. P r = Some i \<Longrightarrow> k \<noteq> 0 \<Longrightarrow> lm_map_get (pi_chns i) k = Some v \<Longrightarrow>
      \<exists>c ch. v = Some c \<and> C c = Some ch \<and> ch_owner ch = Some r \<and> k = ucast (ch_port ch)"
  shows "chans_ok P C"
  unfolding chans_ok_def using assms by blast

lemma ucast_port_zero [simp]: "(ucast (p :: u16) :: u64) = 0 \<longleftrightarrow> p = 0"
  using ucast_port_eq [of p 0] by simp

text \<open>Updating the channels of one permission.\<close>

lemma perms_ok_update:
  assumes "perms_ok P" "P r = Some i" "pi_addr j = pi_addr i" "lm_inv (pi_chns j)" "pi_owner j"
  shows "perms_ok (P(r \<mapsto> j))"
proof (rule perms_okI)
  fix r' i'
  assume "(P(r \<mapsto> j)) r' = Some i'"
  then show "fst r' = permission_index (pi_addr i') \<and> lm_inv (pi_chns i') \<and> pi_owner i'"
    using perms_okD [OF assms(1)] assms(2-) by (auto split: if_splits)
next
  fix r1 r2 i1 i2
  assume "(P(r \<mapsto> j)) r1 = Some i1" "(P(r \<mapsto> j)) r2 = Some i2" "addr_eq_no_port (Some (pi_addr i1)) (Some (pi_addr i2))"
  then show "r1 = r2"
    using perms_ok_unique [OF assms(1)] assms(2,3) by (auto split: if_splits)
qed

lemma perms_ok_remove: "perms_ok P \<Longrightarrow> perms_ok (P(r := None))"
  by (rule perms_okI) (auto split: if_splits dest: perms_okD perms_ok_unique)

lemma perms_ok_add:
  assumes "perms_ok P" "fst r = permission_index addr"
    "\<And>r i. P r = Some i \<Longrightarrow> \<not> addr_eq_no_port (Some (pi_addr i)) (Some addr)"
  shows "perms_ok (P(r \<mapsto> new_permission_info addr))"
proof (rule perms_okI)
  fix r' i'
  assume "(P(r \<mapsto> new_permission_info addr)) r' = Some i'"
  then show "fst r' = permission_index (pi_addr i') \<and> lm_inv (pi_chns i') \<and> pi_owner i'"
    using perms_okD [OF assms(1)] assms(2)
    by (auto simp: new_permission_info_def zero_permission_info_def lm_inv_init split: if_splits)
next
  fix r1 r2 i1 i2
  assume a: "(P(r \<mapsto> new_permission_info addr)) r1 = Some i1" "(P(r \<mapsto> new_permission_info addr)) r2 = Some i2"
    "addr_eq_no_port (Some (pi_addr i1)) (Some (pi_addr i2))"
  have n: "pi_addr (new_permission_info addr) = addr" by (simp add: new_permission_info_def)
  show "r1 = r2"
  proof (cases "r1 = r"; cases "r2 = r")
    assume "r1 = r" "r2 \<noteq> r"
    then show ?thesis using a n assms(3) [of r2 i2] addr_eq_no_port_sym [of "Some addr"] by auto
  next
    assume "r1 \<noteq> r" "r2 = r"
    then show ?thesis using a n assms(3) [of r1 i1] by auto
  qed (use a perms_ok_unique [OF assms(1), of r1 i1 r2 i2] in auto)
qed

lemma chans_ok_add:
  assumes "chans_ok P C" "P r = None"
  shows "chans_ok (P(r \<mapsto> new_permission_info addr)) C"
proof (rule chans_okI)
  fix c ch
  assume c: "C c = Some ch"
  have "owned (P(r \<mapsto> new_permission_info addr)) c ch" if "owned P c ch"
    using that assms(2) unfolding owned_def by auto
  then show "fst c = channel_index (chnum ch) \<and> STUN_VALID_CHANNEL (chnum ch) \<and>
      ch_port ch = addr_get_port (Some (peer_addr ch)) \<and> ch_port ch \<noteq> 0 \<and> owned (P(r \<mapsto> new_permission_info addr)) c ch"
    using chans_okD [OF assms(1) c] by blast
next
  fix r' i k v
  assume "(P(r \<mapsto> new_permission_info addr)) r' = Some i" "k \<noteq> 0" "lm_map_get (pi_chns i) k = Some v"
  then show "\<exists>c ch. v = Some c \<and> C c = Some ch \<and> ch_owner ch = Some r' \<and> k = ucast (ch_port ch)"
    using chans_ok_port [OF assms(1)]
    by (auto simp: new_permission_info_def zero_permission_info_def lm_get_init split: if_splits)
qed (rule chans_ok_unique [OF assms(1)])

lemma chans_ok_remove_permission:
  assumes "chans_ok P C"
  shows "chans_ok (P(r := None)) (\<lambda>c. case C c of Some ch \<Rightarrow> if ch_owner ch = Some r then None else Some ch | None \<Rightarrow> None)"
    (is "chans_ok ?P ?C")
proof (rule chans_okI)
  have C: "?C c = Some ch \<longleftrightarrow> C c = Some ch \<and> ch_owner ch \<noteq> Some r" for c ch by (auto split: option.splits)
  {
    fix c ch
    assume "?C c = Some ch"
    then show "fst c = channel_index (chnum ch) \<and> STUN_VALID_CHANNEL (chnum ch) \<and>
        ch_port ch = addr_get_port (Some (peer_addr ch)) \<and> ch_port ch \<noteq> 0 \<and> owned ?P c ch"
      using chans_okD [OF assms, of c ch] C by (auto simp: owned_def)
  next
    fix c c' ch ch'
    assume "?C c = Some ch" "?C c' = Some ch'" "chnum ch = chnum ch'"
    then show "c = c'" using chans_ok_unique [OF assms] C by blast
  next
    fix r' i k v
    assume "?P r' = Some i" "k \<noteq> 0" "lm_map_get (pi_chns i) k = Some v"
    then show "\<exists>c ch. v = Some c \<and> ?C c = Some ch \<and> ch_owner ch = Some r' \<and> k = ucast (ch_port ch)"
      using chans_ok_port [OF assms, of r' i k v] unfolding C by (auto split: if_splits)
  }
qed

lemma chans_ok_remove_channel:
  assumes ok: "chans_ok P C" and c: "C c = Some ch" "ch_owner ch = Some r" and r: "P r = Some i"
    and m: "\<forall>x. x \<noteq> 0 \<longrightarrow> lm_map_get m x = (if ucast (ch_port ch) = x then None else lm_map_get (pi_chns i) x)"
  shows "chans_ok (P(r \<mapsto> i\<lparr>pi_chns := m\<rparr>)) (C(c := None))" (is "chans_ok ?P ?C")
proof (rule chans_okI)
  have self: "lm_map_get (pi_chns i) (ucast (ch_port ch)) = Some (Some c)"
    using chans_okD [OF ok c(1)] c(2) r by (auto simp: owned_def)
  {
    fix c' ch'
    assume "?C c' = Some ch'"
    then have c': "C c' = Some ch'" "c' \<noteq> c" by (auto split: if_splits)
    have "owned ?P c' ch'"
    proof -
      obtain r' i' where o: "ch_owner ch' = Some r'" "P r' = Some i'" "addr_eq_no_port (Some (pi_addr i')) (Some (peer_addr ch'))"
        "lm_map_get (pi_chns i') (ucast (ch_port ch')) = Some (Some c')" "ch_port ch' \<noteq> 0"
        using chans_okD [OF ok c'(1)] by (auto simp: owned_def)
      show ?thesis
      proof (cases "r' = r")
        case True
        then have "ch_port ch' \<noteq> ch_port ch" using o r self c'(2) by auto
        then show ?thesis using o True r m by (auto simp: owned_def)
      qed (use o in \<open>auto simp: owned_def\<close>)
    qed
    then show "fst c' = channel_index (chnum ch') \<and> STUN_VALID_CHANNEL (chnum ch') \<and>
        ch_port ch' = addr_get_port (Some (peer_addr ch')) \<and> ch_port ch' \<noteq> 0 \<and> owned ?P c' ch'"
      using chans_okD [OF ok c'(1)] by blast
  next
    fix c1 c2 ch1 ch2
    assume "?C c1 = Some ch1" "?C c2 = Some ch2" "chnum ch1 = chnum ch2"
    then show "c1 = c2" using chans_ok_unique [OF ok] by (auto split: if_splits)
  next
    fix r' i' k v
    assume a: "?P r' = Some i'" "k \<noteq> 0" "lm_map_get (pi_chns i') k = Some v"
    obtain i0 where i0: "P r' = Some i0" "lm_map_get (pi_chns i0) k = Some v" "r' = r \<Longrightarrow> k \<noteq> ucast (ch_port ch)"
      using a r m by (cases "r' = r") (auto split: if_splits)
    obtain c' ch' where n: "v = Some c'" "C c' = Some ch'" "ch_owner ch' = Some r'" "k = ucast (ch_port ch')"
      using chans_ok_port [OF ok i0(1) a(2) i0(2)] by blast
    then have "c' \<noteq> c" using i0(3) c by auto
    then show "\<exists>c ch. v = Some c \<and> ?C c = Some ch \<and> ch_owner ch = Some r' \<and> k = ucast (ch_port ch)" using n by auto
  }
qed

lemma chans_ok_bind:
  assumes ok: "chans_ok P C" and c: "C c = None" "fst c = channel_index (chnum ch)" "STUN_VALID_CHANNEL (chnum ch)"
      "ch_port ch = addr_get_port (Some (peer_addr ch))" "ch_port ch \<noteq> 0" "ch_owner ch = Some r"
    and r: "P r = Some i" "addr_eq_no_port (Some (pi_addr i)) (Some (peer_addr ch))"
    and new: "\<And>c' ch'. C c' = Some ch' \<Longrightarrow> chnum ch' \<noteq> chnum ch" "lm_map_get (pi_chns i) (ucast (ch_port ch)) = None"
    and m: "\<forall>x. x \<noteq> 0 \<longrightarrow> lm_map_get m x = (if ucast (ch_port ch) = x then Some (Some c) else lm_map_get (pi_chns i) x)"
  shows "chans_ok (P(r \<mapsto> i\<lparr>pi_chns := m\<rparr>)) (C(c \<mapsto> ch))" (is "chans_ok ?P ?C")
proof (rule chans_okI)
  have m0: "lm_map_get m (ucast (ch_port ch)) = Some (Some c)" using m c(5) by simp
  {
    fix c' ch'
    assume a: "?C c' = Some ch'"
    show "fst c' = channel_index (chnum ch') \<and> STUN_VALID_CHANNEL (chnum ch') \<and>
        ch_port ch' = addr_get_port (Some (peer_addr ch')) \<and> ch_port ch' \<noteq> 0 \<and> owned ?P c' ch'"
    proof (cases "c' = c")
      case True
      then show ?thesis using a c r m0 by (simp add: owned_def)
    next
      case False
      then have c': "C c' = Some ch'" using a by simp
      then obtain r' i' where o: "ch_owner ch' = Some r'" "P r' = Some i'" "addr_eq_no_port (Some (pi_addr i')) (Some (peer_addr ch'))"
        "lm_map_get (pi_chns i') (ucast (ch_port ch')) = Some (Some c')" "ch_port ch' \<noteq> 0"
        using chans_okD [OF ok c'] by (auto simp: owned_def)
      have "owned ?P c' ch'"
      proof (cases "r' = r")
        case True
        then have "ch_port ch' \<noteq> ch_port ch" using o r new(2) by auto
        then show ?thesis using o True r m by (auto simp: owned_def)
      qed (use o in \<open>auto simp: owned_def\<close>)
      then show ?thesis using chans_okD [OF ok c'] by blast
    qed
  next
    fix c1 c2 ch1 ch2
    assume "?C c1 = Some ch1" "?C c2 = Some ch2" "chnum ch1 = chnum ch2"
    then show "c1 = c2" using chans_ok_unique [OF ok] new(1) by (metis fun_upd_apply option.inject)
  next
    fix r' i' k v
    assume a: "?P r' = Some i'" "k \<noteq> 0" "lm_map_get (pi_chns i') k = Some v"
    show "\<exists>c ch. v = Some c \<and> ?C c = Some ch \<and> ch_owner ch = Some r' \<and> k = ucast (ch_port ch)"
    proof (cases "r' = r \<and> k = ucast (ch_port ch)")
      case True
      then show ?thesis using a m0 c by auto
    next
      case False
      then obtain i0 where "P r' = Some i0" "lm_map_get (pi_chns i0) k = Some v"
        using a r m by (cases "r' = r") (auto split: if_splits)
      then obtain c' ch' where n: "v = Some c'" "C c' = Some ch'" "ch_owner ch' = Some r'" "k = ucast (ch_port ch')"
        using chans_ok_port [OF ok _ a(2)] by blast
      then have "c' \<noteq> c" using c(1) by auto
      then show ?thesis using n by auto
    qed
  }
qed

text \<open>The operations on allocations.\<close>

lemma live_replicate: "\<not> u z \<Longrightarrow> live u (\<lambda>_. \<lparr>main_slots = replicate n z, extra_slots = []\<rparr>) = (\<lambda>_. None)"
  by (auto simp: live_def slot_at_def slots_def Let_def fun_eq_iff)

lemma init_allocation_maps: "perms init_allocation = (\<lambda>_. None)" "chans init_allocation = (\<lambda>_. None)"
  by (simp_all add: perms_def chans_def init_allocation_def init_turn_permission_hashtable_def live_replicate)

lemma alloc_inv_init: "alloc_inv init_allocation"
  by (simp add: alloc_inv_def init_allocation_maps perms_ok_def chans_ok_def)

lemma get_permission_None:
  "alloc_inv a \<Longrightarrow> allocation_get_permission a addr = None \<longleftrightarrow>
     (\<forall>r i. perms a r = Some i \<longrightarrow> \<not> addr_eq_no_port (Some (pi_addr i)) (Some addr))"
  using get_permission_iff [of a addr] by (metis not_None_eq)

lemma alloc_inv_add_permission:
  assumes "alloc_inv a" "allocation_get_permission a addr = None"
    "allocation_add_permission a addr = (Some r, a')"
  shows "alloc_inv a'"
proof -
  note m = add_permission_maps [OF assms(3)]
  have "chans a' = chans a" by (simp add: chans_def m(3))
  moreover have "\<not> addr_eq_no_port (Some (pi_addr i)) (Some addr)" if "perms a r = Some i" for r i
    using that assms(1,2) get_permission_None by blast
  ultimately show ?thesis
    using assms(1) m perms_ok_add [of "perms a" r addr] chans_ok_add [of "perms a" "chans a" r addr]
    by (simp add: alloc_inv_def)
qed

lemma alloc_inv_clean:
  assumes "alloc_inv a"
  shows "alloc_inv (turn_permission_clean a r)"
proof (cases "perms a r")
  case None
  then have "\<not> pi_allocated (permission_at a r)"
    by (auto simp: perms_def live_def permission_at_def split: option.splits if_splits)
  then show ?thesis using assms by (simp add: turn_permission_clean_def)
next
  case (Some i)
  then show ?thesis
    using assms turn_permission_clean_maps [OF assms Some] perms_ok_remove chans_ok_remove_permission
    by (simp add: alloc_inv_def)
qed

lemma turn_channel_delete_maps:
  assumes inv: "alloc_inv a" and c: "chans a c = Some ch"
  obtains p i m where "ch_owner ch = Some p" "perms a p = Some i" "lm_inv m"
    "\<forall>x. x \<noteq> 0 \<longrightarrow> lm_map_get m x = (if ucast (ch_port ch) = x then None else lm_map_get (pi_chns i) x)"
    "perms (turn_channel_delete a c) = (perms a)(p \<mapsto> i\<lparr>pi_chns := m\<rparr>)" "chans (turn_channel_delete a c) = (chans a)(c := None)"
proof -
  have ok: "chans_ok (perms a) (chans a)" using inv by (simp add: alloc_inv_def)
  note d = chans_okD [OF ok c]
  then obtain p i where p: "ch_owner ch = Some p" "perms a p = Some i" by (auto simp: owned_def)
  define m where "m = snd (snd (lm_map_del (pi_chns i) (ucast (ch_port ch))))"
  have nz: "(ucast (ch_port ch) :: u64) \<noteq> 0" using d unfolding ucast_port_zero by blast
  have "lm_inv (pi_chns i)" using inv p(2) by (auto simp: alloc_inv_def dest: perms_okD)
  then have m: "lm_inv m" "\<forall>x. x \<noteq> 0 \<longrightarrow> lm_map_get m x = (if ucast (ch_port ch) = x then None else lm_map_get (pi_chns i) x)"
    using lm_del_law [of "pi_chns i" "ucast (ch_port ch)"] nz unfolding m_def by blast+
  have e: "turn_channel_delete a c = ch_info_clean (put_permission a p (i\<lparr>pi_chns := m\<rparr>)) c"
    using chans_at [OF c] perms_at [OF p(2)] p d
    by (simp add: turn_channel_delete_def delete_channel_info_from_allocation_map_def m_def)
  have "perms (turn_channel_delete a c) = (perms a)(p \<mapsto> i\<lparr>pi_chns := m\<rparr>)" "chans (turn_channel_delete a c) = (chans a)(c := None)"
    using p(2) perms_at [OF p(2)] by (simp_all add: e put_permission_maps)
  then show ?thesis using that p m by blast
qed

lemma alloc_inv_delete:
  assumes inv: "alloc_inv a" and c: "chans a c = Some ch"
  shows "alloc_inv (turn_channel_delete a c)"
proof -
  obtain p i m where d: "ch_owner ch = Some p" "perms a p = Some i" "lm_inv m"
    "\<forall>x. x \<noteq> 0 \<longrightarrow> lm_map_get m x = (if ucast (ch_port ch) = x then None else lm_map_get (pi_chns i) x)"
    "perms (turn_channel_delete a c) = (perms a)(p \<mapsto> i\<lparr>pi_chns := m\<rparr>)" "chans (turn_channel_delete a c) = (chans a)(c := None)"
    by (rule turn_channel_delete_maps [OF inv c])
  have ok: "perms_ok (perms a)" "chans_ok (perms a) (chans a)" using inv by (simp_all add: alloc_inv_def)
  show ?thesis
    using perms_ok_update [OF ok(1) d(2), of "i\<lparr>pi_chns := m\<rparr>"] perms_okD [OF ok(1) d(2)]
      chans_ok_remove_channel [OF ok(2) c d(1,2,4)] d(3,5,6) by (simp add: alloc_inv_def)
qed

lemma ch_map_new_maps:
  assumes "ch_map_new t n = (r, t')"
  shows "live ch_allocated t' = live ch_allocated t" "slot_at t' r \<noteq> None" "live ch_allocated t r = None" "fst r = channel_index n"
proof -
  let ?b = "channel_index n"
  consider "free_slot ch_allocated t ?b = Some r" "t' = t"
    | "r = (?b, length (slots (t ?b)))" "t' = t(?b := add_slot (t ?b) zero_ch_info)"
    using assms unfolding ch_map_new_def Let_def
    by (cases "free_slot ch_allocated t ?b") (metis Pair_inject option.simps(4,5))+
  then have "live ch_allocated t' = live ch_allocated t \<and> slot_at t' r \<noteq> None \<and> live ch_allocated t r = None \<and> fst r = ?b"
  proof cases
    case 1
    then show ?thesis using free_slot_Some [OF 1(1)] by blast
  next
    case 2
    have n: "live ch_allocated t r = None" unfolding 2(1) live_def by (simp add: new_slot_free)
    have "live ch_allocated t' = (live ch_allocated t)(r := None)"
      unfolding 2(2) live_add_slot by (simp only: 2(1) zero_not_allocated if_False)
    also have "\<dots> = live ch_allocated t" using n by (simp add: fun_upd_idem)
    moreover have "slot_at t' r = Some zero_ch_info" unfolding 2 slot_at_add_slot by simp
    moreover have "fst r = ?b" by (simp only: 2(1) fst_conv)
    ultimately show ?thesis using n by simp
  qed
  then show "live ch_allocated t' = live ch_allocated t" "slot_at t' r \<noteq> None" "live ch_allocated t r = None"
    "fst r = channel_index n" by auto
qed

lemma bind_channel_maps:
  assumes p: "perms a p = Some i"
  obtains c ch a' where "bind_channel a p n addr = (Some c, a')" "chans a c = None" "fst c = channel_index n"
    "chnum ch = n" "ch_port ch = addr_get_port (Some addr)" "peer_addr ch = addr" "ch_owner ch = Some p"
    "chans a' = (chans a)(c \<mapsto> ch)"
    "perms a' = (perms a)(p \<mapsto> i\<lparr>pi_chns := snd (lm_map_put (pi_chns i) (ucast (addr_get_port (Some addr))) (Some c))\<rparr>)"
proof -
  obtain c t where t: "ch_map_new (chns a) n = (c, t)" by fastforce
  note m = ch_map_new_maps [OF t]
  define b where "b = a\<lparr>chns := t\<rparr>"
  define ch where "ch = (channel_at b c)\<lparr>ch_allocated := True, chnum := n, ch_port := addr_get_port (Some addr),
    peer_addr := addr, ch_owner := Some p\<rparr>"
  define j where "j = i\<lparr>pi_chns := snd (lm_map_put (pi_chns i) (ucast (addr_get_port (Some addr))) (Some c))\<rparr>"
  have b: "perms b = perms a" "chans b = chans a" "permission_at b p = i" "slot_at (chns b) c \<noteq> None"
    using m perms_at [OF p] by (simp_all add: b_def perms_def chans_def permission_at_def)
  have "bind_channel a p n addr = (Some c, put_permission (put_channel b c ch) p j)"
    using t b(3) by (simp add: bind_channel_def ch_map_get_def Let_def j_def ch_def flip: b_def)
  moreover have "chans (put_permission (put_channel b c ch) p j) = (chans a)(c \<mapsto> ch)"
    using b by (simp add: put_channel_maps ch_def)
  moreover have "perms (put_permission (put_channel b c ch) p j) = (perms a)(p \<mapsto> j)"
    using p b(1) perms_at [OF p] put_permission_maps(1) [of "put_channel b c ch" p j]
    by (simp add: put_channel_maps(2) j_def)
  ultimately show ?thesis
    using that [of c _ ch] m by (simp add: j_def ch_def chans_def)
qed

lemma get_by_peer_iff:
  assumes inv: "alloc_inv a" and port: "addr_get_port (Some addr) \<noteq> 0"
  shows "allocation_get_ch_info_by_peer_addr a addr = Some c \<longleftrightarrow>
    (\<exists>r i. perms a r = Some i \<and> addr_eq_no_port (Some (pi_addr i)) (Some addr) \<and>
       lm_map_get (pi_chns i) (ucast (addr_get_port (Some addr))) = Some (Some c))"
proof -
  have nz: "(ucast (addr_get_port (Some addr)) :: u64) \<noteq> 0" using port by simp
  have ok: "chans_ok (perms a) (chans a)" using inv by (simp add: alloc_inv_def)
  have v: "STUN_VALID_CHANNEL (chnum (channel_at a d))"
    if p: "perms a r = Some i" "lm_map_get (pi_chns i) (ucast (addr_get_port (Some addr))) = Some (Some d)" for r i d
  proof -
    obtain ch where "chans a d = Some ch" using chans_ok_port [OF ok p(1) nz p(2)] by auto
    then show ?thesis using chans_okD [OF ok] chans_at by metis
  qed
  have g: "get_turn_channel a r addr = Some c \<longleftrightarrow> lm_map_get (pi_chns i) (ucast (addr_get_port (Some addr))) = Some (Some c)"
    if p: "perms a r = Some i" for r i
    using v [OF p] perms_at [OF p] by (auto simp: get_turn_channel_def split: option.splits)
  show ?thesis
  proof (cases "allocation_get_permission a addr")
    case None
    then show ?thesis using get_permission_None [OF inv, of addr] by (auto simp: allocation_get_ch_info_by_peer_addr_def)
  next
    case (Some r)
    then obtain i where i: "perms a r = Some i" "addr_eq_no_port (Some (pi_addr i)) (Some addr)"
      using get_permission_iff [OF inv] by blast
    have u: "r' = r" if "perms a r' = Some i'" "addr_eq_no_port (Some (pi_addr i')) (Some addr)" for r' i'
    proof -
      have "allocation_get_permission a addr = Some r'" using that get_permission_iff [OF inv] by blast
      then show ?thesis using Some by simp
    qed
    have "allocation_get_ch_info_by_peer_addr a addr = Some c \<longleftrightarrow>
        lm_map_get (pi_chns i) (ucast (addr_get_port (Some addr))) = Some (Some c)"
      using g [OF i(1)] Some by (simp add: allocation_get_ch_info_by_peer_addr_def)
    also have "\<dots> \<longleftrightarrow> (\<exists>r i. perms a r = Some i \<and> addr_eq_no_port (Some (pi_addr i)) (Some addr) \<and>
       lm_map_get (pi_chns i) (ucast (addr_get_port (Some addr))) = Some (Some c))" (is "?l \<longleftrightarrow> ?r")
    proof
      assume ?l
      then show ?r using i by blast
    next
      assume ?r
      then obtain r' i' where "perms a r' = Some i'" "addr_eq_no_port (Some (pi_addr i')) (Some addr)"
        "lm_map_get (pi_chns i') (ucast (addr_get_port (Some addr))) = Some (Some c)" by blast
      then show ?l using u i(1) by fastforce
    qed
    finally show ?thesis .
  qed
qed

text \<open>Binding a channel: the channel is found by its number and by its peer, and the invariant is kept.\<close>

lemma bind_channel_inv:
  assumes inv: "alloc_inv a" and p: "perms a p = Some i" "addr_eq_no_port (Some (pi_addr i)) (Some addr)"
    and n: "STUN_VALID_CHANNEL n" "allocation_get_ch_info a n = None"
    and port: "addr_get_port (Some addr) \<noteq> 0" and free: "lm_map_get (pi_chns i) (ucast (addr_get_port (Some addr))) = None"
    and b: "bind_channel a p n addr = (r, a')"
  obtains c ch where "r = Some c" "alloc_inv a'" "chans a c = None" "chans a' = (chans a)(c \<mapsto> ch)" "chnum ch = n" "peer_addr ch = addr"
    "ch_owner ch = Some p" "\<And>q. map_option pi_addr (perms a' q) = map_option pi_addr (perms a q)"
proof -
  obtain c ch a'' where bm: "bind_channel a p n addr = (Some c, a'')" "chans a c = None" "fst c = channel_index n"
    "chnum ch = n" "ch_port ch = addr_get_port (Some addr)" "peer_addr ch = addr" "ch_owner ch = Some p"
    "chans a'' = (chans a)(c \<mapsto> ch)"
    "perms a'' = (perms a)(p \<mapsto> i\<lparr>pi_chns := snd (lm_map_put (pi_chns i) (ucast (addr_get_port (Some addr))) (Some c))\<rparr>)"
    by (rule bind_channel_maps [OF p(1)])
  then have a: "r = Some c" "a'' = a'" using b by simp_all
  have ok: "perms_ok (perms a)" "chans_ok (perms a) (chans a)" using inv by (simp_all add: alloc_inv_def)
  define m where "m = snd (lm_map_put (pi_chns i) (ucast (addr_get_port (Some addr))) (Some c))"
  have nz: "(ucast (addr_get_port (Some addr)) :: u64) \<noteq> 0" using port by simp
  have m: "lm_inv m" "\<forall>x. x \<noteq> 0 \<longrightarrow> lm_map_get m x = (if ucast (addr_get_port (Some addr)) = x then Some (Some c) else lm_map_get (pi_chns i) x)"
    using lm_put_law [OF _ nz _ free, of "Some c"] perms_okD [OF ok(1) p(1)] unfolding m_def by auto
  have new: "chnum ch' \<noteq> n" if "chans a c' = Some ch'" for c' ch'
    using that n(2) get_ch_info_iff [OF inv, of n c'] by auto
  have "chans_ok ((perms a)(p \<mapsto> i\<lparr>pi_chns := m\<rparr>)) ((chans a)(c \<mapsto> ch))"
    by (rule chans_ok_bind [OF ok(2) bm(2)]) (use bm p n port free m(2) new in simp_all)
  moreover have "perms_ok ((perms a)(p \<mapsto> i\<lparr>pi_chns := m\<rparr>))"
    using perms_ok_update [OF ok(1) p(1), of "i\<lparr>pi_chns := m\<rparr>"] perms_okD [OF ok(1) p(1)] m(1) by simp
  ultimately have "alloc_inv a'" using bm(8,9) by (simp add: alloc_inv_def m_def a)
  moreover have "map_option pi_addr (perms a' q) = map_option pi_addr (perms a q)" for q
    using bm(9) p(1) by (simp add: a(2))
  ultimately show ?thesis using that a bm by blast
qed

lemma get_new_ch_info_inv:
  assumes inv: "alloc_inv a" and addr: "addr_key_ok addr" "addr_get_port (Some addr) \<noteq> 0"
    and n: "STUN_VALID_CHANNEL n" "allocation_get_ch_info a n = None"
    and free: "allocation_get_ch_info_by_peer_addr a addr = None"
    and r: "allocation_get_new_ch_info a n addr = (r, a')"
  shows "r = None \<and> a' = a \<and> allocation_get_permission a addr = None \<and>
      allocation_count_permissions (addr_to_perm a) \<ge> TURN_MAX_PERMISSIONS_PER_ALLOCATION \<or>
    (\<exists>c ch p i. r = Some c \<and> alloc_inv a' \<and> chans a c = None \<and> chans a' = (chans a)(c \<mapsto> ch) \<and> chnum ch = n \<and> peer_addr ch = addr \<and>
       ch_owner ch = Some p \<and> perms a' p = Some i \<and> addr_eq_no_port (Some (pi_addr i)) (Some addr) \<and>
       (\<forall>q j. perms a' q = Some j \<longrightarrow> pi_addr j = addr \<or> map_option pi_addr (perms a q) = Some (pi_addr j)))"
proof (cases "allocation_get_permission a addr")
  case (Some p)
  then obtain i where i: "perms a p = Some i" "addr_eq_no_port (Some (pi_addr i)) (Some addr)"
    using get_permission_iff [OF inv] by blast
  have ok: "chans_ok (perms a) (chans a)" using inv by (simp add: alloc_inv_def)
  have nz: "(ucast (addr_get_port (Some addr)) :: u64) \<noteq> 0" using addr by simp
  have "lm_map_get (pi_chns i) (ucast (addr_get_port (Some addr))) = None"
  proof (rule ccontr)
    assume "\<not> ?thesis"
    then obtain v where v: "lm_map_get (pi_chns i) (ucast (addr_get_port (Some addr))) = Some v" by auto
    then obtain d where "v = Some d" using chans_ok_port [OF ok i(1) nz] by blast
    then show False using free get_by_peer_iff [OF inv addr(2), of d] i v by auto
  qed
  moreover have b: "bind_channel a p n addr = (r, a')" using r Some by (simp add: allocation_get_new_ch_info_def)
  ultimately obtain c ch where o: "r = Some c" "alloc_inv a'" "chans a c = None" "chans a' = (chans a)(c \<mapsto> ch)" "chnum ch = n" "peer_addr ch = addr"
    "ch_owner ch = Some p" "\<And>q. map_option pi_addr (perms a' q) = map_option pi_addr (perms a q)"
    using bind_channel_inv [OF inv i n addr(2)] by metis
  obtain j where "perms a' p = Some j" "pi_addr j = pi_addr i" using o(8) [of p] i(1) by auto
  moreover have "\<forall>q j. perms a' q = Some j \<longrightarrow> pi_addr j = addr \<or> map_option pi_addr (perms a q) = Some (pi_addr j)"
    using o(8) by (metis option.simps(9))
  ultimately show ?thesis using o(1-7) i(2) by auto
next
  case None
  show ?thesis
  proof (cases "fst (allocation_add_permission a addr)")
    case N: None
    then obtain b where "allocation_add_permission a addr = (None, b)" by (cases "allocation_add_permission a addr") auto
    moreover from this have "b = a" "allocation_count_permissions (addr_to_perm a) \<ge> TURN_MAX_PERMISSIONS_PER_ALLOCATION"
      by (auto simp: allocation_add_permission_def Let_def split: option.splits if_splits)
    ultimately show ?thesis using r None by (simp add: allocation_get_new_ch_info_def)
  next
    case (Some p)
    then obtain b where add: "allocation_add_permission a addr = (Some p, b)" by (cases "allocation_add_permission a addr") auto
    note m = add_permission_maps [OF add]
    have invb: "alloc_inv b" by (rule alloc_inv_add_permission [OF inv None add])
    let ?i = "new_permission_info addr"
    have i: "perms b p = Some ?i" "addr_eq_no_port (Some (pi_addr ?i)) (Some addr)"
      using m(2) addr(1) by (auto simp: new_permission_info_def addr_key_ok_def addr_eq_no_port_refl_iff)
    have "allocation_get_ch_info b n = None" using n(2) m(3) by (simp add: allocation_get_ch_info_def)
    moreover have "lm_map_get (pi_chns ?i) (ucast (addr_get_port (Some addr))) = None"
      by (simp add: new_permission_info_def zero_permission_info_def lm_get_init)
    moreover have "bind_channel b p n addr = (r, a')" using r None add by (simp add: allocation_get_new_ch_info_def)
    ultimately obtain c ch where o: "r = Some c" "alloc_inv a'" "chans b c = None" "chans a' = (chans b)(c \<mapsto> ch)" "chnum ch = n" "peer_addr ch = addr"
      "ch_owner ch = Some p" "\<And>q. map_option pi_addr (perms a' q) = map_option pi_addr (perms b q)"
      using bind_channel_inv [OF invb i n(1) _ addr(2)] by metis
    have "chans b = chans a" using m(3) by (simp add: chans_def)
    moreover obtain j where "perms a' p = Some j" "pi_addr j = addr" using o(8) [of p] i(1) by (auto simp: new_permission_info_def)
    moreover have "\<forall>q j. perms a' q = Some j \<longrightarrow> pi_addr j = addr \<or> map_option pi_addr (perms a q) = Some (pi_addr j)"
    proof (intro allI impI)
      fix q j
      assume "perms a' q = Some j"
      then have "map_option pi_addr (perms b q) = Some (pi_addr j)" using o(8) [of q] by simp
      then show "pi_addr j = addr \<or> map_option pi_addr (perms a q) = Some (pi_addr j)"
        by (cases "q = p") (simp_all add: m(2) new_permission_info_def)
    qed
    ultimately show ?thesis using o(1-7) i(2) by (auto simp: new_permission_info_def)
  qed
qed

text \<open>Updates that keep the addresses, the owners and the numbers.\<close>

lemma perms_eq: "perms a r = (if pi_allocated (permission_at a r) then Some (permission_at a r) else None)"
  by (auto simp: perms_def live_def permission_at_def split: option.splits)

lemma chans_eq: "chans a c = (if ch_allocated (channel_at a c) then Some (channel_at a c) else None)"
  by (auto simp: chans_def live_def channel_at_def split: option.splits)

lemma alloc_inv_put_permission:
  assumes inv: "alloc_inv a" and r: "perms a r = Some i"
    and j: "pi_allocated j" "pi_addr j = pi_addr i" "pi_chns j = pi_chns i" "pi_owner j"
  shows "alloc_inv (put_permission a r j)"
proof -
  have ok: "perms_ok (perms a)" "chans_ok (perms a) (chans a)" using inv by (simp_all add: alloc_inv_def)
  have p: "perms (put_permission a r j) = (perms a)(r \<mapsto> j)" using r j(1) by (simp add: put_permission_maps)
  have "owned ((perms a)(r \<mapsto> j)) c ch" if "owned (perms a) c ch" for c ch
    using that r j unfolding owned_def by (auto split: if_splits)
  then have "chans_ok ((perms a)(r \<mapsto> j)) (chans a)"
    using chans_okD [OF ok(2)] chans_ok_unique [OF ok(2)] chans_ok_port [OF ok(2)] r j(3)
    by (intro chans_okI) (blast | auto split: if_splits)+
  moreover have "perms_ok ((perms a)(r \<mapsto> j))"
    using perms_ok_update [OF ok(1) r, of j] perms_okD [OF ok(1) r] j by simp
  ultimately show ?thesis by (simp add: alloc_inv_def p)
qed

lemma alloc_inv_put_channel:
  assumes inv: "alloc_inv a" and c: "chans a c = Some ch"
    and d: "ch_allocated d" "chnum d = chnum ch" "ch_port d = ch_port ch" "peer_addr d = peer_addr ch" "ch_owner d = ch_owner ch"
  shows "alloc_inv (put_channel a c d)"
proof -
  have ok: "perms_ok (perms a)" "chans_ok (perms a) (chans a)" using inv by (simp_all add: alloc_inv_def)
  have p: "chans (put_channel a c d) = (chans a)(c \<mapsto> d)" using chans_at [OF c] d(1) by (simp add: put_channel_maps)
  have o: "owned (perms a) c d = owned (perms a) c ch" using d by (simp add: owned_def)
  have "chans_ok (perms a) ((chans a)(c \<mapsto> d))"
  proof (rule chans_okI)
    fix c' ch'
    assume "((chans a)(c \<mapsto> d)) c' = Some ch'"
    then show "fst c' = channel_index (chnum ch') \<and> STUN_VALID_CHANNEL (chnum ch') \<and>
      ch_port ch' = addr_get_port (Some (peer_addr ch')) \<and> ch_port ch' \<noteq> 0 \<and> owned (perms a) c' ch'"
      using chans_okD [OF ok(2), of c' ch'] chans_okD [OF ok(2) c] d o by (cases "c' = c") auto
  next
    fix c1 c2 ch1 ch2
    assume "((chans a)(c \<mapsto> d)) c1 = Some ch1" "((chans a)(c \<mapsto> d)) c2 = Some ch2" "chnum ch1 = chnum ch2"
    then show "c1 = c2"
      using chans_ok_unique [OF ok(2) c, of c2 ch2] chans_ok_unique [OF ok(2) c, of c1 ch1]
        chans_ok_unique [OF ok(2), of c1 ch1 c2 ch2] d(2) by (auto split: if_splits)
  next
    fix r i k v
    assume "perms a r = Some i" "k \<noteq> 0" "lm_map_get (pi_chns i) k = Some v"
    then show "\<exists>c' ch'. v = Some c' \<and> ((chans a)(c \<mapsto> d)) c' = Some ch' \<and> ch_owner ch' = Some r \<and> k = ucast (ch_port ch')"
      using chans_ok_port [OF ok(2), of r i k v] c d by auto
  qed
  then show ?thesis using ok(1) by (simp add: alloc_inv_def p put_channel_maps(2))
qed

end
