(* ===== verification/Turn_Peers.thy ===== *)
theory Turn_Peers
  imports Ioaddr C_String
begin

text \<open>
  The check of peer addresses (good_peer_addr of ns_turn_server.c).  The lists of allowed and
  denied ranges are those of the server and those of the engine, which come from the database.
  A realm is a C string given by its characters; a list that the server does not have is None.
\<close>

record ip_range =
  ir_realm :: "u8 list"
  ir_enc :: ioa_addr_range

record peer_config =
  no_multicast_peers :: bool
  allow_loopback_peers :: bool
  ip_whitelist :: "ip_range list option"
  e_whitelist :: "ip_range list option"
  ip_blacklist :: "ip_range list option"
  e_blacklist :: "ip_range list option"

text \<open>The macro CHECK_REALM skips a range.\<close>

definition CHECK_REALM :: "u8 list \<Rightarrow> u8 list option \<Rightarrow> bool" where
  "CHECK_REALM r realm = (case realm of None \<Rightarrow> False | Some rl \<Rightarrow> r \<noteq> [] \<and> rl \<noteq> [] \<and> r \<noteq> rl)"

text \<open>The loops over a list of ranges, from the last one to the first.\<close>

definition in_some_range :: "ip_range list option \<Rightarrow> u8 list option \<Rightarrow> ioa_addr \<Rightarrow> bool" where
  "in_some_range l realm peer =
     (case l of
        None \<Rightarrow> False
      | Some rs \<Rightarrow> list_ex (\<lambda>r. \<not> CHECK_REALM (ir_realm r) realm \<and> ioa_addr_in_range (Some (ir_enc r)) (Some peer)) (rev rs))"

definition good_peer_addr :: "peer_config \<Rightarrow> u8 list option \<Rightarrow> ioa_addr \<Rightarrow> bool" where
  "good_peer_addr sv realm peer =
     (if no_multicast_peers sv \<and> ioa_addr_is_multicast (Some peer) then False
      else if \<not> allow_loopback_peers sv \<and> ioa_addr_is_loopback (Some peer) then False
      else if ioa_addr_is_zero (Some peer) then False
      else if in_some_range (ip_whitelist sv) realm peer then True
      else if in_some_range (e_whitelist sv) realm peer then True
      else if in_some_range (ip_blacklist sv) realm peer then False
      else if in_some_range (e_blacklist sv) realm peer then False
      else True)"

section \<open>The check ignores the port\<close>

lemma addr_eq_no_port_fields:
  "addr_eq_no_port (Some a) (Some b) \<Longrightarrow> sa_family a = sa_family b \<and>
     (sa_family a = AF_INET \<and> s_addr a = s_addr b \<or> sa_family a = AF_INET6 \<and> sin6_addr a = sin6_addr b)"
  by (auto split: if_splits)

lemma addr_less_eq_no_port:
  assumes "addr_eq_no_port (Some a) (Some b)"
  shows "addr_less_eq (Some a) (Some c) = addr_less_eq (Some b) (Some c)"
    "addr_less_eq (Some c) (Some a) = addr_less_eq (Some c) (Some b)"
  using addr_eq_no_port_fields [OF assms] by auto

lemma ioa_addr_in_range_no_port:
  assumes "addr_eq_no_port (Some a) (Some b)"
  shows "ioa_addr_in_range (Some r) (Some a) = ioa_addr_in_range (Some r) (Some b)"
proof -
  let ?mapped = "\<lambda>x. sa_family x = AF_INET6 \<and>
    (if sa_family (range_min r) = 0 then sa_family (range_max r) else sa_family (range_min r)) = AF_INET \<and> v4mapped (sin6_addr x)"
  have eq: "sa_family a = sa_family b" "sa_family b = AF_INET6 \<Longrightarrow> sin6_addr a = sin6_addr b"
    using addr_eq_no_port_fields [OF assms] by auto
  show ?thesis
  proof (cases "?mapped b")
    case True
    then show ?thesis using eq by (simp add: Let_def)
  next
    case False
    have e: "ioa_addr_in_range (Some r) (Some x) =
        ((addr_any (Some (range_min r)) \<or> addr_less_eq (Some (range_min r)) (Some x)) \<and>
         (addr_any (Some (range_max r)) \<or> addr_less_eq (Some x) (Some (range_max r))))" if "\<not> ?mapped x" for x
    proof -
      have "(if sa_family x = AF_INET6
             then if (if sa_family (range_min r) = 0 then sa_family (range_max r) else sa_family (range_min r)) = AF_INET \<and>
                    v4mapped (sin6_addr x) then y else x else x) = x" for y
        using that by (cases "sa_family x = AF_INET6") auto
      then show ?thesis unfolding ioa_addr_in_range.simps Let_def by (simp del: addr_less_eq.simps addr_any.simps)
    qed
    have "\<not> ?mapped a" using False eq by auto
    then show ?thesis unfolding e [OF False] addr_less_eq_no_port [OF assms, symmetric] by (rule e)
  qed
qed

lemma in_some_range_no_port:
  "addr_eq_no_port (Some a) (Some b) \<Longrightarrow> in_some_range l realm a = in_some_range l realm b"
  by (simp only: in_some_range_def ioa_addr_in_range_no_port)

lemma classes_no_port:
  assumes "addr_eq_no_port (Some a) (Some b)"
  shows "ioa_addr_is_multicast (Some a) = ioa_addr_is_multicast (Some b)"
    "ioa_addr_is_loopback (Some a) = ioa_addr_is_loopback (Some b)"
    "ioa_addr_is_zero (Some a) = ioa_addr_is_zero (Some b)"
  using addr_eq_no_port_fields [OF assms] by auto

lemma good_peer_no_port:
  assumes "addr_eq_no_port (Some a) (Some b)"
  shows "good_peer_addr sv realm a = good_peer_addr sv realm b"
  unfolding good_peer_addr_def classes_no_port [OF assms] in_some_range_no_port [OF assms] ..

text \<open>What the check enforces: a peer that passes is not a loopback address unless these are
  allowed, not a multicast address if these are denied, not an all-zero address, and if a range
  of a denied list holds it then a range of an allowed list holds it too.\<close>

lemma good_peer_iff:
  "good_peer_addr sv realm peer \<longleftrightarrow>
     (no_multicast_peers sv \<longrightarrow> \<not> ioa_addr_is_multicast (Some peer)) \<and>
     (\<not> allow_loopback_peers sv \<longrightarrow> \<not> ioa_addr_is_loopback (Some peer)) \<and> \<not> ioa_addr_is_zero (Some peer) \<and>
     (in_some_range (ip_blacklist sv) realm peer \<or> in_some_range (e_blacklist sv) realm peer \<longrightarrow>
      in_some_range (ip_whitelist sv) realm peer \<or> in_some_range (e_whitelist sv) realm peer)"
  by (simp add: good_peer_addr_def)

text \<open>C13: A peer address that is an IPv4 address written as IPv4-mapped IPv6 passes the check
  exactly when the IPv4 address does, if all ranges are IPv4 ranges and the address is not
  in 0.0.0.0/8.\<close>

theorem good_peer_v4mapped:
  assumes "sa_family a = AF_INET" "\<not> ioa_addr_is_zero (Some a)"
    and "\<forall>l\<in>{ip_whitelist sv, e_whitelist sv, ip_blacklist sv, e_blacklist sv}.
      \<forall>rs. l = Some rs \<longrightarrow> (\<forall>r\<in>set rs. sa_family (range_min (ir_enc r)) = AF_INET)"
  shows "good_peer_addr sv realm (v4map a) = good_peer_addr sv realm a"
proof -
  have fam: "sa_family (v4map a) = AF_INET6" by (simp add: v4map_def)
  have nz: "\<not> ioa_addr_is_zero (Some (v4map a))"
    using assms(1,2) fam v4mapped_v4map [of a] v4map_bytes(1) [of a] by (simp add: Let_def)
  have cl: "ioa_addr_is_loopback (Some (v4map a)) = ioa_addr_is_loopback (Some a)"
    "ioa_addr_is_multicast (Some (v4map a)) = ioa_addr_is_multicast (Some a)"
    using assms(1) fam v4mapped_v4map [of a] v4map_bytes(1) [of a] by (simp_all add: Let_def)
  have rg: "ioa_addr_in_range (Some r) (Some (v4map a)) = ioa_addr_in_range (Some r) (Some a)"
    if "sa_family (range_min r) = AF_INET" for r
  proof -
    have "host32 (sin6_addr (v4map a) ! 12) (sin6_addr (v4map a) ! 13)
        (sin6_addr (v4map a) ! 14) (sin6_addr (v4map a) ! 15) = s_addr a"
      by (simp only: v4map_bytes) (simp add: bytes32_def numeral_3_eq_3)
    then show ?thesis using that assms(1) fam v4mapped_v4map [of a] by (simp add: Let_def)
  qed
  have "in_some_range l realm (v4map a) = in_some_range l realm a"
    if "l \<in> {ip_whitelist sv, e_whitelist sv, ip_blacklist sv, e_blacklist sv}" for l
  proof (cases l)
    case (Some rs)
    then have "\<forall>r\<in>set rs. sa_family (range_min (ir_enc r)) = AF_INET" using that assms(3) by blast
    then show ?thesis using rg unfolding in_some_range_def Some by (auto simp: list_ex_iff simp del: ioa_addr_in_range.simps)
  qed (simp add: in_some_range_def)
  then show ?thesis unfolding good_peer_addr_def cl using nz assms(2) by (simp del: ioa_addr_is_zero.simps ioa_addr_is_loopback.simps ioa_addr_is_multicast.simps)
qed

text \<open>A server that denies 10.0.0.0/8.\<close>

definition sample_config :: peer_config where
  "sample_config = \<lparr>no_multicast_peers = True, allow_loopback_peers = False, ip_whitelist = None, e_whitelist = None,
     ip_blacklist = Some [\<lparr>ir_realm = [], ir_enc = \<lparr>range_min = addr_set_any\<lparr>sa_family := AF_INET, s_addr := 0x0000000a\<rparr>,
       range_max = addr_set_any\<lparr>sa_family := AF_INET, s_addr := 0xffffff0a\<rparr>\<rparr>\<rparr>], e_blacklist = None\<rparr>"

text \<open>10.1.2.3 is denied in both forms.\<close>

theorem good_peer_v4mapped_witness:
  "\<not> good_peer_addr sample_config None (v4map (addr_set_any\<lparr>sa_family := AF_INET, s_addr := 0x0302010a\<rparr>))"
proof -
  let ?a = "addr_set_any\<lparr>sa_family := AF_INET, s_addr := 0x0302010a\<rparr>"
  have "\<not> good_peer_addr sample_config None ?a"
    by (simp add: good_peer_addr_def sample_config_def in_some_range_def CHECK_REALM_def Let_def nswap32_def host32_def bytes32_def)
  moreover have "\<not> ioa_addr_is_zero (Some ?a)" by (simp add: bytes32_def)
  ultimately show ?thesis
    using good_peer_v4mapped [of ?a sample_config None]
    by (simp add: sample_config_def del: ioa_addr_is_zero.simps)
qed

end
