(* ===== verification/Turn_Session.thy ===== *)
theory Turn_Session
  imports Turn_Allocation Turn_Peers Net_Buffer Stun_Build Stun_Integrity Stun_Attrs
begin

text \<open>
  Sessions of the server and the handlers that install permissions and channels
  (ns_turn_server.c): the lifetimes and the sweep of expired permissions and channels, and the
  handlers of CreatePermission and ChannelBind requests.  A handler works on a session and on the
  variables that handle_turn_command passes to it, and returns them updated; None stands for an
  access outside the message buffer.

  The engine, which owns sockets, timers and the table of multiplexed peers, is represented by the
  functions of the record engine.  The lists of the server configuration do not change during a
  run, only its clock does.
\<close>

declare split_paired_All [simp del] split_paired_Ex [simp del]

declare addr_eq_no_port.simps [simp del] addr_hash_no_port.simps [simp del] addr_get_port.simps [simp del]
  addr_eq.simps [simp del]

datatype SOCKET_TYPE = UNKNOWN_SOCKET | TCP_SOCKET | UDP_SOCKET | TLS_SOCKET | SCTP_SOCKET | TLS_SCTP_SOCKET |
  DTLS_SOCKET | TCP_SOCKET_PROXY | TENTATIVE_SCTP_SOCKET | TENTATIVE_TCP_SOCKET

record engine =
  sock_type :: "ioa_socket_handle \<Rightarrow> SOCKET_TYPE"
  sock_family :: "ioa_socket_handle \<Rightarrow> u16"
  tobeclosed :: "ioa_socket_handle \<Rightarrow> bool"
  local_addr :: "ioa_socket_handle \<Rightarrow> ioa_addr option"
  send_result :: "ioa_socket_handle \<Rightarrow> ioa_addr option \<Rightarrow> u8 list \<Rightarrow> int \<times> bool"
  mp_get_socket :: "u16 \<Rightarrow> ioa_socket_handle option"
  mp_register_peer :: "ioa_addr \<Rightarrow> int"

record turn_turnserver =
  peers :: peer_config
  ctime :: turn_time_t
  permission_lifetime :: int
  channel_lifetime :: int
  stale_nonce :: int
  srv_verbose :: bool
  srv_ct :: turn_credential_type
  fingerprint :: bool
  dont_fragment :: bool
  server_relay :: bool
  multiplex_peer_mode :: bool
  software_attribute :: bool
  include_reason_string :: bool
  mobility :: bool
  secure_stun :: bool
  stun_only :: bool
  no_stun :: bool
  srv_oauth :: bool
  oauth_server_name :: "u8 list"
  check_origin :: bool
  alternate_servers_list :: "ioa_addr list"
  tls_alternate_servers_list :: "ioa_addr list"
  aux_servers_list :: "ioa_addr list"
  self_udp_balance :: bool

text \<open>The traffic counters of a session since the last report, their totals and the rates.\<close>

record session_usage =
  received_packets :: u32
  sent_packets :: u32
  received_bytes :: u32
  sent_bytes :: u32
  peer_received_packets :: u32
  peer_sent_packets :: u32
  peer_received_bytes :: u32
  peer_sent_bytes :: u32

record session_totals =
  t_received_packets :: u64
  t_sent_packets :: u64
  t_received_bytes :: u64
  t_sent_bytes :: u64
  t_peer_received_packets :: u32
  t_peer_sent_packets :: u32
  t_peer_received_bytes :: u32
  t_peer_sent_bytes :: u32

record session_rates =
  received_rate :: u64
  sent_rate :: u64
  total_rate :: u64
  peer_received_rate :: u64
  peer_sent_rate :: u64
  peer_total_rate :: u64

record super_session =
  ss_id :: u64
  start_time :: turn_time_t
  client_socket :: "ioa_socket_handle option"
  alloc :: allocation
  enforce_fingerprints :: bool
  is_tcp_relay :: bool
  to_be_closed :: bool
  nonce :: "u8 list"
  nonce_expiration_time :: turn_time_t
  username :: "u8 list"
  hmackey :: "u8 list"
  hmackey_set :: bool
  pwd :: "u8 list"
  quota_used :: bool
  oauth :: bool
  max_session_time_auth :: turn_time_t
  realm_name :: "u8 list"
  origin_set :: bool
  origin :: "u8 list"
  usage :: session_usage
  totals :: session_totals
  rates :: session_rates
  is_mobile :: bool
  bps :: u64

text \<open>A received packet, and the variables of handle_turn_command.  The response is the content
  and the size of the buffer nbh; ua_num is the length of unknown_attrs.\<close>

record ioa_net_data =
  src_addr :: ioa_addr
  nd_nbh :: stun_buffer
  recv_ttl :: int
  recv_tos :: int

definition nd_data :: "ioa_net_data \<Rightarrow> buffer" where
  "nd_data nd = ioa_network_buffer_data (nd_nbh nd)"

definition nd_size :: "ioa_net_data \<Rightarrow> nat" where
  "nd_size nd = ioa_network_buffer_get_size (nd_nbh nd)"

record handler =
  resp_constructed :: bool
  err_code :: int
  reason :: "u8 list option"
  unknown_attrs :: "u16 list"
  nbh_data :: buffer
  nbh_size :: nat

abbreviation (input) MAX_NUMBER_OF_UNKNOWN_ATTRS :: nat where "MAX_NUMBER_OF_UNKNOWN_ATTRS \<equiv> 128"

section \<open>Lifetimes\<close>

definition update_turn_permission_lifetime ::
    "turn_turnserver \<Rightarrow> super_session \<Rightarrow> slot_ref \<Rightarrow> turn_time_t \<Rightarrow> int \<times> super_session" where
  "update_turn_permission_lifetime server ss r time_delta0 =
     (let tinfo = permission_at (alloc ss) r in
      if \<not> pi_owner tinfo then (- 1, ss)
      else
        (let time_delta = (if time_delta0 = 0 then word_of_int (permission_lifetime server) else time_delta0);
             tinfo = tinfo\<lparr>pi_expiration_time := ctime server + time_delta\<rparr>;
             tinfo = (if srv_verbose server then tinfo\<lparr>pi_verbose := True, pi_session_id := ss_id ss\<rparr> else tinfo)
         in (0, ss\<lparr>alloc := put_permission (alloc ss) r tinfo\<rparr>)))"

definition update_channel_lifetime :: "turn_turnserver \<Rightarrow> super_session \<Rightarrow> slot_ref \<Rightarrow> int \<times> super_session" where
  "update_channel_lifetime server ss c =
     (case ch_owner (channel_at (alloc ss) c) of
        None \<Rightarrow> (- 1, ss)
      | Some r \<Rightarrow>
          if \<not> pi_owner (permission_at (alloc ss) r) then (- 1, ss)
          else
            (case update_turn_permission_lifetime server ss r (word_of_int (channel_lifetime server)) of (rc, ss) \<Rightarrow>
               if rc < 0 then (- 1, ss)
               else (0, ss\<lparr>alloc := put_channel (alloc ss) c
                      ((channel_at (alloc ss) c)\<lparr>ch_expiration_time := ctime server + word_of_int (channel_lifetime server)\<rparr>)\<rparr>)))"

section \<open>The sweep\<close>

definition client_ss_channel_timeout_handler :: "allocation \<Rightarrow> slot_ref \<Rightarrow> allocation" where
  "client_ss_channel_timeout_handler a c = turn_channel_delete a c"

definition client_ss_perm_timeout_handler :: "allocation \<Rightarrow> slot_ref \<Rightarrow> allocation" where
  "client_ss_perm_timeout_handler a r =
     (if \<not> pi_allocated (permission_at a r) then a else turn_permission_clean a r)"

definition sweep_permission :: "turn_time_t \<Rightarrow> slot_ref \<Rightarrow> allocation \<Rightarrow> allocation" where
  "sweep_permission now r a =
     (if pi_allocated (permission_at a r) \<and> turn_time_before (pi_expiration_time (permission_at a r)) now
      then client_ss_perm_timeout_handler a r else a)"

definition sweep_channel :: "turn_time_t \<Rightarrow> slot_ref \<Rightarrow> allocation \<Rightarrow> allocation" where
  "sweep_channel now c a =
     (if ch_allocated (channel_at a c) \<and> turn_time_before (ch_expiration_time (channel_at a c)) now
      then client_ss_channel_timeout_handler a c else a)"

definition sweep_allocation_timed_events :: "turn_time_t \<Rightarrow> allocation \<Rightarrow> allocation" where
  "sweep_allocation_timed_events now a =
     (if \<not> is_allocation_valid a then a
      else
        (let a = fold (sweep_permission now) (slot_refs (addr_to_perm a)) a
         in fold (sweep_channel now) (slot_refs (chns a)) a))"

section \<open>Loops over attributes\<close>

text \<open>The attributes of SKIP_ATTRIBUTES are ignored.\<close>

definition SKIP_ATTRIBUTES :: "int \<Rightarrow> bool" where
  "SKIP_ATTRIBUTES t \<longleftrightarrow> t \<in> set (map uint [STUN_ATTRIBUTE_OAUTH_ACCESS_TOKEN, STUN_ATTRIBUTE_PRIORITY,
     STUN_ATTRIBUTE_FINGERPRINT, STUN_ATTRIBUTE_MESSAGE_INTEGRITY, STUN_ATTRIBUTE_USERNAME,
     STUN_ATTRIBUTE_REALM, STUN_ATTRIBUTE_NONCE, STUN_ATTRIBUTE_ORIGIN])"

definition add_unknown :: "int \<Rightarrow> handler \<Rightarrow> handler" where
  "add_unknown t h =
     (if 0 \<le> t \<and> t \<le> 0x7FFF then h\<lparr>unknown_attrs := unknown_attrs h @ [nswap16 (word_of_int t)]\<rparr> else h)"

definition set_error :: "int \<Rightarrow> string \<Rightarrow> handler \<Rightarrow> handler" where
  "set_error code text h = h\<lparr>err_code := code, reason := Some (lit text)\<rparr>"

text \<open>The condition of the loops besides the attribute pointer.\<close>

definition scanning :: "handler \<Rightarrow> bool" where
  "scanning h \<longleftrightarrow> err_code h = 0 \<and> length (unknown_attrs h) < MAX_NUMBER_OF_UNKNOWN_ATTRS"

definition attr_loop ::
    "ioa_net_data \<Rightarrow> ('s \<Rightarrow> bool) \<Rightarrow> (nat \<Rightarrow> 's \<Rightarrow> 's option) \<Rightarrow> 's \<Rightarrow> 's option" where
  "attr_loop nd go body s = do {
     sar \<leftarrow> stun_attr_get_first_str (nd_data nd) (nd_size nd);
     if go s then attr_while (nd_data nd) (nd_size nd) go body sar s else Some s
   }"

section \<open>CreatePermission\<close>

definition is_multiplex_peer_udp_relay :: "engine \<Rightarrow> turn_turnserver \<Rightarrow> ioa_socket_handle option \<Rightarrow> bool" where
  "is_multiplex_peer_udp_relay e server relay_s =
     (case relay_s of
        None \<Rightarrow> False
      | Some s \<Rightarrow>
          if \<not> multiplex_peer_mode server \<or> sock_type e s \<noteq> UDP_SOCKET then False
          else mp_get_socket e (sock_family e s) = Some s)"

text \<open>The result tells whether the registration succeeds; otherwise the error is set.\<close>

definition register_multiplex_peer ::
    "engine \<Rightarrow> turn_turnserver \<Rightarrow> super_session \<Rightarrow> ioa_addr \<Rightarrow> handler \<Rightarrow> bool \<times> handler" where
  "register_multiplex_peer e server ss peer h =
     (if addr_get_port (Some peer) = 0 then (True, h)
      else if \<not> is_multiplex_peer_udp_relay e server (get_relay_socket (alloc ss) (sa_family peer)) then (True, h)
      else if mp_register_peer e peer < 0
      then (False, set_error 400 ''Peer address already used by another multiplex-peer allocation'' h)
      else (True, h))"

definition update_permission :: "turn_turnserver \<Rightarrow> super_session \<Rightarrow> ioa_addr \<Rightarrow> int \<times> super_session" where
  "update_permission server ss peer =
     (let (tinfo, a) =
        (case allocation_get_permission (alloc ss) peer of
           Some r \<Rightarrow> (Some r, alloc ss)
         | None \<Rightarrow> allocation_add_permission (alloc ss) peer);
          ss = ss\<lparr>alloc := a\<rparr>
      in case tinfo of
           None \<Rightarrow> (- 1, ss)
         | Some r \<Rightarrow>
             (case update_turn_permission_lifetime server ss r 0 of (rc, ss) \<Rightarrow>
                if rc < 0 then (- 1, ss)
                else
                  (case get_turn_channel (alloc ss) r peer of
                     None \<Rightarrow> (0, ss)
                   | Some c \<Rightarrow>
                       (case update_channel_lifetime server ss c of (rc, ss) \<Rightarrow>
                          if rc < 0 then (- 1, ss) else (0, ss)))))"

text \<open>The first loop checks all peer addresses, the second one installs the permissions.\<close>

definition check_peers ::
    "addr_mapping \<Rightarrow> turn_turnserver \<Rightarrow> super_session \<Rightarrow> ioa_net_data \<Rightarrow> nat \<Rightarrow> handler \<times> nat \<Rightarrow> (handler \<times> nat) option" where
  "check_peers m server ss nd p s = do {
     let (h, addr_found) = s;
     t \<leftarrow> stun_attr_get_type (nd_data nd) (Some p);
     if SKIP_ATTRIBUTES t then Some (h, addr_found)
     else if t = uint STUN_ATTRIBUTE_XOR_PEER_ADDRESS then do {
       (_, peer) \<leftarrow> stun_attr_get_addr_str m (nd_data nd) (nd_size nd) (Some p) None;
       if get_relay_socket (alloc ss) (sa_family peer) = None
       then Some (set_error 443 ''Peer Address Family Mismatch (4)'' h, addr_found)
       else if \<not> good_peer_addr (peers server) (Some (realm_name ss)) peer
       then Some (set_error 403 ''Forbidden IP'' h, addr_found)
       else Some (h, addr_found + 1)
     } else Some (add_unknown t h, addr_found)
   }"

definition install_peers ::
    "addr_mapping \<Rightarrow> engine \<Rightarrow> turn_turnserver \<Rightarrow> ioa_net_data \<Rightarrow> nat \<Rightarrow> handler \<times> super_session \<Rightarrow>
     (handler \<times> super_session) option" where
  "install_peers m e server nd p s = do {
     let (h, ss) = s;
     t \<leftarrow> stun_attr_get_type (nd_data nd) (Some p);
     if \<not> SKIP_ATTRIBUTES t \<and> t = uint STUN_ATTRIBUTE_XOR_PEER_ADDRESS then do {
       (_, exact_peer) \<leftarrow> stun_attr_get_addr_str m (nd_data nd) (nd_size nd) (Some p) None;
       let (rc, ss) = update_permission server ss (addr_set_port exact_peer 0);
       if rc < 0
       then Some (set_error 500 ''Cannot update some permissions (critical server software error)'' h, ss)
       else Some (snd (register_multiplex_peer e server ss exact_peer h), ss)
     } else Some (h, ss)
   }"

definition handle_turn_create_permission ::
    "addr_mapping \<Rightarrow> engine \<Rightarrow> u8 list \<Rightarrow> turn_turnserver \<Rightarrow> stun_tid \<Rightarrow> ioa_net_data \<Rightarrow> handler \<times> super_session \<Rightarrow>
     (int \<times> handler \<times> super_session) option" where
  "handle_turn_create_permission m e rnd server tid nd s = do {
     let (h, ss) = s;
     if \<not> is_allocation_valid (alloc ss) then Some (- 1, h, ss) else do {
       (h, addr_found) \<leftarrow> attr_loop nd (\<lambda>(h, _). scanning h) (check_peers m server ss nd) (h, 0);
       if unknown_attrs h \<noteq> [] then Some (- 1, h\<lparr>err_code := 420\<rparr>, ss)
       else if err_code h \<noteq> 0 then Some (- 1, h, ss)
       else if addr_found = 0 then Some (- 1, set_error 400 ''No address found'' h, ss)
       else do {
         (h, ss) \<leftarrow> attr_loop nd (\<lambda>_. True) (install_peers m e server nd) (h, ss);
         if err_code h = 0 then do {
           (b, len) \<leftarrow> stun_init_success_response_str rnd STUN_METHOD_CREATE_PERMISSION (nbh_data h) (Some tid);
           Some (0, h\<lparr>nbh_data := b, nbh_size := len, resp_constructed := True\<rparr>, ss)
         } else Some (- 1, h, ss)
       }
     }
   }"

section \<open>ChannelBind\<close>

definition scan_channel_bind ::
    "addr_mapping \<Rightarrow> super_session \<Rightarrow> ioa_net_data \<Rightarrow> nat \<Rightarrow> handler \<times> u16 \<times> ioa_addr \<times> bool \<Rightarrow>
     (handler \<times> u16 \<times> ioa_addr \<times> bool) option" where
  "scan_channel_bind m ss nd p s = do {
     let (h, n, peer, addr_found) = s;
     t \<leftarrow> stun_attr_get_type (nd_data nd) (Some p);
     if SKIP_ATTRIBUTES t then Some s
     else if t = uint STUN_ATTRIBUTE_CHANNEL_NUMBER then
       (if n \<noteq> 0
        then Some (set_error 400 ''Channel number cannot be duplicated in this request'' h, 0, peer, addr_found)
        else do {
          n \<leftarrow> stun_attr_get_channel_number (nd_data nd) (Some p);
          if n = 0
          then Some (set_error 400 ''Channel number cannot be zero in this request'' h, n, peer, addr_found)
          else Some (h, n, peer, addr_found)
        })
     else if t = uint STUN_ATTRIBUTE_XOR_PEER_ADDRESS then do {
       (_, peer) \<leftarrow> stun_attr_get_addr_str m (nd_data nd) (nd_size nd) (Some p) None;
       let h = (if get_relay_socket (alloc ss) (sa_family peer) = None
                then set_error 443 ''Peer Address Family Mismatch (3)'' h else h);
       if addr_get_port (Some peer) = 0
       then Some (set_error 400 ''Empty port number in channel bind request'' h, n, peer, addr_found)
       else Some (h, n, peer, True)
     } else Some (add_unknown t h, n, peer, addr_found)
   }"

text \<open>The channel for a number and a peer that the request asks for: an existing one, or a new one.\<close>

definition existing_channel :: "super_session \<Rightarrow> slot_ref \<Rightarrow> ioa_addr \<Rightarrow> handler \<Rightarrow> handler \<times> slot_ref option" where
  "existing_channel ss c peer h =
     (let chn = channel_at (alloc ss) c in
      if \<not> addr_eq (Some peer) (Some (peer_addr chn))
      then (set_error 400 ''You cannot use the same channel number with different peer'' h, None)
      else
        (case ch_owner chn of
           None \<Rightarrow> (set_error 500 ''Wrong permission info'' h, None)
         | Some r \<Rightarrow>
             if \<not> addr_eq_no_port (Some peer) (Some (pi_addr (permission_at (alloc ss) r)))
             then (set_error 500 ''Wrong permission info and peer addr combination'' h, Some r)
             else if ch_port chn \<noteq> addr_get_port (Some peer) then (set_error 500 ''Wrong port number'' h, Some r)
             else (h, Some r)))"

definition new_channel ::
    "turn_turnserver \<Rightarrow> super_session \<Rightarrow> u16 \<Rightarrow> ioa_addr \<Rightarrow> handler \<Rightarrow>
     handler \<times> slot_ref option \<times> slot_ref option \<times> super_session" where
  "new_channel server ss n peer h =
     (case allocation_get_ch_info_by_peer_addr (alloc ss) peer of
        Some c \<Rightarrow> (set_error 400 ''You cannot use the same peer with different channel number'' h, Some c, None, ss)
      | None \<Rightarrow>
          if \<not> good_peer_addr (peers server) (Some (realm_name ss)) peer
          then (set_error 403 ''Forbidden IP'' h, None, None, ss)
          else
            (case allocation_get_new_ch_info (alloc ss) n peer of
               (None, a) \<Rightarrow> (set_error 500 ''Cannot find channel data'' h, None, None, ss\<lparr>alloc := a\<rparr>)
             | (Some c, a) \<Rightarrow>
                 (case ch_owner (channel_at a c) of
                    None \<Rightarrow> (set_error 500 ''Wrong turn permission info'' h, Some c, None, ss\<lparr>alloc := a\<rparr>)
                  | Some r \<Rightarrow> (h, Some c, Some r, ss\<lparr>alloc := a\<rparr>))))"

text \<open>The handle that CREATE_TURN_CHANNEL_KERNEL stores if no kernel module is configured is 1.\<close>

definition set_kernel_channel :: "engine \<Rightarrow> super_session \<Rightarrow> slot_ref \<Rightarrow> ioa_addr \<Rightarrow> super_session" where
  "set_kernel_channel e ss c peer =
     (if is_mobile ss then ss
      else
        (case (client_socket ss, get_relay_socket (alloc ss) (sa_family peer)) of
           (Some cs, Some rs) \<Rightarrow>
             if sock_type e cs \<in> {UDP_SOCKET, TCP_SOCKET, SCTP_SOCKET} \<and> sock_type e rs = UDP_SOCKET
             then ss\<lparr>alloc := put_channel (alloc ss) c ((channel_at (alloc ss) c)\<lparr>kernel_channel := 1\<rparr>)\<rparr>
             else ss
         | _ \<Rightarrow> ss))"

definition bind_and_answer ::
    "engine \<Rightarrow> u8 list \<Rightarrow> turn_turnserver \<Rightarrow> stun_tid \<Rightarrow> slot_ref \<Rightarrow> ioa_addr \<Rightarrow> handler \<times> super_session \<Rightarrow>
     (handler \<times> super_session) option" where
  "bind_and_answer e rnd server tid c peer s = do {
     let (h, ss) = s;
     let (rc, ss) = update_channel_lifetime server ss c;
     if rc < 0 then Some (set_error 500 ''Cannot update channel lifetime (internal error)'' h, ss) else do {
       let (ok, h) = register_multiplex_peer e server ss peer h;
       if \<not> ok then Some (h, ss) else do {
         (b, len) \<leftarrow> stun_set_channel_bind_response_str rnd (nbh_data h) (Some tid) 0 None (include_reason_string server);
         Some (h\<lparr>nbh_data := b, nbh_size := len, resp_constructed := True\<rparr>, set_kernel_channel e ss c peer)
       }
     }
   }"

definition handle_turn_channel_bind ::
    "addr_mapping \<Rightarrow> engine \<Rightarrow> u8 list \<Rightarrow> turn_turnserver \<Rightarrow> stun_tid \<Rightarrow> ioa_net_data \<Rightarrow> handler \<times> super_session \<Rightarrow>
     (handler \<times> super_session) option" where
  "handle_turn_channel_bind m e rnd server tid nd s = do {
     let (h, ss) = s;
     if is_tcp_relay ss then Some (set_error 403 ''Channel bind cannot be used with TCP relay'' h, ss)
     else if \<not> is_allocation_valid (alloc ss) then Some (h, ss)
     else do {
       (h, n, peer, addr_found) \<leftarrow>
         attr_loop nd (\<lambda>(h, _). scanning h) (scan_channel_bind m ss nd) (h, 0, addr_set_any, False);
       if unknown_attrs h \<noteq> [] then Some (h\<lparr>err_code := 420\<rparr>, ss)
       else if err_code h \<noteq> 0 then Some (h, ss)
       else if n = 0 \<or> addr_any (Some peer) \<or> \<not> addr_found then Some (set_error 400 ''Bad channel bind request'' h, ss)
       else if \<not> STUN_VALID_CHANNEL n then Some (set_error 400 ''Bad channel number'' h, ss)
       else do {
         let (h, chn, tinfo, ss) =
           (case allocation_get_ch_info (alloc ss) n of
              Some c \<Rightarrow> (case existing_channel ss c peer h of (h, tinfo) \<Rightarrow> (h, Some c, tinfo, ss))
            | None \<Rightarrow> new_channel server ss n peer h);
         case (chn, tinfo) of
           (Some c, Some r) \<Rightarrow> if err_code h = 0 then bind_and_answer e rnd server tid c peer (h, ss) else Some (h, ss)
         | _ \<Rightarrow> Some (h, ss)
       }
     }
   }"

section \<open>The invariant of a session\<close>

text \<open>Besides the invariant of its allocation, a session has permissions for good peers only.\<close>

definition perms_good :: "peer_config \<Rightarrow> u8 list \<Rightarrow> allocation \<Rightarrow> bool" where
  "perms_good cfg realm a \<longleftrightarrow> (\<forall>r i. perms a r = Some i \<longrightarrow> good_peer_addr cfg (Some realm) (pi_addr i))"

definition session_inv :: "peer_config \<Rightarrow> super_session \<Rightarrow> bool" where
  "session_inv cfg ss \<longleftrightarrow> alloc_inv (alloc ss) \<and> perms_good cfg (realm_name ss) (alloc ss)"

lemma session_invI: "alloc_inv (alloc ss) \<Longrightarrow> perms_good cfg (realm_name ss) (alloc ss) \<Longrightarrow> session_inv cfg ss"
  by (simp add: session_inv_def)

lemma perms_good_mono:
  assumes "perms_good cfg realm a" "\<And>r i. perms b r = Some i \<Longrightarrow> \<exists>r' j. perms a r' = Some j \<and> pi_addr j = pi_addr i"
  shows "perms_good cfg realm b"
  using assms unfolding perms_good_def by metis

text \<open>Updating lifetimes.\<close>

lemma permission_lifetime_inv:
  assumes inv: "session_inv cfg ss" and r: "perms (alloc ss) r = Some i"
    and u: "update_turn_permission_lifetime server ss r d = (rc, ss')"
  shows "session_inv cfg ss' \<and> rc = 0 \<and> chans (alloc ss') = chans (alloc ss) \<and>
    (\<exists>j. perms (alloc ss') = (perms (alloc ss))(r \<mapsto> j) \<and> pi_addr j = pi_addr i \<and> pi_chns j = pi_chns i \<and> pi_owner j \<and>
       pi_expiration_time j = ctime server + (if d = 0 then word_of_int (permission_lifetime server) else d)) \<and>
    realm_name ss' = realm_name ss"
proof -
  have a: "alloc_inv (alloc ss)" "perms_good cfg (realm_name ss) (alloc ss)" using inv by (simp_all add: session_inv_def)
  then have o: "pi_owner i" using alloc_permD r by blast
  define j where "j = (let i = i\<lparr>pi_expiration_time := ctime server + (if d = 0 then word_of_int (permission_lifetime server) else d)\<rparr>
    in if srv_verbose server then i\<lparr>pi_verbose := True, pi_session_id := ss_id ss\<rparr> else i)"
  have j: "pi_allocated j" "pi_addr j = pi_addr i" "pi_chns j = pi_chns i" "pi_owner j"
    "pi_expiration_time j = ctime server + (if d = 0 then word_of_int (permission_lifetime server) else d)"
    using o perms_at [OF r] by (simp_all add: j_def Let_def)
  have e: "rc = 0" "ss' = ss\<lparr>alloc := put_permission (alloc ss) r j\<rparr>"
    using u o perms_at [OF r] by (simp_all add: update_turn_permission_lifetime_def Let_def j_def)
  have p: "perms (alloc ss') = (perms (alloc ss))(r \<mapsto> j)" using r j(1) by (simp add: e put_permission_maps)
  have rn: "realm_name ss' = realm_name ss" by (simp add: e)
  have "perms_good cfg (realm_name ss') (alloc ss')"
    unfolding perms_good_def p rn using a(2) j(2) r by (auto simp: perms_good_def split: if_splits)
  then have "session_inv cfg ss'"
    using alloc_inv_put_permission [OF a(1) r j(1-4)] by (simp add: session_inv_def e)
  then show ?thesis using p j e by auto
qed

lemma channel_lifetime_inv:
  assumes inv: "session_inv cfg ss" and c: "chans (alloc ss) c = Some ch"
    and u: "update_channel_lifetime server ss c = (rc, ss')"
  shows "session_inv cfg ss' \<and> rc = 0 \<and> realm_name ss' = realm_name ss \<and>
    (\<exists>ch'. chans (alloc ss') = (chans (alloc ss))(c \<mapsto> ch') \<and> chnum ch' = chnum ch \<and> peer_addr ch' = peer_addr ch)"
proof -
  have a: "alloc_inv (alloc ss)" using inv by (simp add: session_inv_def)
  then obtain r i where r: "ch_owner ch = Some r" "perms (alloc ss) r = Some i" using alloc_chanD(4) [OF _ c] by blast
  have o: "pi_owner i" using alloc_permD [OF a r(2)] by simp
  obtain rc1 ss1 where u1: "update_turn_permission_lifetime server ss r (word_of_int (channel_lifetime server)) = (rc1, ss1)" by fastforce
  note s1 = permission_lifetime_inv [OF inv r(2) u1]
  then have c1: "chans (alloc ss1) c = Some ch" using c by simp
  define d where "d = ch\<lparr>ch_expiration_time := ctime server + word_of_int (channel_lifetime server)\<rparr>"
  have e: "rc = 0" "ss' = ss1\<lparr>alloc := put_channel (alloc ss1) c d\<rparr>"
    using u u1 s1 r chans_at [OF c] chans_at [OF c1] perms_at [OF r(2)] o
    by (simp_all add: update_channel_lifetime_def d_def)
  have d: "ch_allocated d" "chnum d = chnum ch" "ch_port d = ch_port ch" "peer_addr d = peer_addr ch" "ch_owner d = ch_owner ch"
    using chans_at [OF c] by (simp_all add: d_def)
  have "alloc_inv (alloc ss')" using alloc_inv_put_channel [OF _ c1 d] s1 by (simp add: e session_inv_def)
  moreover have "perms_good cfg (realm_name ss') (alloc ss')"
    using s1 by (auto simp: e perms_good_def put_channel_maps(2) session_inv_def)
  moreover have "chans (alloc ss') = (chans (alloc ss))(c \<mapsto> d)"
    using s1 chans_at [OF c1] d(1) by (simp add: e put_channel_maps(1))
  ultimately show ?thesis using e d s1 by (auto intro: session_invI)
qed

text \<open>CreatePermission.\<close>

lemma good_peer_set_port: "good_peer_addr cfg realm (addr_set_port a p) = good_peer_addr cfg realm a"
proof (cases "sa_family a = AF_INET \<or> sa_family a = AF_INET6")
  case True
  then have "addr_eq_no_port (Some (addr_set_port a p)) (Some a)" by (auto simp: addr_set_port_def addr_eq_no_port.simps)
  then show ?thesis by (rule good_peer_no_port)
qed (simp add: addr_set_port_def)

lemma add_permission_inv:
  assumes inv: "session_inv cfg ss" and n: "allocation_get_permission (alloc ss) peer = None"
    and g: "good_peer_addr cfg (Some (realm_name ss)) peer" and add: "allocation_add_permission (alloc ss) peer = (Some r, a)"
  shows "session_inv cfg (ss\<lparr>alloc := a\<rparr>) \<and> perms a r = Some (new_permission_info peer)"
proof -
  note m = add_permission_maps [OF add]
  have "alloc_inv a" using inv alloc_inv_add_permission [OF _ n add] by (simp add: session_inv_def)
  moreover have "perms_good cfg (realm_name ss) a"
    using inv g by (auto simp: session_inv_def perms_good_def m(2) new_permission_info_def split: if_splits)
  ultimately show ?thesis by (simp add: session_inv_def m(2))
qed

lemma add_permission_None: "allocation_add_permission a peer = (None, b) \<Longrightarrow> b = a"
  by (auto simp: allocation_add_permission_def Let_def split: option.splits if_splits)

lemma get_turn_channel_chans:
  assumes inv: "alloc_inv a" and r: "perms a r = Some i" and c: "get_turn_channel a r peer = Some c"
  shows "\<exists>ch. chans a c = Some ch"
proof -
  have l: "lm_map_get (pi_chns i) (ucast (addr_get_port (Some peer))) = Some (Some c)"
    using c perms_at [OF r] by (auto simp: get_turn_channel_def split: option.splits if_splits)
  then have "(ucast (addr_get_port (Some peer)) :: u64) \<noteq> 0" by (auto simp: lm_map_get_def)
  then show ?thesis using alloc_portD [OF inv r _ l] by auto
qed

lemma update_permission_inv:
  assumes inv: "session_inv cfg ss" and g: "good_peer_addr cfg (Some (realm_name ss)) peer"
    and u: "update_permission server ss peer = (rc, ss')"
  shows "session_inv cfg ss' \<and> realm_name ss' = realm_name ss"
proof -
  have step: "session_inv cfg ss' \<and> realm_name ss' = realm_name ss1"
    if s1: "session_inv cfg ss1" and r: "perms (alloc ss1) r = Some i"
      and u1: "(case update_turn_permission_lifetime server ss1 r 0 of (rc, ss) \<Rightarrow>
                if rc < 0 then (- 1, ss)
                else (case get_turn_channel (alloc ss) r peer of
                     None \<Rightarrow> (0, ss)
                   | Some c \<Rightarrow> (case update_channel_lifetime server ss c of (rc, ss) \<Rightarrow> if rc < 0 then (- 1, ss) else (0, ss))))
             = (rc, ss')" for ss1 r i
  proof -
    obtain rc2 ss2 where u2: "update_turn_permission_lifetime server ss1 r 0 = (rc2, ss2)" by fastforce
    note s2 = permission_lifetime_inv [OF s1 r u2]
    then obtain j where j: "perms (alloc ss2) r = Some j" by auto
    show ?thesis
    proof (cases "get_turn_channel (alloc ss2) r peer")
      case None
      then show ?thesis using u1 u2 s2 by auto
    next
      case (Some c)
      then obtain ch where ch: "chans (alloc ss2) c = Some ch"
        using get_turn_channel_chans [OF _ j Some] s2 by (auto simp: session_inv_def)
      obtain rc3 ss3 where u3: "update_channel_lifetime server ss2 c = (rc3, ss3)" by fastforce
      have "session_inv cfg ss3 \<and> rc3 = 0 \<and> realm_name ss3 = realm_name ss2"
        using channel_lifetime_inv [OF _ ch u3] s2 by blast
      then show ?thesis using u1 u2 u3 s2 Some by auto
    qed
  qed
  show ?thesis
  proof (cases "allocation_get_permission (alloc ss) peer")
    case (Some r)
    then obtain i where "perms (alloc ss) r = Some i" using get_permission_iff [of "alloc ss"] inv by (auto simp: session_inv_def)
    then show ?thesis using step [OF inv] u Some by (simp add: update_permission_def)
  next
    case None
    obtain t a where add: "allocation_add_permission (alloc ss) peer = (t, a)" by fastforce
    show ?thesis
    proof (cases t)
      case N: None
      then have "a = alloc ss" using add_permission_None add by simp
      then show ?thesis using u None add N inv by (auto simp: update_permission_def)
    next
      case (Some r)
      then have "session_inv cfg (ss\<lparr>alloc := a\<rparr>) \<and> perms a r = Some (new_permission_info peer)"
        using add_permission_inv [OF inv None g] add by simp
      then show ?thesis using step [of "ss\<lparr>alloc := a\<rparr>" r] u None add Some by (simp add: update_permission_def)
    qed
  qed
qed

text \<open>The loops over the attributes are loops over their offsets.\<close>

definition nd_ok :: "ioa_net_data \<Rightarrow> bool" where
  "nd_ok nd \<longleftrightarrow> nd_size nd \<le> length (nd_data nd)"

lemma attr_loop_chain:
  assumes "nd_ok nd"
  shows "attr_loop nd go body s =
    (if go s then chain_while go body (attr_offsets (nd_data nd) (nd_size nd)) s else Some s)"
  using assms by (simp add: attr_loop_def nd_ok_def get_first_in attr_while_offsets)

text \<open>The decoded peer of an attribute.\<close>

definition peer_at :: "addr_mapping \<Rightarrow> ioa_net_data \<Rightarrow> nat \<Rightarrow> ioa_addr \<Rightarrow> bool" where
  "peer_at m nd p peer \<longleftrightarrow> (\<exists>ok. stun_attr_get_type (nd_data nd) (Some p) = Some (uint STUN_ATTRIBUTE_XOR_PEER_ADDRESS) \<and>
     stun_attr_get_addr_str m (nd_data nd) (nd_size nd) (Some p) None = Some (ok, peer))"

lemma set_error_code [simp]: "err_code (set_error n t h) = n" "unknown_attrs (set_error n t h) = unknown_attrs h"
  by (simp_all add: set_error_def)

lemma add_unknown_code [simp]: "err_code (add_unknown t h) = err_code h"
  by (simp add: add_unknown_def)

lemma add_unknown_Nil: "unknown_attrs (add_unknown t h) = [] \<Longrightarrow> unknown_attrs h = []"
  by (simp add: add_unknown_def split: if_splits)

lemma SKIP_not_peer [simp]: "\<not> SKIP_ATTRIBUTES 0x12"
  by (simp add: SKIP_ATTRIBUTES_def)

lemma check_peers_step:
  assumes "check_peers m server ss nd p (h, n) = Some (h', n')" "unknown_attrs h' = []" "err_code h' = 0"
  shows "unknown_attrs h = [] \<and> (\<forall>peer. peer_at m nd p peer \<longrightarrow> good_peer_addr (peers server) (Some (realm_name ss)) peer)"
proof (cases "stun_attr_get_type (nd_data nd) (Some p) = Some (uint STUN_ATTRIBUTE_XOR_PEER_ADDRESS)")
  case True
  then show ?thesis
    using assms by (auto simp: check_peers_def peer_at_def split: Option.bind_splits if_splits)
next
  case False
  then show ?thesis
    using assms add_unknown_Nil [of _ h]
    by (auto simp: check_peers_def peer_at_def split: Option.bind_splits if_splits)
qed

lemma check_peers_all:
  assumes "chain_while (\<lambda>(h, _). scanning h) (check_peers m server ss nd) ps (h, n) = Some (h', n')"
    "unknown_attrs h' = []" "err_code h' = 0" "p \<in> set ps" "peer_at m nd p peer"
  shows "good_peer_addr (peers server) (Some (realm_name ss)) peer"
  using assms(1,4)
proof (induction ps arbitrary: h n)
  case (Cons q ps)
  obtain h1 n1 where s: "check_peers m server ss nd q (h, n) = Some (h1, n1)"
    and rest: "if scanning h1 then chain_while (\<lambda>(h, _). scanning h) (check_peers m server ss nd) ps (h1, n1) = Some (h', n') else (h1, n1) = (h', n')"
    using Cons.prems(1) by (auto split: Option.bind_splits if_splits)
  have go: "unknown_attrs h = []" if "chain_while (\<lambda>(h, _). scanning h) (check_peers m server ss nd) qs (h, n) = Some (h', n')" for qs h n
    using that
  proof (induction qs arbitrary: h n)
    case (Cons x qs)
    obtain h2 n2 where "check_peers m server ss nd x (h, n) = Some (h2, n2)"
      "if scanning h2 then chain_while (\<lambda>(h, _). scanning h) (check_peers m server ss nd) qs (h2, n2) = Some (h', n') else (h2, n2) = (h', n')"
      using Cons.prems by (auto split: Option.bind_splits if_splits)
    moreover from this have "unknown_attrs h2 = []" using Cons.IH assms(2) by (auto split: if_splits)
    ultimately show ?case
      by (auto simp: check_peers_def dest: add_unknown_Nil split: Option.bind_splits if_splits)
  qed (simp add: assms(2))
  have u1: "unknown_attrs h1 = []" using rest go assms(2) by (auto split: if_splits)
  have "scanning h1" using rest assms(3) u1 by (auto simp: scanning_def split: if_splits)
  then have e1: "err_code h1 = 0" and r1: "chain_while (\<lambda>(h, _). scanning h) (check_peers m server ss nd) ps (h1, n1) = Some (h', n')"
    using rest by (auto simp: scanning_def)
  show ?case
    using Cons.prems(2) check_peers_step [OF s u1 e1] assms(5) Cons.IH [OF r1] by auto
qed simp

lemma install_peers_inv:
  assumes "chain_while (\<lambda>_. True) (install_peers m e server nd) ps (h, ss) = Some (h', ss')" "session_inv (peers server) ss"
    "\<And>p peer. p \<in> set ps \<Longrightarrow> peer_at m nd p peer \<Longrightarrow> good_peer_addr (peers server) (Some (realm_name ss)) peer"
  shows "session_inv (peers server) ss' \<and> realm_name ss' = realm_name ss"
  using assms
proof (induction ps arbitrary: h ss)
  case (Cons p ps)
  obtain h1 ss1 where s: "install_peers m e server nd p (h, ss) = Some (h1, ss1)"
    and r: "chain_while (\<lambda>_. True) (install_peers m e server nd) ps (h1, ss1) = Some (h', ss')"
    using Cons.prems(1) by (auto split: Option.bind_splits)
  have "session_inv (peers server) ss1 \<and> realm_name ss1 = realm_name ss"
  proof (cases "stun_attr_get_type (nd_data nd) (Some p) = Some (uint STUN_ATTRIBUTE_XOR_PEER_ADDRESS)")
    case True
    then obtain ok peer where d: "stun_attr_get_addr_str m (nd_data nd) (nd_size nd) (Some p) None = Some (ok, peer)"
      using s by (auto simp: install_peers_def split: Option.bind_splits)
    then have "good_peer_addr (peers server) (Some (realm_name ss)) (addr_set_port peer 0)"
      using Cons.prems(3) [of p peer] True by (auto simp: peer_at_def good_peer_set_port)
    moreover obtain rc ss2 where u: "update_permission server ss (addr_set_port peer 0) = (rc, ss2)" by fastforce
    ultimately have "session_inv (peers server) ss2 \<and> realm_name ss2 = realm_name ss"
      using update_permission_inv [OF Cons.prems(2)] by blast
    moreover have "ss1 = ss2" using s True d u by (auto simp: install_peers_def split: if_splits)
    ultimately show ?thesis by simp
  next
    case False
    then show ?thesis using s Cons.prems(2) by (auto simp: install_peers_def split: Option.bind_splits if_splits)
  qed
  then show ?case using Cons.IH [OF r] Cons.prems(3) by auto
qed simp

lemma create_permission_inv:
  assumes ok: "nd_ok nd" and inv: "session_inv (peers server) ss"
    and h: "handle_turn_create_permission m e rnd server tid nd (h, ss) = Some (ret, h', ss')"
  shows "session_inv (peers server) ss' \<and> realm_name ss' = realm_name ss"
proof (cases "is_allocation_valid (alloc ss)")
  case True
  let ?ps = "attr_offsets (nd_data nd) (nd_size nd)"
  obtain h1 n1 where l1: "attr_loop nd (\<lambda>(h, _). scanning h) (check_peers m server ss nd) (h, 0) = Some (h1, n1)"
    using h True by (auto simp: handle_turn_create_permission_def split: Option.bind_splits)
  show ?thesis
  proof (cases "unknown_attrs h1 = [] \<and> err_code h1 = 0 \<and> n1 \<noteq> 0")
    case t: True
    then have c: "chain_while (\<lambda>(h, _). scanning h) (check_peers m server ss nd) ?ps (h, 0) = Some (h1, n1)"
      using l1 by (auto simp: attr_loop_chain [OF ok] split: if_splits)
    obtain h2 ss2 where l2: "attr_loop nd (\<lambda>_. True) (install_peers m e server nd) (h1, ss) = Some (h2, ss2)" and "ss' = ss2"
      using h True l1 t by (auto simp: handle_turn_create_permission_def split: Option.bind_splits if_splits)
    then show ?thesis
      using install_peers_inv [OF _ inv, of m e nd ?ps h1 h2 ss2] check_peers_all [OF c] t
      by (auto simp: attr_loop_chain [OF ok])
  next
    case False
    then show ?thesis using h True l1 inv by (auto simp: handle_turn_create_permission_def split: if_splits)
  qed
next
  case False
  then show ?thesis using h inv by (simp add: handle_turn_create_permission_def)
qed

text \<open>ChannelBind.  After the loop over the attributes the peer has a port, if an address was found
  and no error occurred.\<close>

lemma scan_channel_bind_port:
  assumes "chain_while (\<lambda>(h, _). scanning h) (scan_channel_bind m ss nd) ps (h, n, peer, f) = Some (h', n', peer', f')"
    "f \<longrightarrow> addr_get_port (Some peer) \<noteq> 0" "err_code h' = 0" "f'"
  shows "addr_get_port (Some peer') \<noteq> 0"
  using assms(1,2)
proof (induction ps arbitrary: h n peer f)
  case Nil
  then show ?case using assms(4) by simp
next
  case (Cons p ps)
  obtain h1 n1 peer1 f1 where s: "scan_channel_bind m ss nd p (h, n, peer, f) = Some (h1, n1, peer1, f1)"
    and rest: "if scanning h1 then chain_while (\<lambda>(h, _). scanning h) (scan_channel_bind m ss nd) ps (h1, n1, peer1, f1) = Some (h', n', peer', f')
      else (h1, n1, peer1, f1) = (h', n', peer', f')"
    using Cons.prems(1) by (auto split: Option.bind_splits if_splits)
  have f1: "err_code h1 = 0 \<Longrightarrow> f1 \<longrightarrow> addr_get_port (Some peer1) \<noteq> 0"
    using s Cons.prems(2) by (auto simp: scan_channel_bind_def Let_def split: Option.bind_splits if_splits)
  show ?case
  proof (cases "scanning h1")
    case True
    then show ?thesis using Cons.IH f1 rest by (auto simp: scanning_def)
  next
    case False
    then show ?thesis using rest f1 assms(3,4) by auto
  qed
qed

lemma addr_any_key_ok: "\<not> addr_any (Some a) \<Longrightarrow> addr_key_ok a"
  by (auto simp: addr_key_ok_def split: if_splits)

lemma kernel_channel_inv:
  assumes "session_inv cfg ss" "chans (alloc ss) c = Some ch"
  shows "session_inv cfg (set_kernel_channel e ss c peer) \<and> realm_name (set_kernel_channel e ss c peer) = realm_name ss"
proof -
  let ?d = "(channel_at (alloc ss) c)\<lparr>kernel_channel := 1\<rparr>"
  have "session_inv cfg (ss\<lparr>alloc := put_channel (alloc ss) c ?d\<rparr>)"
    using assms alloc_inv_put_channel [of "alloc ss" c ch ?d] chans_at [OF assms(2)]
    by (auto simp: session_inv_def perms_good_def put_channel_maps(2))
  then show ?thesis using assms(1) by (auto simp: set_kernel_channel_def split: option.splits)
qed

lemma register_code: "err_code h = 0 \<Longrightarrow> register_multiplex_peer e server ss peer h = (ok, h') \<Longrightarrow> ok \<Longrightarrow> h' = h"
  by (auto simp: register_multiplex_peer_def split: if_splits)

lemma bind_and_answer_inv:
  assumes inv: "session_inv cfg ss" and c: "chans (alloc ss) c = Some ch"
    and b: "bind_and_answer e rnd server tid c peer (h, ss) = Some (h', ss')"
  shows "session_inv cfg ss' \<and> realm_name ss' = realm_name ss"
proof -
  obtain rc ss1 where u: "update_channel_lifetime server ss c = (rc, ss1)" by fastforce
  obtain ch1 where s1: "session_inv cfg ss1" "realm_name ss1 = realm_name ss" "chans (alloc ss1) c = Some ch1"
    using channel_lifetime_inv [OF inv c u] by auto
  have "ss' = ss1 \<or> ss' = set_kernel_channel e ss1 c peer"
    using b u by (auto simp: bind_and_answer_def split: Option.bind_splits if_splits prod.splits)
  then show ?thesis using s1 kernel_channel_inv [OF s1(1,3)] by auto
qed

lemma new_channel_inv:
  assumes inv: "session_inv (peers server) ss" and n: "STUN_VALID_CHANNEL n" "allocation_get_ch_info (alloc ss) n = None"
    and peer: "addr_key_ok peer" "addr_get_port (Some peer) \<noteq> 0"
    and b: "new_channel server ss n peer h = (h', chn, tinfo, ss')"
  shows "session_inv (peers server) ss' \<and> realm_name ss' = realm_name ss \<and>
    (\<forall>c. chn = Some c \<longrightarrow> (\<exists>ch. chans (alloc ss') c = Some ch))"
proof (cases "allocation_get_ch_info_by_peer_addr (alloc ss) peer")
  case (Some c)
  have "alloc_inv (alloc ss)" using inv by (simp add: session_inv_def)
  then obtain r i where "perms (alloc ss) r = Some i" "lm_map_get (pi_chns i) (ucast (addr_get_port (Some peer))) = Some (Some c)"
    using get_by_peer_iff [OF _ peer(2)] Some by blast
  then have "\<exists>ch. chans (alloc ss) c = Some ch"
    using alloc_portD [OF \<open>alloc_inv (alloc ss)\<close>, of r i "ucast (addr_get_port (Some peer))" "Some c"] peer(2) by auto
  then show ?thesis using b Some inv by (auto simp: new_channel_def)
next
  case None
  show ?thesis
  proof (cases "good_peer_addr (peers server) (Some (realm_name ss)) peer")
    case True
    have a: "alloc_inv (alloc ss)" "perms_good (peers server) (realm_name ss) (alloc ss)" using inv by (simp_all add: session_inv_def)
    obtain r a' where g: "allocation_get_new_ch_info (alloc ss) n peer = (r, a')" by fastforce
    from get_new_ch_info_inv [OF a(1) peer n None g] show ?thesis
    proof (elim disjE exE conjE)
      assume "r = None" "a' = alloc ss"
      then show ?thesis using b None True g inv by (auto simp: new_channel_def)
    next
      fix c ch p i
      assume o: "r = Some c" "alloc_inv a'" "chans a' = (chans (alloc ss))(c \<mapsto> ch)"
        "\<forall>q j. perms a' q = Some j \<longrightarrow> pi_addr j = peer \<or> map_option pi_addr (perms (alloc ss) q) = Some (pi_addr j)"
      have "perms_good (peers server) (realm_name ss) a'"
        unfolding perms_good_def
      proof (intro allI impI)
        fix q j
        assume "perms a' q = Some j"
        then show "good_peer_addr (peers server) (Some (realm_name ss)) (pi_addr j)"
          using o(4) True a(2) unfolding perms_good_def by (metis (no_types, lifting) map_option_eq_Some)
      qed
      then have "session_inv (peers server) (ss\<lparr>alloc := a'\<rparr>)" using o(2) by (simp add: session_inv_def)
      then show ?thesis using b None True g o(1,3) by (auto simp: new_channel_def split: option.splits)
    qed
  next
    case False
    then show ?thesis using b None inv by (auto simp: new_channel_def)
  qed
qed

lemma channel_bind_inv:
  assumes ok: "nd_ok nd" and inv: "session_inv (peers server) ss"
    and h: "handle_turn_channel_bind m e rnd server tid nd (h, ss) = Some (h', ss')"
  shows "session_inv (peers server) ss' \<and> realm_name ss' = realm_name ss"
proof (cases "\<not> is_tcp_relay ss \<and> is_allocation_valid (alloc ss)")
  case True
  obtain h1 n peer f where l: "attr_loop nd (\<lambda>(h, _). scanning h) (scan_channel_bind m ss nd) (h, 0, addr_set_any, False) = Some (h1, n, peer, f)"
    using h True by (auto simp: handle_turn_channel_bind_def split: Option.bind_splits)
  show ?thesis
  proof (cases "unknown_attrs h1 = [] \<and> err_code h1 = 0 \<and> n \<noteq> 0 \<and> \<not> addr_any (Some peer) \<and> f \<and> STUN_VALID_CHANNEL n")
    case t: True
    then have "chain_while (\<lambda>(h, _). scanning h) (scan_channel_bind m ss nd) (attr_offsets (nd_data nd) (nd_size nd))
        (h, 0, addr_set_any, False) = Some (h1, n, peer, f)"
      using l by (auto simp: attr_loop_chain [OF ok] split: if_splits)
    then have port: "addr_get_port (Some peer) \<noteq> 0" using scan_channel_bind_port t by blast
    have key: "addr_key_ok peer" using t addr_any_key_ok by blast
    define st where "st = (case allocation_get_ch_info (alloc ss) n of
        Some c \<Rightarrow> (case existing_channel ss c peer h1 of (h, tinfo) \<Rightarrow> (h, Some c, tinfo, ss))
      | None \<Rightarrow> new_channel server ss n peer h1)"
    obtain h2 chn tinfo ss2 where st: "st = (h2, chn, tinfo, ss2)" by (cases st)
    have "session_inv (peers server) ss2 \<and> realm_name ss2 = realm_name ss \<and> (\<forall>c. chn = Some c \<longrightarrow> (\<exists>ch. chans (alloc ss2) c = Some ch))"
    proof (cases "allocation_get_ch_info (alloc ss) n")
      case None
      then have "new_channel server ss n peer h1 = (h2, chn, tinfo, ss2)" using st by (simp add: st_def)
      then show ?thesis using new_channel_inv [OF inv _ None key port] t by blast
    next
      case (Some c)
      then have "\<exists>ch. chans (alloc ss) c = Some ch" using get_ch_info_iff [of "alloc ss"] inv by (auto simp: session_inv_def)
      then show ?thesis using st Some inv by (auto simp: st_def split: prod.splits)
    qed
    moreover have "ss' = ss2 \<or> (\<exists>c. chn = Some c \<and> bind_and_answer e rnd server tid c peer (h2, ss2) = Some (h', ss'))"
      using h True l t st unfolding handle_turn_channel_bind_def
      by (auto simp: st_def [symmetric] split: option.splits if_splits)
    ultimately show ?thesis using bind_and_answer_inv by (metis (no_types, opaque_lifting))
  next
    case False
    then show ?thesis using h True l inv by (auto simp: handle_turn_channel_bind_def split: if_splits)
  qed
next
  case False
  then show ?thesis using h inv by (auto simp: handle_turn_channel_bind_def split: if_splits)
qed

section \<open>What the sweep removes\<close>

definition expired_permission :: "turn_time_t \<Rightarrow> allocation \<Rightarrow> slot_ref \<Rightarrow> bool" where
  "expired_permission now a r = (case perms a r of Some i \<Rightarrow> turn_time_before (pi_expiration_time i) now | None \<Rightarrow> False)"

definition expired_channel :: "turn_time_t \<Rightarrow> allocation \<Rightarrow> slot_ref \<Rightarrow> bool" where
  "expired_channel now a c = (case chans a c of Some ch \<Rightarrow> turn_time_before (ch_expiration_time ch) now | None \<Rightarrow> False)"

definition owned_by :: "slot_ref set \<Rightarrow> ch_info \<Rightarrow> bool" where
  "owned_by R ch = (case ch_owner ch of Some r \<Rightarrow> r \<in> R | None \<Rightarrow> False)"

definition drop_channels :: "(ch_info \<Rightarrow> bool) \<Rightarrow> (slot_ref \<Rightarrow> ch_info option) \<Rightarrow> slot_ref \<Rightarrow> ch_info option" where
  "drop_channels P C c = (case C c of Some ch \<Rightarrow> if P ch then None else Some ch | None \<Rightarrow> None)"

lemma drop_channels_comp: "drop_channels P (drop_channels Q C) = drop_channels (\<lambda>ch. Q ch \<or> P ch) C"
  by (auto simp: drop_channels_def fun_eq_iff split: option.splits)

lemma sweep_permission_maps:
  assumes inv: "alloc_inv a"
  shows "alloc_inv (sweep_permission now r a)"
    "perms (sweep_permission now r a) = (\<lambda>q. if q = r \<and> expired_permission now a q then None else perms a q)"
    "chans (sweep_permission now r a) = drop_channels (owned_by {q. q = r \<and> expired_permission now a q}) (chans a)"
proof -
  have none: "drop_channels (owned_by {}) C = C" for C
    by (auto simp: drop_channels_def owned_by_def fun_eq_iff split: option.splits)
  have "alloc_inv (sweep_permission now r a) \<and>
    perms (sweep_permission now r a) = (\<lambda>q. if q = r \<and> expired_permission now a q then None else perms a q) \<and>
    chans (sweep_permission now r a) = drop_channels (owned_by {q. q = r \<and> expired_permission now a q}) (chans a)"
  proof (cases "expired_permission now a r")
    case True
    then obtain i where i: "perms a r = Some i" "turn_time_before (pi_expiration_time i) now"
      by (auto simp: expired_permission_def split: option.splits)
    then have e: "sweep_permission now r a = turn_permission_clean a r"
      using perms_at [OF i(1)] by (simp add: sweep_permission_def client_ss_perm_timeout_handler_def)
    have "{q. q = r \<and> expired_permission now a q} = {r}" using True by auto
    moreover have "(\<lambda>q. if q = r \<and> expired_permission now a q then None else perms a q) = (perms a)(r := None)"
      using True by (auto simp: fun_eq_iff)
    ultimately show ?thesis
      unfolding e turn_permission_clean_maps [OF inv i(1)]
      using alloc_inv_clean [OF inv] by (auto simp: drop_channels_def owned_by_def fun_eq_iff split: option.splits)
  next
    case False
    then have e: "sweep_permission now r a = a"
      using perms_eq [of a r] by (auto simp: sweep_permission_def expired_permission_def)
    have n: "{q. q = r \<and> expired_permission now a q} = {}" "(\<lambda>q. if q = r \<and> expired_permission now a q then None else perms a q) = perms a"
      using False by (auto simp: fun_eq_iff)
    show ?thesis unfolding e n none using inv by blast
  qed
  then show "alloc_inv (sweep_permission now r a)"
    "perms (sweep_permission now r a) = (\<lambda>q. if q = r \<and> expired_permission now a q then None else perms a q)"
    "chans (sweep_permission now r a) = drop_channels (owned_by {q. q = r \<and> expired_permission now a q}) (chans a)" by auto
qed

lemma sweep_permissions_maps:
  assumes "alloc_inv a"
  shows "alloc_inv (fold (sweep_permission now) rs a) \<and>
    perms (fold (sweep_permission now) rs a) = (\<lambda>q. if q \<in> set rs \<and> expired_permission now a q then None else perms a q) \<and>
    chans (fold (sweep_permission now) rs a) = drop_channels (owned_by {q \<in> set rs. expired_permission now a q}) (chans a)"
  using assms
proof (induction rs arbitrary: a)
  case Nil
  then show ?case by (auto simp: drop_channels_def owned_by_def fun_eq_iff split: option.splits)
next
  case (Cons r rs)
  note s = sweep_permission_maps [OF Cons.prems, of now r]
  have ex: "expired_permission now (sweep_permission now r a) q \<longleftrightarrow> expired_permission now a q \<and> q \<noteq> r" for q
    by (auto simp: expired_permission_def s(2) split: option.splits)
  have ob: "owned_by {q. q = r \<and> expired_permission now a q} ch \<or> owned_by {q \<in> set rs. expired_permission now a q \<and> q \<noteq> r} ch
      \<longleftrightarrow> owned_by {q \<in> set (r # rs). expired_permission now a q} ch" for ch
    by (auto simp: owned_by_def split: option.splits)
  show ?case
    using Cons.IH [OF s(1)] by (auto simp: s(2,3) ex ob drop_channels_comp fun_eq_iff)
qed

lemma sweep_channel_maps:
  assumes inv: "alloc_inv a"
  shows "alloc_inv (sweep_channel now c a) \<and>
    chans (sweep_channel now c a) = (\<lambda>d. if d = c \<and> expired_channel now a d then None else chans a d) \<and>
    (\<forall>r. map_option (\<lambda>i. i\<lparr>pi_chns := lm_map_init\<rparr>) (perms (sweep_channel now c a) r) = map_option (\<lambda>i. i\<lparr>pi_chns := lm_map_init\<rparr>) (perms a r))"
proof (cases "expired_channel now a c")
  case True
  then obtain ch where ch: "chans a c = Some ch" "turn_time_before (ch_expiration_time ch) now"
    by (auto simp: expired_channel_def split: option.splits)
  then have e: "sweep_channel now c a = turn_channel_delete a c"
    using chans_at [OF ch(1)] by (simp add: sweep_channel_def client_ss_channel_timeout_handler_def)
  obtain p i m where d: "perms a p = Some i" "perms (turn_channel_delete a c) = (perms a)(p \<mapsto> i\<lparr>pi_chns := m\<rparr>)"
    "chans (turn_channel_delete a c) = (chans a)(c := None)"
    by (rule turn_channel_delete_maps [OF inv ch(1)])
  show ?thesis
    unfolding e d(2,3) using alloc_inv_delete [OF inv ch(1)] True d(1) by (auto simp: fun_eq_iff)
next
  case False
  then have "sweep_channel now c a = a"
    using chans_eq [of a c] by (auto simp: sweep_channel_def expired_channel_def)
  then show ?thesis using False inv by (auto simp: fun_eq_iff)
qed

lemma sweep_channels_maps:
  assumes "alloc_inv a"
  shows "alloc_inv (fold (sweep_channel now) cs a) \<and>
    chans (fold (sweep_channel now) cs a) = (\<lambda>d. if d \<in> set cs \<and> expired_channel now a d then None else chans a d) \<and>
    (\<forall>r. map_option (\<lambda>i. i\<lparr>pi_chns := lm_map_init\<rparr>) (perms (fold (sweep_channel now) cs a) r) =
      map_option (\<lambda>i. i\<lparr>pi_chns := lm_map_init\<rparr>) (perms a r))"
  using assms
proof (induction cs arbitrary: a)
  case (Cons c cs)
  note s = sweep_channel_maps [OF Cons.prems, of now c]
  have ex: "expired_channel now (sweep_channel now c a) d \<longleftrightarrow> expired_channel now a d \<and> d \<noteq> c" for d
    using s by (auto simp: expired_channel_def split: option.splits)
  show ?case
    using Cons.IH [of "sweep_channel now c a"] s by (auto simp: ex fun_eq_iff)
qed simp

lemma sweep_maps:
  assumes inv: "alloc_inv a" and v: "is_allocation_valid a"
  shows "alloc_inv (sweep_allocation_timed_events now a) \<and>
    (\<forall>r. map_option (\<lambda>i. i\<lparr>pi_chns := lm_map_init\<rparr>) (perms (sweep_allocation_timed_events now a) r) =
      (if expired_permission now a r then None else map_option (\<lambda>i. i\<lparr>pi_chns := lm_map_init\<rparr>) (perms a r))) \<and>
    chans (sweep_allocation_timed_events now a) =
      drop_channels (\<lambda>ch. owned_by {r. expired_permission now a r} ch \<or> turn_time_before (ch_expiration_time ch) now) (chans a)"
proof -
  let ?rs = "slot_refs (addr_to_perm a)"
  define b where "b = fold (sweep_permission now) ?rs a"
  note p = sweep_permissions_maps [OF inv, of now ?rs]
  have rs: "r \<in> set ?rs" if "expired_permission now a r" for r
    using that unfolding slot_refs_iff by (auto simp: expired_permission_def perms_def live_def split: option.splits)
  have cs: "c \<in> set (slot_refs (chns b))" if "expired_channel now b c" for c
    using that unfolding slot_refs_iff by (auto simp: expired_channel_def chans_def live_def split: option.splits)
  have e: "sweep_allocation_timed_events now a = fold (sweep_channel now) (slot_refs (chns b)) b"
    using v by (simp add: sweep_allocation_timed_events_def b_def Let_def)
  have set1: "{q \<in> set ?rs. expired_permission now a q} = {r. expired_permission now a r}" using rs by auto
  have perms_b: "perms b = (\<lambda>q. if expired_permission now a q then None else perms a q)"
    using p rs by (auto simp: b_def fun_eq_iff)
  have chans_b: "chans b = drop_channels (owned_by {r. expired_permission now a r}) (chans a)"
    using p set1 by (simp add: b_def)
  have inv_b: "alloc_inv b" using p by (simp add: b_def)
  note c = sweep_channels_maps [OF inv_b, of now "slot_refs (chns b)", folded e]
  have "chans (sweep_allocation_timed_events now a) = (\<lambda>d. if expired_channel now b d then None else chans b d)"
    using c cs by (auto simp: fun_eq_iff)
  then have "chans (sweep_allocation_timed_events now a) =
      drop_channels (\<lambda>ch. owned_by {r. expired_permission now a r} ch \<or> turn_time_before (ch_expiration_time ch) now) (chans a)"
    by (auto simp: chans_b expired_channel_def drop_channels_def fun_eq_iff split: option.splits)
  then show ?thesis using c by (auto simp: perms_b)
qed

text \<open>C12: The sweep of a valid allocation removes a permission exactly if its time has passed, and a
  channel exactly if its time or the time of its permission has passed; all other permissions
  and channels keep their addresses, numbers and times.\<close>

theorem sweep_removes_expired:
  assumes "alloc_inv a" "is_allocation_valid a"
  shows "(\<forall>r. map_option (\<lambda>i. (pi_addr i, pi_expiration_time i)) (perms (sweep_allocation_timed_events now a) r) =
      (case perms a r of Some i \<Rightarrow> if turn_time_before (pi_expiration_time i) now then None else Some (pi_addr i, pi_expiration_time i)
       | None \<Rightarrow> None)) \<and>
    (\<forall>c. chans (sweep_allocation_timed_events now a) c =
      (case chans a c of
         Some ch \<Rightarrow> if turn_time_before (ch_expiration_time ch) now \<or>
                      (\<exists>r i. ch_owner ch = Some r \<and> perms a r = Some i \<and> turn_time_before (pi_expiration_time i) now)
                   then None else Some ch
       | None \<Rightarrow> None))"
proof -
  let ?b = "sweep_allocation_timed_events now a"
  note s = sweep_maps [OF assms, of now]
  have ob: "owned_by {r. expired_permission now a r} ch \<longleftrightarrow>
      (\<exists>r i. ch_owner ch = Some r \<and> perms a r = Some i \<and> turn_time_before (pi_expiration_time i) now)" for ch
    by (auto simp: owned_by_def expired_permission_def split: option.splits)
  have "map_option (\<lambda>i. (pi_addr i, pi_expiration_time i)) (perms ?b r) =
      map_option (\<lambda>i. (pi_addr i, pi_expiration_time i)) (map_option (\<lambda>i. i\<lparr>pi_chns := lm_map_init\<rparr>) (perms ?b r))" for r
    by (simp add: option.map_comp comp_def)
  then have "map_option (\<lambda>i. (pi_addr i, pi_expiration_time i)) (perms ?b r) =
      (case perms a r of Some i \<Rightarrow> if turn_time_before (pi_expiration_time i) now then None else Some (pi_addr i, pi_expiration_time i)
       | None \<Rightarrow> None)" for r
    using s by (auto simp: expired_permission_def split: option.splits)
  moreover have "chans ?b c =
      (case chans a c of
         Some ch \<Rightarrow> if turn_time_before (ch_expiration_time ch) now \<or>
                      (\<exists>r i. ch_owner ch = Some r \<and> perms a r = Some i \<and> turn_time_before (pi_expiration_time i) now)
                   then None else Some ch
       | None \<Rightarrow> None)" for c
    using s by (auto simp: drop_channels_def ob split: option.splits)
  ultimately show ?thesis by blast
qed

definition sample_peer :: ioa_addr where
  "sample_peer = addr_set_any\<lparr>sa_family := AF_INET, sin_port := 0x3412, s_addr := 0x04030201\<rparr>"

definition valid_allocation :: allocation where
  "valid_allocation = init_allocation\<lparr>is_valid := True\<rparr>"

lemma valid_allocation_maps: "perms valid_allocation = (\<lambda>_. None)" "chans valid_allocation = (\<lambda>_. None)"
  using init_allocation_maps by (simp_all add: valid_allocation_def perms_def chans_def)

lemma alloc_inv_valid: "alloc_inv valid_allocation"
  using alloc_inv_init by (simp add: alloc_inv_def init_allocation_maps valid_allocation_maps)

lemma add_to_valid:
  "\<exists>a. allocation_add_permission valid_allocation addr = (Some (permission_index addr, 0), a) \<and> is_allocation_valid a"
  by (simp add: allocation_add_permission_def valid_allocation_def init_allocation_def init_turn_permission_hashtable_def
      free_slot_def find_slot_def slots_def numeral_3_eq_3 Let_def is_allocation_valid_def put_permission_def)

text \<open>A permission that is never refreshed is gone after a sweep at time 10.\<close>

theorem sweep_removes_expired_witness:
  "perms (snd (allocation_add_permission valid_allocation sample_peer)) (permission_index sample_peer, 0) \<noteq> None \<and>
   perms (sweep_allocation_timed_events 10 (snd (allocation_add_permission valid_allocation sample_peer)))
     (permission_index sample_peer, 0) = None"
proof -
  obtain a where a: "allocation_add_permission valid_allocation sample_peer = (Some (permission_index sample_peer, 0), a)"
    "is_allocation_valid a" using add_to_valid by blast
  have "allocation_get_permission valid_allocation sample_peer = None"
    using get_permission_None [OF alloc_inv_valid] by (simp add: valid_allocation_maps)
  then have inv: "alloc_inv a" by (rule alloc_inv_add_permission [OF alloc_inv_valid _ a(1)])
  have p: "perms a (permission_index sample_peer, 0) = Some (new_permission_info sample_peer)"
    using add_permission_maps(2) [OF a(1)] by simp
  have "turn_time_before (pi_expiration_time (new_permission_info sample_peer)) 10"
    by (simp add: new_permission_info_def zero_permission_info_def turn_time_before_def)
  then have "map_option (\<lambda>i. (pi_addr i, pi_expiration_time i)) (perms (sweep_allocation_timed_events 10 a) (permission_index sample_peer, 0)) = None"
    using sweep_removes_expired [OF inv a(2), of 10] p by simp
  then show ?thesis using a p by simp
qed

section \<open>Reachable sessions\<close>

text \<open>The runs of a session under a configuration: it starts without permissions and channels;
  CreatePermission and ChannelBind requests are handled at any time with any content, expired
  permissions and channels are swept, and other operations change neither the permissions nor
  the channels nor the realm.\<close>

inductive session_run :: "addr_mapping \<Rightarrow> engine \<Rightarrow> turn_turnserver \<Rightarrow> super_session \<Rightarrow> bool"
  for m :: addr_mapping and e :: engine and server :: turn_turnserver where
  start: "addr_to_perm (alloc ss) = addr_to_perm init_allocation \<Longrightarrow> chns (alloc ss) = chns init_allocation \<Longrightarrow>
    session_run m e server ss"
| create_permission: "session_run m e server ss \<Longrightarrow> nd_ok nd \<Longrightarrow>
    handle_turn_create_permission m e rnd (server\<lparr>ctime := now\<rparr>) tid nd (h, ss) = Some (ret, h', ss') \<Longrightarrow> session_run m e server ss'"
| channel_bind: "session_run m e server ss \<Longrightarrow> nd_ok nd \<Longrightarrow>
    handle_turn_channel_bind m e rnd (server\<lparr>ctime := now\<rparr>) tid nd (h, ss) = Some (h', ss') \<Longrightarrow> session_run m e server ss'"
| sweep: "session_run m e server ss \<Longrightarrow> session_run m e server (ss\<lparr>alloc := sweep_allocation_timed_events now (alloc ss)\<rparr>)"
| other: "session_run m e server ss \<Longrightarrow> addr_to_perm (alloc ss') = addr_to_perm (alloc ss) \<Longrightarrow> chns (alloc ss') = chns (alloc ss) \<Longrightarrow>
    realm_name ss' = realm_name ss \<Longrightarrow> session_run m e server ss'"

lemma sweep_inv:
  assumes "session_inv cfg ss"
  shows "session_inv cfg (ss\<lparr>alloc := sweep_allocation_timed_events now (alloc ss)\<rparr>)"
proof (cases "is_allocation_valid (alloc ss)")
  case True
  have a: "alloc_inv (alloc ss)" using assms by (simp add: session_inv_def)
  note s = sweep_maps [OF a True, of now]
  have "perms_good cfg (realm_name ss) (sweep_allocation_timed_events now (alloc ss))"
    unfolding perms_good_def
  proof (intro allI impI)
    fix r i
    assume i: "perms (sweep_allocation_timed_events now (alloc ss)) r = Some i"
    have "map_option (\<lambda>i. i\<lparr>pi_chns := lm_map_init\<rparr>) (perms (sweep_allocation_timed_events now (alloc ss)) r) =
      (if expired_permission now (alloc ss) r then None else map_option (\<lambda>i. i\<lparr>pi_chns := lm_map_init\<rparr>) (perms (alloc ss) r))"
      using s by blast
    then have "map_option (\<lambda>i. i\<lparr>pi_chns := lm_map_init\<rparr>) (perms (alloc ss) r) = Some (i\<lparr>pi_chns := lm_map_init\<rparr>)"
      unfolding i by (simp split: if_splits)
    then obtain j where "perms (alloc ss) r = Some j" "j\<lparr>pi_chns := lm_map_init\<rparr> = i\<lparr>pi_chns := lm_map_init\<rparr>" by auto
    then have "perms (alloc ss) r = Some j" "pi_addr i = pi_addr j"
      by (auto dest!: arg_cong [of _ _ pi_addr])
    then show "good_peer_addr cfg (Some (realm_name ss)) (pi_addr i)"
      using assms by (simp add: session_inv_def perms_good_def)
  qed
  then show ?thesis using s by (simp add: session_inv_def)
next
  case False
  then show ?thesis using assms by (simp add: sweep_allocation_timed_events_def)
qed

lemma session_run_inv: "session_run m e server ss \<Longrightarrow> session_inv (peers server) ss"
proof (induction rule: session_run.induct)
  case (start ss)
  then have "perms (alloc ss) = perms init_allocation" "chans (alloc ss) = chans init_allocation"
    by (simp_all add: perms_def chans_def)
  then show ?case using alloc_inv_init by (simp add: session_inv_def alloc_inv_def perms_good_def init_allocation_maps)
next
  case (create_permission ss nd rnd now tid h ret h' ss')
  then show ?case using create_permission_inv [of nd "server\<lparr>ctime := now\<rparr>" ss] by simp
next
  case (channel_bind ss nd rnd now tid h h' ss')
  then show ?case using channel_bind_inv [of nd "server\<lparr>ctime := now\<rparr>" ss] by simp
next
  case (sweep ss now)
  then show ?case by (simp add: sweep_inv)
next
  case (other ss ss')
  then have "perms (alloc ss') = perms (alloc ss)" "chans (alloc ss') = chans (alloc ss)" by (simp_all add: perms_def chans_def)
  then show ?case using other by (simp add: session_inv_def alloc_inv_def perms_good_def)
qed

end
