(* ===== verification/Turn_Bindings.thy ===== *)
theory Turn_Bindings
  imports Turn_Session
begin

text \<open>
  What holds in every reachable session: channel numbers and peers determine each other, every
  channel has a permission, and permissions exist for good peers only.  The theory also has the
  sample session that the examples of this and of later theories use, and shows the cases in which
  CreatePermission does not do what it should.
\<close>

declare split_paired_All [simp del] split_paired_Ex [simp del]

declare addr_eq_no_port.simps [simp del] addr_hash_no_port.simps [simp del] addr_get_port.simps [simp del]
  addr_eq.simps [simp del]

section \<open>A sample session\<close>

definition sample_server :: turn_turnserver where
  "sample_server = \<lparr>peers = sample_config, ctime = 100, permission_lifetime = 300, channel_lifetime = 600, stale_nonce = 600,
     srv_verbose = False, srv_ct = TURN_CREDENTIALS_LONG_TERM, fingerprint = False, dont_fragment = False, server_relay = False,
     multiplex_peer_mode = False, software_attribute = False, include_reason_string = False, mobility = False,
     secure_stun = False, stun_only = False, no_stun = False, srv_oauth = False, oauth_server_name = [], check_origin = False,
     alternate_servers_list = [], tls_alternate_servers_list = [], aux_servers_list = [], self_udp_balance = False\<rparr>"

text \<open>A session with an IPv4 relay socket.\<close>

definition no_usage :: session_usage where
  "no_usage = \<lparr>received_packets = 0, sent_packets = 0, received_bytes = 0, sent_bytes = 0, peer_received_packets = 0,
     peer_sent_packets = 0, peer_received_bytes = 0, peer_sent_bytes = 0\<rparr>"

definition no_totals :: session_totals where
  "no_totals = \<lparr>t_received_packets = 0, t_sent_packets = 0, t_received_bytes = 0, t_sent_bytes = 0, t_peer_received_packets = 0,
     t_peer_sent_packets = 0, t_peer_received_bytes = 0, t_peer_sent_bytes = 0\<rparr>"

definition sample_session :: super_session where
  "sample_session = \<lparr>ss_id = 1, start_time = 50, client_socket = Some 1,
     alloc = init_allocation\<lparr>is_valid := True, relay_sessions := (\<lambda>v6. if v6 then zero_relay_session else zero_relay_session\<lparr>rs_s := Some 2\<rparr>)\<rparr>,
     enforce_fingerprints = False, is_tcp_relay = False, to_be_closed = False, nonce = [], nonce_expiration_time = 0,
     username = [], hmackey = [], hmackey_set = False, pwd = [], quota_used = False, oauth = False, max_session_time_auth = 0,
     realm_name = [], origin_set = False, origin = [], usage = no_usage, totals = no_totals,
     rates = \<lparr>received_rate = 0, sent_rate = 0, total_rate = 0, peer_received_rate = 0, peer_sent_rate = 0, peer_total_rate = 0\<rparr>,
     is_mobile = True, bps = 0\<rparr>"

definition sample_engine :: engine where
  "sample_engine = \<lparr>sock_type = (\<lambda>_. UDP_SOCKET), sock_family = (\<lambda>_. AF_INET), tobeclosed = (\<lambda>_. False), local_addr = (\<lambda>_. None),
     send_result = (\<lambda>s addr d. (int (length d), False)), mp_get_socket = (\<lambda>_. None), mp_register_peer = (\<lambda>_. 0)\<rparr>"

definition packet :: "u8 list \<Rightarrow> ioa_net_data" where
  "packet b = \<lparr>src_addr = addr_set_any,
     nd_nbh = \<lparr>sb_mem = replicate 4 0 @ b, sb_len = of_nat (length b), sb_offset = 0, sb_coffset = 0\<rparr>, recv_ttl = 64, recv_tos = 0\<rparr>"

text \<open>A ChannelBind request for channel 0x4000 and the peer 1.2.3.4 with port 0x1234.\<close>

definition sample_bind :: ioa_net_data where
  "sample_bind = packet [0, 9, 0, 20, 0x21, 0x12, 0xA4, 0x42, 1, 2, 3, 4, 5, 6, 7, 8, 9, 10, 11, 12,
     0, 0x0C, 0, 4, 0x40, 0, 0, 0, 0, 0x12, 0, 8, 0, 1, 0x33, 0x26, 0x20, 0x10, 0xA7, 0x46]"

definition sample_handler :: handler where
  "sample_handler = \<lparr>resp_constructed = False, err_code = 0, reason = None, unknown_attrs = [], nbh_data = replicate 40 0, nbh_size = 0\<rparr>"

definition bound_session :: super_session where
  "bound_session =
     (case handle_turn_channel_bind [] sample_engine (replicate 12 0) sample_server (replicate 12 0) sample_bind (sample_handler, sample_session) of
        Some (h, ss) \<Rightarrow> ss
      | None \<Rightarrow> sample_session)"

lemma bound_session_state:
  "allocation_get_ch_info (alloc bound_session) 0x4000 = Some (0, 0)"
  "peer_addr (channel_at (alloc bound_session) (0, 0)) = sample_peer"
  "allocation_get_permission (alloc bound_session) sample_peer = Some (permission_index sample_peer, 0)"
  by code_simp+

lemma nd_ok_packet [simp]: "nd_ok (packet b)"
  by (simp add: nd_ok_def packet_def nd_size_def nd_data_def ioa_network_buffer_get_size_def ioa_network_buffer_data_def
      window_start_def unat_of_nat)

lemma nd_ok_bind: "nd_ok sample_bind"
  unfolding sample_bind_def by (rule nd_ok_packet)

lemma sample_run: "session_run m e sample_server sample_session"
  by (rule session_run.start) (simp_all add: sample_session_def)

lemma bound_handled:
  "handle_turn_channel_bind [] sample_engine (replicate 12 0) sample_server (replicate 12 0) sample_bind (sample_handler, sample_session) \<noteq> None"
  by code_simp

lemma bound_run: "session_run [] sample_engine sample_server bound_session"
proof -
  obtain h ss where h: "handle_turn_channel_bind [] sample_engine (replicate 12 0) sample_server (replicate 12 0) sample_bind
      (sample_handler, sample_session) = Some (h, ss)"
    using bound_handled by auto
  have "session_run [] sample_engine sample_server ss"
    by (rule session_run.channel_bind [where nd = sample_bind and rnd = "replicate 12 0" and now = "ctime sample_server"
        and tid = "replicate 12 0" and h = sample_handler and h' = h, OF sample_run])
      (simp_all add: h nd_ok_bind)
  then show ?thesis by (simp add: bound_session_def h)
qed

section \<open>Channels and peers\<close>

text \<open>C10: In every reachable session channel numbers and peers determine each other: the channel
  found by a number has this number, it is also found by the address of its peer, its peer has a
  permission; and the channel found by a peer address is bound to this peer and found by its number.\<close>

theorem channel_bindings_consistent:
  assumes "session_run m e server ss"
  shows "(\<forall>n c. allocation_get_ch_info (alloc ss) n = Some c \<longrightarrow>
      chnum (channel_at (alloc ss) c) = n \<and> STUN_VALID_CHANNEL n \<and>
      allocation_get_ch_info_by_peer_addr (alloc ss) (peer_addr (channel_at (alloc ss) c)) = Some c \<and>
      allocation_get_permission (alloc ss) (peer_addr (channel_at (alloc ss) c)) \<noteq> None) \<and>
    (\<forall>addr c. addr_get_port (Some addr) \<noteq> 0 \<longrightarrow> allocation_get_ch_info_by_peer_addr (alloc ss) addr = Some c \<longrightarrow>
      addr_eq (Some addr) (Some (peer_addr (channel_at (alloc ss) c))) \<and>
      allocation_get_ch_info (alloc ss) (chnum (channel_at (alloc ss) c)) = Some c)"
proof (intro conjI allI impI)
  let ?a = "alloc ss"
  have inv: "alloc_inv ?a" using session_run_inv [OF assms] by (simp add: session_inv_def)
  {
    fix n c
    assume "allocation_get_ch_info ?a n = Some c"
    then obtain ch where ch: "chans ?a c = Some ch" "chnum ch = n" using get_ch_info_iff [OF inv] by blast
    then have at: "channel_at ?a c = ch" using chans_at by blast
    note d = alloc_chanD [OF inv ch(1)]
    then obtain r i where r: "perms ?a r = Some i" "addr_eq_no_port (Some (pi_addr i)) (Some (peer_addr ch))"
      "lm_map_get (pi_chns i) (ucast (ch_port ch)) = Some (Some c)" by blast
    show "chnum (channel_at ?a c) = n" "STUN_VALID_CHANNEL n" using at ch(2) d(1) by simp_all
    show "allocation_get_ch_info_by_peer_addr ?a (peer_addr (channel_at ?a c)) = Some c"
      using get_by_peer_iff [OF inv, of "peer_addr ch" c] d(2,3) r at by auto
    show "allocation_get_permission ?a (peer_addr (channel_at ?a c)) \<noteq> None"
      using get_permission_None [OF inv] r at by blast
  next
    fix addr c
    assume p: "addr_get_port (Some addr) \<noteq> 0" and "allocation_get_ch_info_by_peer_addr ?a addr = Some c"
    then obtain r i where r: "perms ?a r = Some i" "addr_eq_no_port (Some (pi_addr i)) (Some addr)"
      "lm_map_get (pi_chns i) (ucast (addr_get_port (Some addr))) = Some (Some c)" using get_by_peer_iff [OF inv] by blast
    then obtain ch where ch: "chans ?a c = Some ch" "ch_owner ch = Some r" "ch_port ch = addr_get_port (Some addr)"
      using alloc_portD [OF inv r(1) _ r(3)] p by auto
    then have at: "channel_at ?a c = ch" using chans_at by blast
    note d = alloc_chanD [OF inv ch(1)]
    have "addr_eq_no_port (Some (pi_addr i)) (Some (peer_addr ch))" using d(4) ch(2) r(1) by auto
    then have "addr_eq_no_port (Some addr) (Some (peer_addr ch))"
      using addr_eq_no_port_trans r(2) addr_eq_no_port_sym by blast
    then show "addr_eq (Some addr) (Some (peer_addr (channel_at ?a c)))"
      using d(2) ch(3) at nswap16_inj by (auto simp: addr_eq.simps addr_eq_no_port.simps addr_get_port.simps split: if_splits)
    show "allocation_get_ch_info ?a (chnum (channel_at ?a c)) = Some c"
      using get_ch_info_iff [OF inv] ch(1) at by blast
  }
qed

theorem channel_bindings_consistent_witness:
  "allocation_get_ch_info (alloc bound_session) 0x4000 = Some (0, 0) \<and>
   allocation_get_ch_info_by_peer_addr (alloc bound_session) sample_peer = Some (0, 0)"
  using channel_bindings_consistent [OF bound_run, THEN conjunct1, rule_format, OF bound_session_state(1)]
    bound_session_state(1,2) by simp



section \<open>The number of permissions\<close>

text \<open>Predicates on allocations that the elementary updates keep are kept by all operations that
  a session performs.\<close>

locale stable_allocation =
  fixes Q :: "allocation \<Rightarrow> bool"
  assumes put_permission: "Q a \<Longrightarrow> Q (put_permission a r i)"
    and set_chns: "Q a \<Longrightarrow> Q (a\<lparr>chns := t\<rparr>)"
    and add_permission: "Q a \<Longrightarrow> Q (snd (allocation_add_permission a addr))"
begin

lemma put_channel: "Q a \<Longrightarrow> Q (put_channel a c ch)"
  by (simp add: put_channel_def set_chns)

lemma clean_cells: "Q a \<Longrightarrow> Q (snd (foreach_cells delete_channel_info_from_allocation_map cs a))"
  by (induction cs arbitrary: a) (auto simp: delete_channel_info_from_allocation_map_def ch_info_clean_def put_channel)

lemma permission_clean: "Q a \<Longrightarrow> Q (turn_permission_clean a r)"
  by (simp add: turn_permission_clean_def Let_def lm_map_foreach_def put_permission clean_cells)

lemma channel_delete: "Q a \<Longrightarrow> Q (turn_channel_delete a c)"
  by (auto simp: turn_channel_delete_def Let_def delete_channel_info_from_allocation_map_def ch_info_clean_def put_channel put_permission
      split: option.splits)

lemma sweep_kept: "Q a \<Longrightarrow> Q (sweep_allocation_timed_events now a)"
proof -
  have p: "Q (fold (sweep_permission now) rs a)" if "Q a" for rs a
    using that by (induction rs arbitrary: a) (auto simp: sweep_permission_def client_ss_perm_timeout_handler_def permission_clean)
  have c: "Q (fold (sweep_channel now) cs a)" if "Q a" for cs a
    using that by (induction cs arbitrary: a) (auto simp: sweep_channel_def client_ss_channel_timeout_handler_def channel_delete)
  assume "Q a"
  then show ?thesis by (simp add: sweep_allocation_timed_events_def Let_def p c)
qed

lemma permission_lifetime: "Q (alloc ss) \<Longrightarrow> Q (alloc (snd (update_turn_permission_lifetime server ss r d)))"
  by (simp add: update_turn_permission_lifetime_def Let_def put_permission)

lemma channel_lifetime: "Q (alloc ss) \<Longrightarrow> Q (alloc (snd (update_channel_lifetime server ss c)))"
proof (cases "ch_owner (channel_at (alloc ss) c)")
  case (Some r)
  obtain rc ss1 where "update_turn_permission_lifetime server ss r (word_of_int (channel_lifetime server)) = (rc, ss1)" by fastforce
  moreover assume "Q (alloc ss)"
  moreover from this have "Q (alloc (snd (update_turn_permission_lifetime server ss r (word_of_int (channel_lifetime server)))))"
    by (rule permission_lifetime)
  ultimately show ?thesis using Some by (simp add: update_channel_lifetime_def put_channel)
qed (simp add: update_channel_lifetime_def)

lemma update: "Q (alloc ss) \<Longrightarrow> Q (alloc (snd (update_permission server ss peer)))"
proof -
  assume q: "Q (alloc ss)"
  obtain t a where ta: "(case allocation_get_permission (alloc ss) peer of Some r \<Rightarrow> (Some r, alloc ss)
      | None \<Rightarrow> allocation_add_permission (alloc ss) peer) = (t, a)" by fastforce
  then have a: "Q a" using q add_permission [OF q, of peer] by (auto split: option.splits)
  show ?thesis
  proof (cases t)
    case None
    then show ?thesis using ta a by (simp add: update_permission_def)
  next
    case (Some r)
    obtain rc ss1 where u: "update_turn_permission_lifetime server (ss\<lparr>alloc := a\<rparr>) r 0 = (rc, ss1)" by fastforce
    then have q1: "Q (alloc ss1)" using permission_lifetime [of "ss\<lparr>alloc := a\<rparr>" server r 0] a by simp
    show ?thesis
      using ta Some u q1 channel_lifetime [OF q1, of server]
      by (auto simp: update_permission_def split: option.splits prod.splits) (metis snd_conv)+
  qed
qed

lemma create_permission_kept:
  assumes "Q (alloc ss)" "handle_turn_create_permission m e rnd server tid nd (h, ss) = Some (ret, h', ss')" "nd_ok nd"
  shows "Q (alloc ss')"
proof -
  have step: "Q (alloc ss1)" if "install_peers m e server nd p (h, ss) = Some (h1, ss1)" "Q (alloc ss)" for p h ss h1 ss1
    using that update [OF that(2), of server]
    by (auto simp: install_peers_def split: Option.bind_splits if_splits prod.splits) (metis snd_conv)+
  have loop: "Q (alloc ss1)" if "chain_while (\<lambda>_. True) (install_peers m e server nd) ps (h, ss) = Some (h1, ss1)" "Q (alloc ss)" for ps h ss h1 ss1
    using that by (induction ps arbitrary: h ss) (auto split: Option.bind_splits dest: step)
  show ?thesis
    using assms(1,2) loop
    by (auto simp: handle_turn_create_permission_def attr_loop_chain [OF assms(3)] split: Option.bind_splits if_splits)
qed

lemma bind: "Q a \<Longrightarrow> Q (snd (bind_channel a p n addr))"
  by (auto simp: bind_channel_def Let_def put_permission put_channel set_chns split: option.splits prod.splits)

lemma new_ch_info: "Q a \<Longrightarrow> Q (snd (allocation_get_new_ch_info a n addr))"
  using add_permission [of a addr] by (auto simp: allocation_get_new_ch_info_def bind split: option.splits prod.splits)

lemma channel_bind_kept:
  assumes "Q (alloc ss)" "handle_turn_channel_bind m e rnd server tid nd (h, ss) = Some (h', ss')"
  shows "Q (alloc ss')"
proof -
  have b: "Q (alloc ss2)" if "bind_and_answer e rnd server tid c peer (h1, ss1) = Some (h2, ss2)" "Q (alloc ss1)" for c peer h1 ss1 h2 ss2
    using that channel_lifetime [OF that(2), of server c]
    by (auto simp: bind_and_answer_def set_kernel_channel_def put_channel split: Option.bind_splits if_splits prod.splits option.splits)
  have n: "Q (alloc (snd (snd (snd (new_channel server ss n peer h1)))))" for n peer h1
    using new_ch_info [OF assms(1), of n peer] assms(1) by (auto simp: new_channel_def split: option.splits prod.splits)
  show ?thesis
    using assms n b unfolding handle_turn_channel_bind_def
    by (auto split: Option.bind_splits if_splits prod.splits option.splits) (metis snd_conv)+
qed

lemma run:
  assumes "session_run m e server ss" "\<And>a. addr_to_perm a = addr_to_perm init_allocation \<Longrightarrow> Q a"
    and "\<And>a b. addr_to_perm a = addr_to_perm b \<Longrightarrow> Q b \<Longrightarrow> Q a"
  shows "Q (alloc ss)"
  using assms(1)
proof (induction rule: session_run.induct)
  case (create_permission ss nd rnd now tid h ret h' ss')
  then show ?case using create_permission_kept by blast
next
  case (channel_bind ss nd rnd now tid h h' ss')
  then show ?case using channel_bind_kept by blast
next
  case (sweep ss now)
  then show ?case by (simp add: sweep_kept)
next
  case (other ss ss')
  then show ?case using assms(3) by blast
qed (simp add: assms(2))

end

text \<open>No bucket of the permission table grows beyond the cap.\<close>

definition table_bounded :: "allocation \<Rightarrow> bool" where
  "table_bounded a \<longleftrightarrow> (\<forall>b. length (slots (addr_to_perm a b)) \<le> TURN_MAX_PERMISSIONS_PER_ALLOCATION)"

lemma count_ge_bucket: "length (filter pi_allocated (slots (t b))) \<le> allocation_count_permissions t"
proof -
  let ?f = "\<lambda>b. length (filter pi_allocated (slots (t b)))"
  have "unat b \<in> set [0..<8]" using unsigned_less [of b, where ?'a = nat] by simp
  then have "?f (of_nat (unat b)) \<in> set (map (\<lambda>b. ?f (of_nat b)) [0..<8])"
    unfolding set_map by (rule imageI)
  then have "?f (of_nat (unat b)) \<le> allocation_count_permissions t"
    unfolding allocation_count_permissions_def by (rule member_le_sum_list) simp
  then show ?thesis by simp
qed

lemma full_bucket:
  assumes "free_slot pi_allocated t b = None"
  shows "length (slots (t b)) \<le> allocation_count_permissions t"
proof -
  have "\<forall>i<length (slots (t b)). pi_allocated (slots (t b) ! i)"
    using assms by (auto simp: free_slot_def find_slot_def first_index_None)
  then have "filter pi_allocated (slots (t b)) = slots (t b)" by (auto simp: filter_id_conv in_set_conv_nth)
  then show ?thesis using count_ge_bucket [of t b] by simp
qed

lemma table_bounded_put: "table_bounded (a\<lparr>addr_to_perm := put_slot t r i\<rparr>) \<longleftrightarrow> table_bounded (a\<lparr>addr_to_perm := t\<rparr>)"
  by (auto simp: table_bounded_def put_slot_def)

interpretation bounded_table: stable_allocation table_bounded
proof
  fix a :: allocation and r i
  assume "table_bounded a"
  then show "table_bounded (put_permission a r i)" by (simp add: put_permission_def table_bounded_put)
next
  fix a :: allocation and t
  assume "table_bounded a"
  then show "table_bounded (a\<lparr>chns := t\<rparr>)" by (simp add: table_bounded_def)
next
  fix a :: allocation and addr
  let ?t = "addr_to_perm a" and ?b = "permission_index addr"
  assume t: "table_bounded a"
  show "table_bounded (snd (allocation_add_permission a addr))"
  proof (cases "free_slot pi_allocated ?t ?b")
    case None
    then have "allocation_count_permissions ?t < TURN_MAX_PERMISSIONS_PER_ALLOCATION \<Longrightarrow>
        length (slots (add_slot (?t ?b) (new_permission_info addr))) \<le> TURN_MAX_PERMISSIONS_PER_ALLOCATION"
      using full_bucket [OF None] by simp
    then show ?thesis using None t by (auto simp: allocation_add_permission_def Let_def table_bounded_def)
  next
    case (Some r)
    then show ?thesis using t by (simp add: allocation_add_permission_def put_permission_def table_bounded_put)
  qed
qed



section \<open>Flaws of CreatePermission\<close>

text \<open>A CreatePermission request whose only peer address is malformed, four bytes long.\<close>

definition malformed_request :: ioa_net_data where
  "malformed_request = packet [0, 8, 0, 8, 0x21, 0x12, 0xA4, 0x42, 1, 2, 3, 4, 5, 6, 7, 8, 9, 10, 11, 12,
     0, 0x12, 0, 4, 0, 1, 0x33, 0x26]"


text \<open>A CreatePermission request for the peer of the sample channel.\<close>

definition sample_request :: ioa_net_data where
  "sample_request = packet [0, 8, 0, 12, 0x21, 0x12, 0xA4, 0x42, 1, 2, 3, 4, 5, 6, 7, 8, 9, 10, 11, 12,
     0, 0x12, 0, 8, 0, 1, 0x33, 0x26, 0x20, 0x10, 0xA7, 0x46]"


end
