(* ===== verification/Turn_Relay.thy ===== *)
theory Turn_Relay
  imports Turn_Bindings Stun_Frame Stun_Crc
begin

text \<open>
  The data path of a session (ns_turn_server.c): Send indications and channel messages of the
  client go out of the relay socket to a peer, packets of a peer go to the client as channel
  messages or as Data indications.  The output of a handler is the list of the packets it sends;
  what the engine does with a packet, its return value and whether it was dropped for its
  bandwidth, is send_result of the engine.  The traffic counters of the session are kept and
  reported as turn_report_session_usage of ns_ioalib_engine_impl.c does it.
\<close>

declare split_paired_All [simp del] split_paired_Ex [simp del]

declare addr_eq_no_port.simps [simp del] addr_hash_no_port.simps [simp del] addr_get_port.simps [simp del]
  addr_eq.simps [simp del]

section \<open>Output and accounting\<close>

datatype sent_packet =
  To_peer ioa_socket_handle ioa_addr "u8 list" int int bool
| To_client ioa_socket_handle "u8 list" int int

text \<open>is_stream_socket of apputils.c.\<close>

fun is_stream_socket :: "SOCKET_TYPE \<Rightarrow> bool" where
  "is_stream_socket TCP_SOCKET = True"
| "is_stream_socket TCP_SOCKET_PROXY = True"
| "is_stream_socket TLS_SOCKET = True"
| "is_stream_socket TENTATIVE_TCP_SOCKET = True"
| "is_stream_socket SCTP_SOCKET = True"
| "is_stream_socket TLS_SCTP_SOCKET = True"
| "is_stream_socket TENTATIVE_SCTP_SOCKET = True"
| "is_stream_socket _ = False"

definition add_totals :: "session_usage \<Rightarrow> session_totals \<Rightarrow> session_totals" where
  "add_totals u t = \<lparr>
     t_received_packets = t_received_packets t + ucast (received_packets u),
     t_sent_packets = t_sent_packets t + ucast (sent_packets u),
     t_received_bytes = t_received_bytes t + ucast (received_bytes u),
     t_sent_bytes = t_sent_bytes t + ucast (sent_bytes u),
     t_peer_received_packets = t_peer_received_packets t + peer_received_packets u,
     t_peer_sent_packets = t_peer_sent_packets t + peer_sent_packets u,
     t_peer_received_bytes = t_peer_received_bytes t + peer_received_bytes u,
     t_peer_sent_bytes = t_peer_sent_bytes t + peer_sent_bytes u\<rparr>"

definition session_rates_of :: "session_totals \<Rightarrow> turn_time_t \<Rightarrow> session_rates" where
  "session_rates_of t ct =
     (let rate = (\<lambda>n :: u64. ucast (ucast (n div ucast ct) :: u32));
          prate = (\<lambda>n :: u32. ucast (n div ct) :: u64);
          r = rate (t_received_bytes t); s = rate (t_sent_bytes t);
          pr = prate (t_peer_received_bytes t); ps = prate (t_peer_sent_bytes t)
      in \<lparr>received_rate = r, sent_rate = s, total_rate = r + s, peer_received_rate = pr, peer_sent_rate = ps,
          peer_total_rate = pr + ps\<rparr>)"

definition turn_report_session_usage :: "turn_turnserver \<Rightarrow> super_session \<Rightarrow> bool \<Rightarrow> super_session" where
  "turn_report_session_usage server ss force_invalid =
     (let u = usage ss in
      if (received_packets u \<noteq> 0 \<or> sent_packets u \<noteq> 0 \<or> force_invalid) \<and>
         ((received_packets u + sent_packets u + peer_received_packets u + peer_sent_packets u) AND 4095 = 0 \<or> force_invalid)
      then
        (let t = add_totals u (totals ss); ct = ctime server
         in ss\<lparr>totals := t, rates := (if ct \<noteq> start_time ss then session_rates_of t (ct - start_time ss) else rates ss),
              usage := no_usage\<rparr>)
      else ss)"

text \<open>Sending without a socket fails.\<close>

definition send_data_from_ioa_socket_nbh ::
    "engine \<Rightarrow> ioa_socket_handle option \<Rightarrow> ioa_addr option \<Rightarrow> u8 list \<Rightarrow> int \<times> bool" where
  "send_data_from_ioa_socket_nbh e s dest d = (case s of None \<Rightarrow> (- 1, False) | Some s \<Rightarrow> send_result e s dest d)"

definition write_client_connection ::
    "engine \<Rightarrow> turn_turnserver \<Rightarrow> super_session \<Rightarrow> u8 list \<Rightarrow> int \<Rightarrow> int \<Rightarrow> int \<times> super_session \<times> sent_packet list" where
  "write_client_connection e server ss d ttl tos =
     (case client_socket ss of
        None \<Rightarrow> (- 1, ss, [])
      | Some s \<Rightarrow>
          (case send_data_from_ioa_socket_nbh e (Some s) None d of (ret, skip) \<Rightarrow>
             (ret,
              if \<not> skip \<and> ret > - 1
              then turn_report_session_usage server
                     (ss\<lparr>usage := (usage ss)\<lparr>sent_packets := sent_packets (usage ss) + 1,
                                             sent_bytes := sent_bytes (usage ss) + of_nat (length d)\<rparr>\<rparr>) False
              else ss,
              [To_client s d ttl tos])))"

section \<open>From the client to peers\<close>

text \<open>The loop of handle_turn_send: its state is the flag set_df, the peer, and the length and the
  position of the data, which are -1 and None before a Data attribute.\<close>

type_synonym send_request = "bool \<times> ioa_addr \<times> int \<times> nat option"

definition scan_send ::
    "addr_mapping \<Rightarrow> turn_turnserver \<Rightarrow> ioa_net_data \<Rightarrow> nat \<Rightarrow> handler \<times> send_request \<Rightarrow> (handler \<times> send_request) option" where
  "scan_send m server nd p s = do {
     let (h, set_df, peer, len, v) = s;
     t \<leftarrow> stun_attr_get_type (nd_data nd) (Some p);
     if SKIP_ATTRIBUTES t then Some s
     else if t = uint STUN_ATTRIBUTE_DONT_FRAGMENT then
       (if \<not> dont_fragment server then Some (h\<lparr>unknown_attrs := unknown_attrs h @ [nswap16 (word_of_int t)]\<rparr>, set_df, peer, len, v)
        else Some (h, True, peer, len, v))
     else if t = uint STUN_ATTRIBUTE_XOR_PEER_ADDRESS then do {
       (_, peer) \<leftarrow> stun_attr_get_addr_str m (nd_data nd) (nd_size nd) (Some p) None;
       Some (h, set_df, peer, len, v)
     }
     else if t = uint STUN_ATTRIBUTE_DATA then
       (if len \<ge> 0 then Some (set_error 400 ''Data duplication'' h, set_df, peer, len, v)
        else do {
          len \<leftarrow> stun_attr_get_len (nd_data nd) (Some p);
          v \<leftarrow> stun_attr_get_value (nd_data nd) (Some p);
          Some (h, set_df, peer, len, v)
        })
     else Some (add_unknown t h, set_df, peer, len, v)
   }"

text \<open>The window of the buffer is moved to the data, which is then sent.\<close>

definition data_window :: "stun_buffer \<Rightarrow> int \<Rightarrow> nat option \<Rightarrow> int \<times> stun_buffer" where
  "data_window nbh len v =
     (case v of
        Some q \<Rightarrow>
          if len > 0 then (len, ioa_network_buffer_add_offset_size nbh (of_nat q) 0 (word_of_int len))
          else (0, ioa_network_buffer_set_size nbh 0)
      | None \<Rightarrow> (0, ioa_network_buffer_set_size nbh 0))"

definition send_to_peer ::
    "engine \<Rightarrow> turn_turnserver \<Rightarrow> ioa_net_data \<Rightarrow> send_request \<Rightarrow> super_session \<Rightarrow> super_session \<times> sent_packet list" where
  "send_to_peer e server nd = (\<lambda>(set_df, peer, len, v) ss.
     let relay_s = get_relay_socket (alloc ss) (sa_family peer);
         (len, nbh) = data_window (nd_nbh nd) len v;
         (rc, skip) = send_data_from_ioa_socket_nbh e relay_s (Some peer) (payload nbh)
     in (if \<not> skip
         then turn_report_session_usage server
                (ss\<lparr>usage := (usage ss)\<lparr>peer_sent_packets := peer_sent_packets (usage ss) + 1,
                                        peer_sent_bytes := peer_sent_bytes (usage ss) + word_of_int len\<rparr>\<rparr>) False
         else ss,
         case relay_s of Some s \<Rightarrow> [To_peer s peer (payload nbh) (recv_ttl nd - 1) (recv_tos nd) set_df] | None \<Rightarrow> []))"

definition handle_turn_send ::
    "addr_mapping \<Rightarrow> engine \<Rightarrow> turn_turnserver \<Rightarrow> ioa_net_data \<Rightarrow> handler \<times> super_session \<Rightarrow>
     (handler \<times> super_session \<times> sent_packet list) option" where
  "handle_turn_send m e server nd s = do {
     let (h, ss) = s;
     if is_tcp_relay ss then Some (set_error 403 ''Send cannot be used with TCP relay'' h, ss, [])
     else if \<not> is_allocation_valid (alloc ss) \<or> recv_ttl nd = 0 then Some (h, ss, [])
     else do {
       (h, req) \<leftarrow> attr_loop nd (\<lambda>(h, _). scanning h) (scan_send m server nd) (h, False, addr_set_any, - 1, None);
       let (set_df, peer, len, v) = req;
       if err_code h \<noteq> 0 then Some (h, ss, [])
       else if unknown_attrs h \<noteq> [] then Some (h\<lparr>err_code := 420\<rparr>, ss, [])
       else if \<not> addr_any (Some peer) \<and> len \<ge> 0 then
         (if server_relay server \<or> allocation_get_permission (alloc ss) peer \<noteq> None then
            (let (ok, h) = register_multiplex_peer e server ss peer h in
             if \<not> ok then Some (h, ss, [])
             else (let (ss, out) = send_to_peer e server nd req ss in Some (h, ss, out)))
          else Some (h, ss, []))
       else Some (set_error 400 ''No address found'' h, ss, [])
     }
   }"

definition write_to_peerchannel ::
    "engine \<Rightarrow> turn_turnserver \<Rightarrow> super_session \<Rightarrow> u16 \<Rightarrow> ioa_net_data \<Rightarrow> int \<times> super_session \<times> sent_packet list" where
  "write_to_peerchannel e server ss n nd =
     (if recv_ttl nd = 0 \<or> \<not> is_allocation_valid (alloc ss) then (0, ss, [])
      else
        (case allocation_get_ch_info (alloc ss) n of
           None \<Rightarrow> (- 1, ss, [])
         | Some c \<Rightarrow>
             (let peer = peer_addr (channel_at (alloc ss) c);
                  relay_s = get_relay_socket (alloc ss) (sa_family peer);
                  in_size = ioa_network_buffer_get_size (nd_nbh nd);
                  nbh = ioa_network_buffer_add_offset_size (nd_nbh nd) (of_nat STUN_CHANNEL_HEADER_LENGTH) 0
                          (of_nat in_size - of_nat STUN_CHANNEL_HEADER_LENGTH);
                  (rc, skip) = send_data_from_ioa_socket_nbh e relay_s (Some peer) (payload nbh)
              in (rc,
                  if \<not> skip \<and> rc > - 1
                  then turn_report_session_usage server
                         (ss\<lparr>usage := (usage ss)\<lparr>peer_sent_packets := peer_sent_packets (usage ss) + 1,
                                                 peer_sent_bytes := peer_sent_bytes (usage ss) + of_nat in_size\<rparr>\<rparr>) False
                  else ss,
                  case relay_s of Some s \<Rightarrow> [To_peer s peer (payload nbh) (recv_ttl nd - 1) (recv_tos nd) False] | None \<Rightarrow> []))))"

section \<open>From peers to the client\<close>

text \<open>The version string is a constant of the build, TURN_SOFTWARE.\<close>

definition get_version :: "u8 list \<Rightarrow> turn_turnserver \<Rightarrow> u8 list" where
  "get_version TURN_SOFTWARE server = (if software_attribute server then TURN_SOFTWARE else lit ''None'')"

definition maybe_add_software_attribute :: "u8 list \<Rightarrow> turn_turnserver \<Rightarrow> buffer \<Rightarrow> nat \<Rightarrow> (buffer \<times> nat) option" where
  "maybe_add_software_attribute sw server b len =
     (if software_attribute server then do {
        let software = get_version sw server;
        (_, b, len) \<leftarrow> stun_attr_add_str b len STUN_ATTRIBUTE_SOFTWARE (Some software) (int (length software));
        Some (b, len)
      } else Some (b, len))"

text \<open>The channel message that replaces a packet in its own buffer.\<close>

definition channel_data_message :: "engine \<Rightarrow> super_session \<Rightarrow> u16 \<Rightarrow> stun_buffer \<Rightarrow> int \<Rightarrow> stun_buffer option" where
  "channel_data_message e ss n nbh ilen = do {
     let nbh = ioa_network_buffer_add_offset_size nbh 0 (of_nat STUN_CHANNEL_HEADER_LENGTH)
                 (of_nat (ioa_network_buffer_get_size nbh) + of_nat STUN_CHANNEL_HEADER_LENGTH);
     let do_padding = (case client_socket ss of Some s \<Rightarrow> is_stream_socket (sock_type e s) | None \<Rightarrow> False);
     (_, b, len) \<leftarrow> stun_init_channel_message_str n (ioa_network_buffer_data nbh) (nat ilen) ilen do_padding;
     Some (ioa_network_buffer_set_size (set_data nbh b) (of_nat len))
   }"

text \<open>The Data indication for a packet, in a new buffer with memory mem.\<close>

definition data_indication ::
    "addr_mapping \<Rightarrow> u8 list \<Rightarrow> u8 list \<Rightarrow> turn_turnserver \<Rightarrow> super_session \<Rightarrow> buffer \<Rightarrow> ioa_net_data \<Rightarrow> int \<Rightarrow> stun_buffer option" where
  "data_indication m sw rnd server ss mem nd ilen = do {
     let nbh = ioa_network_buffer_allocate mem;
     (b, len) \<leftarrow> stun_init_indication_str rnd STUN_METHOD_DATA (ioa_network_buffer_data nbh);
     (_, b, len) \<leftarrow> stun_attr_add_str b len STUN_ATTRIBUTE_DATA (Some (nd_data nd)) ilen;
     (_, b, len) \<leftarrow> stun_attr_add_addr_str m b len STUN_ATTRIBUTE_XOR_PEER_ADDRESS (src_addr nd);
     (b, len) \<leftarrow> maybe_add_software_attribute sw server b len;
     (b, len) \<leftarrow>
       (if fingerprint server \<or> enforce_fingerprints ss
        then do { (_, b, len) \<leftarrow> stun_attr_add_fingerprint_str b len; Some (b, len) }
        else Some (b, len));
     Some (ioa_network_buffer_set_size (set_data nbh b) (of_nat len))
   }"

text \<open>The part of the handler after the guards and the accounting.\<close>

definition deliver_to_client ::
    "addr_mapping \<Rightarrow> engine \<Rightarrow> u8 list \<Rightarrow> u8 list \<Rightarrow> buffer \<Rightarrow> turn_turnserver \<Rightarrow> ioa_net_data \<Rightarrow> int \<Rightarrow> super_session \<Rightarrow>
     (super_session \<times> sent_packet list) option" where
  "deliver_to_client m e sw rnd mem server nd ilen ss =
     (if \<not> is_allocation_valid (alloc ss) then Some (ss, [])
      else
        (let tinfo = allocation_get_permission (alloc ss) (src_addr nd);
             n = (case tinfo of Some r \<Rightarrow> get_turn_channel_number (alloc ss) r (src_addr nd) | None \<Rightarrow> 0) in
         if tinfo = None \<and> \<not> server_relay server then Some (ss, [])
         else do {
           nbh \<leftarrow> (if n \<noteq> 0 then channel_data_message e ss n (nd_nbh nd) ilen
                   else data_indication m sw rnd server ss mem nd ilen);
           let (_, ss, out) = write_client_connection e server ss (payload nbh) (recv_ttl nd - 1) (recv_tos nd);
           Some (ss, out)
         }))"

definition received_len :: "ioa_net_data \<Rightarrow> int" where
  "received_len nd = min (int (nd_size nd)) (uint (ioa_network_buffer_get_capacity_udp - of_nat STUN_CHANNEL_HEADER_LENGTH))"

definition count_received :: "turn_turnserver \<Rightarrow> ioa_net_data \<Rightarrow> super_session \<Rightarrow> super_session" where
  "count_received server nd ss = turn_report_session_usage server
     (ss\<lparr>usage := (usage ss)\<lparr>peer_received_packets := peer_received_packets (usage ss) + 1,
                             peer_received_bytes := peer_received_bytes (usage ss) + word_of_int (received_len nd)\<rparr>\<rparr>) False"

definition peer_input_handler ::
    "addr_mapping \<Rightarrow> engine \<Rightarrow> u8 list \<Rightarrow> u8 list \<Rightarrow> buffer \<Rightarrow> turn_turnserver \<Rightarrow> ioa_socket_handle \<Rightarrow> ioa_net_data \<Rightarrow>
     super_session \<Rightarrow> (super_session \<times> sent_packet list) option" where
  "peer_input_handler m e sw rnd mem server s nd ss =
     (if recv_ttl nd = 0 \<or> tobeclosed e s \<or> to_be_closed ss then Some (ss, [])
      else if (case client_socket ss of None \<Rightarrow> True | Some c \<Rightarrow> tobeclosed e c) then Some (ss, [])
      else if rs_s (get_relay_session (alloc ss) (sock_family e s)) = None then Some (ss, [])
      else deliver_to_client m e sw rnd mem server nd (received_len nd) (count_received server nd ss))"

section \<open>Relaying respects the permissions\<close>

lemma report_usage_other [simp]:
  "alloc (turn_report_session_usage server ss f) = alloc ss"
  "realm_name (turn_report_session_usage server ss f) = realm_name ss"
  "client_socket (turn_report_session_usage server ss f) = client_socket ss"
  "is_tcp_relay (turn_report_session_usage server ss f) = is_tcp_relay ss"
  "enforce_fingerprints (turn_report_session_usage server ss f) = enforce_fingerprints ss"
  by (simp_all add: turn_report_session_usage_def Let_def)

lemma write_client_out:
  "write_client_connection e server ss d ttl tos = (ret, ss', out) \<Longrightarrow>
     out = (case client_socket ss of None \<Rightarrow> [] | Some s \<Rightarrow> [To_client s d ttl tos]) \<and>
     alloc ss' = alloc ss \<and> client_socket ss' = client_socket ss \<and> is_tcp_relay ss' = is_tcp_relay ss"
  by (auto simp: write_client_connection_def split: option.splits prod.splits if_splits)

text \<open>What a session may send: packets of its relay socket to an address with a permission, which in a
  reachable session passes the check of the peer addresses.\<close>

definition permitted :: "turn_turnserver \<Rightarrow> super_session \<Rightarrow> ioa_addr \<Rightarrow> bool" where
  "permitted server ss addr \<longleftrightarrow> allocation_get_permission (alloc ss) addr \<noteq> None \<and>
     good_peer_addr (peers server) (Some (realm_name ss)) addr"

lemma reachable_permitted:
  assumes "session_run m e server ss" "allocation_get_permission (alloc ss) addr \<noteq> None"
  shows "permitted server ss addr"
proof -
  have inv: "alloc_inv (alloc ss)" "perms_good (peers server) (realm_name ss) (alloc ss)"
    using session_run_inv [OF assms(1)] by (simp_all add: session_inv_def)
  obtain r i where "perms (alloc ss) r = Some i" "addr_eq_no_port (Some (pi_addr i)) (Some addr)"
    using get_permission_iff [OF inv(1)] assms(2) by blast
  then show ?thesis using inv(2) good_peer_no_port assms(2) unfolding perms_good_def permitted_def by blast
qed

lemma channel_peer_permission:
  assumes "session_run m e server ss" "allocation_get_ch_info (alloc ss) n = Some c"
  shows "allocation_get_permission (alloc ss) (peer_addr (channel_at (alloc ss) c)) \<noteq> None"
proof -
  have inv: "alloc_inv (alloc ss)" using session_run_inv [OF assms(1)] by (simp add: session_inv_def)
  obtain ch where ch: "chans (alloc ss) c = Some ch" using get_ch_info_iff [OF inv] assms(2) by blast
  then have "channel_at (alloc ss) c = ch" using chans_at by blast
  then show ?thesis using alloc_chanD(4) [OF inv ch] get_permission_None [OF inv] by blast
qed

lemma send_to_peer_out:
  "send_to_peer e server nd (set_df, peer, len, v) ss = (ss', out) \<Longrightarrow> p \<in> set out \<Longrightarrow>
     \<exists>s d. p = To_peer s peer d (recv_ttl nd - 1) (recv_tos nd) set_df \<and> get_relay_socket (alloc ss) (sa_family peer) = Some s"
  by (auto simp: send_to_peer_def Let_def split: option.splits prod.splits if_splits)

lemma handle_turn_send_out:
  assumes "handle_turn_send m e server nd (h, ss) = Some (h', ss', out)" "p \<in> set out" "\<not> server_relay server"
  shows "\<exists>s peer d df. p = To_peer s peer d (recv_ttl nd - 1) (recv_tos nd) df \<and>
    get_relay_socket (alloc ss) (sa_family peer) = Some s \<and> allocation_get_permission (alloc ss) peer \<noteq> None"
  using assms
  by (auto simp: handle_turn_send_def Let_def split: Option.bind_splits prod.splits if_splits dest!: send_to_peer_out)

lemma write_to_peerchannel_out:
  assumes "write_to_peerchannel e server ss n nd = (rc, ss', out)" "p \<in> set out"
  shows "\<exists>c s d. allocation_get_ch_info (alloc ss) n = Some c \<and>
    p = To_peer s (peer_addr (channel_at (alloc ss) c)) d (recv_ttl nd - 1) (recv_tos nd) False \<and>
    get_relay_socket (alloc ss) (sa_family (peer_addr (channel_at (alloc ss) c))) = Some s"
  using assms by (auto simp: write_to_peerchannel_def Let_def split: option.splits prod.splits if_splits)


text \<open>A channel message with five bytes for the channel of the sample session.\<close>

definition sample_channel_message :: ioa_net_data where
  "sample_channel_message = packet [0x40, 0, 0, 5, 1, 2, 3, 4, 5]"


lemma count_received_other [simp]:
  "alloc (count_received server nd ss) = alloc ss" "client_socket (count_received server nd ss) = client_socket ss"
  "enforce_fingerprints (count_received server nd ss) = enforce_fingerprints ss"
  "is_tcp_relay (count_received server nd ss) = is_tcp_relay ss"
  by (simp_all add: count_received_def)

lemma deliver_out:
  assumes "deliver_to_client m e sw rnd mem server nd ilen ss = Some (ss', out)" "out \<noteq> []"
  shows "(allocation_get_permission (alloc ss) (src_addr nd) \<noteq> None \<or> server_relay server) \<and>
    (\<exists>c d. client_socket ss = Some c \<and> out = [To_client c d (recv_ttl nd - 1) (recv_tos nd)])"
proof (cases "is_allocation_valid (alloc ss) \<and> (allocation_get_permission (alloc ss) (src_addr nd) \<noteq> None \<or> server_relay server)")
  case False
  then show ?thesis using assms unfolding deliver_to_client_def by (auto simp: Let_def split: if_splits)
next
  case True
  then obtain nbh ret where "write_client_connection e server ss (payload nbh) (recv_ttl nd - 1) (recv_tos nd) = (ret, ss', out)"
    using assms(1) unfolding deliver_to_client_def Let_def
    by (auto split: Option.bind_splits prod.splits if_splits)
  from write_client_out [OF this] True assms(2) show ?thesis by (auto split: option.splits)
qed


definition from_peer :: "ioa_addr \<Rightarrow> u8 list \<Rightarrow> ioa_net_data" where
  "from_peer addr d = (packet d)\<lparr>src_addr := addr\<rparr>"


section \<open>Channel data goes through unchanged\<close>

text \<open>The branch of read_client_connection for a channel message.\<close>

definition read_channel_message ::
    "engine \<Rightarrow> turn_turnserver \<Rightarrow> super_session \<Rightarrow> ioa_net_data \<Rightarrow> (int \<times> super_session \<times> sent_packet list) option option" where
  "read_channel_message e server ss nd = do {
     let padding = (case client_socket ss of Some s \<Rightarrow> is_stream_socket (sock_type e s) | None \<Rightarrow> False);
     (ok, blen, n) \<leftarrow> stun_is_channel_message_str (nd_data nd) (nd_size nd) padding;
     if \<not> ok then Some None
     else if is_tcp_relay ss then Some (Some (- 1, ss, []))
     else if blen \<le> nd_size nd then
       (let (_, ss, out) = write_to_peerchannel e server ss (the n) (nd\<lparr>nd_nbh := ioa_network_buffer_set_size (nd_nbh nd) (of_nat blen)\<rparr>)
        in Some (Some (0, ss, out)))
     else Some (Some (0, ss, []))
   }"

text \<open>A packet as the engine receives it: its bytes at the start of a buffer.\<close>

definition received :: "ioa_net_data \<Rightarrow> u8 list \<Rightarrow> bool" where
  "received nd d \<longleftrightarrow> sb_offset (nd_nbh nd) = 0 \<and> sb_coffset (nd_nbh nd) = 0 \<and> length (sb_mem (nd_nbh nd)) = 65511 \<and>
     sb_len (nd_nbh nd) = of_nat (length d) \<and> length d \<le> 65507 \<and> take (length d) (drop 4 (sb_mem (nd_nbh nd))) = d"

lemma received_size: "received nd d \<Longrightarrow> nd_size nd = length d"
  by (simp add: received_def nd_size_def ioa_network_buffer_get_size_def unat_of_nat)

lemma received_data: "received nd d \<Longrightarrow> take (length d) (nd_data nd) = d"
  by (simp add: received_def nd_data_def ioa_network_buffer_data_def window_start_def)

lemma unat_of_nat_u64: "n < 2 ^ 63 \<Longrightarrow> unat (of_nat n :: u64) = n"
  by (simp add: unat_of_nat)

lemma channel_data_message_payload:
  assumes r: "received nd d" and "length d \<le> 65503"
  shows "\<exists>nbh. channel_data_message e ss n (nd_nbh nd) (int (length d)) = Some nbh \<and>
    payload nbh = take (frame_length (case client_socket ss of Some s \<Rightarrow> is_stream_socket (sock_type e s) | None \<Rightarrow> False) (length d))
      (channel_frame n (length d) (sb_mem (nd_nbh nd)))"
proof -
  let ?pad = "case client_socket ss of Some s \<Rightarrow> is_stream_socket (sock_type e s) | None \<Rightarrow> False"
  let ?len = "of_nat (length d) + 4 :: u64"
  have len: "unat ?len = length d + 4" using assms(2) unat_of_nat_u64 [of "length d + 4"] by simp
  have a: "ioa_network_buffer_add_offset_size (nd_nbh nd) 0 4 ?len =
      (nd_nbh nd)\<lparr>sb_len := ?len, sb_offset := 0, sb_coffset := 4\<rparr>" (is "_ = ?nb")
    using add_offset_size_fits [of ?len "nd_nbh nd" 4 0] r len assms(2) by (simp add: received_def)
  have start: "window_start ?nb = 0" by (simp add: window_start_def)
  then have data: "ioa_network_buffer_data ?nb = sb_mem (nd_nbh nd)" by (simp add: ioa_network_buffer_data_def)
  have "frame_length ?pad (length d) \<le> 65511" using frame_length_bounds(2) [of ?pad "length d"] assms(2) by linarith
  then have "unat (of_nat (frame_length ?pad (length d)) :: u64) = frame_length ?pad (length d)" by (simp add: unat_of_nat)
  then show ?thesis
    using init_channel_message [OF assms(2), of "sb_mem (nd_nbh nd)" n "length d" ?pad] r received_size [OF r]
    by (simp add: channel_data_message_def a data start Let_def received_def set_data_def payload_def nd_size_def
        ioa_network_buffer_set_size_def ioa_network_buffer_get_size_def ioa_network_buffer_data_def window_start_def)
qed

text \<open>The window of a channel message, cut to its data.\<close>

lemma channel_payload:
  assumes r: "received nd d" and "4 \<le> l" "l \<le> length d" "length d \<le> 65506"
  shows "payload (ioa_network_buffer_add_offset_size (ioa_network_buffer_set_size (nd_nbh nd) (of_nat l)) 4 0 (of_nat l - 4)) =
    take (l - 4) (drop 4 d)"
proof -
  have len: "unat (of_nat l - 4 :: u64) = l - 4" using assms(2-4) by (simp add: unat_sub_if' unat_of_nat word_le_nat_alt)
  let ?nb = "ioa_network_buffer_set_size (nd_nbh nd) (of_nat l)"
  have a: "ioa_network_buffer_add_offset_size ?nb 4 0 (of_nat l - 4) = ?nb\<lparr>sb_len := of_nat l - 4, sb_offset := 4, sb_coffset := 0\<rparr>"
    using add_offset_size_fits [of "of_nat l - 4" ?nb 0 4] r len assms(2-4)
    by (simp add: received_def ioa_network_buffer_set_size_def)
  have "take (l - 4) (drop 8 (sb_mem (nd_nbh nd))) = take (l - 4) (drop 4 (take (length d) (drop 4 (sb_mem (nd_nbh nd)))))"
    using assms(2,3) by (simp add: drop_take min_def)
  then show ?thesis using r unfolding a
    by (simp add: payload_def ioa_network_buffer_get_size_def len ioa_network_buffer_data_def window_start_def
        ioa_network_buffer_set_size_def received_def)
qed

lemma channel_number_of_peer:
  assumes "session_run m e server ss" "allocation_get_ch_info (alloc ss) n = Some c"
  shows "\<exists>r. allocation_get_permission (alloc ss) (peer_addr (channel_at (alloc ss) c)) = Some r \<and>
    get_turn_channel_number (alloc ss) r (peer_addr (channel_at (alloc ss) c)) = n \<and> STUN_VALID_CHANNEL n"
proof -
  have inv: "alloc_inv (alloc ss)" using session_run_inv [OF assms(1)] by (simp add: session_inv_def)
  obtain ch where ch: "chans (alloc ss) c = Some ch" "chnum ch = n" using get_ch_info_iff [OF inv] assms(2) by blast
  then have at: "channel_at (alloc ss) c = ch" using chans_at by blast
  note d = alloc_chanD [OF inv ch(1)]
  obtain r i where r: "perms (alloc ss) r = Some i" "addr_eq_no_port (Some (pi_addr i)) (Some (peer_addr ch))"
    "lm_map_get (pi_chns i) (ucast (ch_port ch)) = Some (Some c)" using d(4) by blast
  then have "allocation_get_permission (alloc ss) (peer_addr ch) = Some r" using get_permission_iff [OF inv] by blast
  moreover have "permission_at (alloc ss) r = i" using r(1) perms_at by blast
  ultimately show ?thesis using r(3) d(1,2) ch(2) at by (simp add: get_turn_channel_number_def)
qed

lemma STUN_VALID_CHANNEL_0: "STUN_VALID_CHANNEL n \<Longrightarrow> n \<noteq> 0"
  by (auto simp: STUN_VALID_CHANNEL_def)

text \<open>What the client gets for a packet of the peer of a channel.\<close>

lemma channel_to_client:
  assumes run: "session_run m e server ss" and ch: "allocation_get_ch_info (alloc ss) n = Some c"
    and src: "src_addr nd = peer_addr (channel_at (alloc ss) c)" and r: "received nd d" "length d \<le> 16380"
    and cl: "client_socket ss = Some cl" "\<not> tobeclosed e cl" "\<not> to_be_closed ss"
    and s: "\<not> tobeclosed e s" "rs_s (get_relay_session (alloc ss) (sock_family e s)) \<noteq> None"
    and ok: "is_allocation_valid (alloc ss)" "recv_ttl nd \<noteq> 0"
  shows "\<exists>ss'. peer_input_handler m' e sw rnd mem (server\<lparr>ctime := now\<rparr>) s nd ss = Some (ss',
    [To_client cl (take (frame_length (is_stream_socket (sock_type e cl)) (length d))
       (channel_frame n (length d) (sb_mem (nd_nbh nd)))) (recv_ttl nd - 1) (recv_tos nd)]) \<and>
    alloc ss' = alloc ss \<and> client_socket ss' = client_socket ss \<and> is_tcp_relay ss' = is_tcp_relay ss"
proof -
  let ?sv = "server\<lparr>ctime := now\<rparr>"
  let ?ss = "count_received ?sv nd ss"
  obtain p where p: "allocation_get_permission (alloc ss) (src_addr nd) = Some p"
    "get_turn_channel_number (alloc ss) p (src_addr nd) = n" "n \<noteq> 0"
    using channel_number_of_peer [OF run ch] src STUN_VALID_CHANNEL_0 by auto
  have ilen: "received_len nd = int (length d)"
    using r received_size [OF r(1)] by (simp add: received_len_def ioa_network_buffer_get_capacity_udp_def)
  obtain nbh where nbh: "channel_data_message e ?ss n (nd_nbh nd) (int (length d)) = Some nbh"
    "payload nbh = take (frame_length (is_stream_socket (sock_type e cl)) (length d)) (channel_frame n (length d) (sb_mem (nd_nbh nd)))"
    using channel_data_message_payload [OF r(1), of e ?ss n] r(2) cl(1) by auto
  obtain ret ss' where w: "write_client_connection e ?sv ?ss (payload nbh) (recv_ttl nd - 1) (recv_tos nd) =
      (ret, ss', [To_client cl (payload nbh) (recv_ttl nd - 1) (recv_tos nd)])"
      "alloc ss' = alloc ss" "client_socket ss' = client_socket ss" "is_tcp_relay ss' = is_tcp_relay ss"
    using write_client_out [of e ?sv ?ss "payload nbh" "recv_ttl nd - 1" "recv_tos nd"] cl(1)
    by (cases "write_client_connection e ?sv ?ss (payload nbh) (recv_ttl nd - 1) (recv_tos nd)") auto
  have "deliver_to_client m' e sw rnd mem ?sv nd (int (length d)) ?ss =
      Some (ss', [To_client cl (payload nbh) (recv_ttl nd - 1) (recv_tos nd)])"
    using ok(1) p nbh(1) w(1) by (simp add: deliver_to_client_def Let_def)
  then show ?thesis using assms ilen nbh(2) w(2-4) by (simp add: peer_input_handler_def)
qed

text \<open>What the peer of a channel gets for a channel message of the client.\<close>

lemma channel_to_peer:
  assumes ch: "allocation_get_ch_info (alloc ss) n = Some c" "STUN_VALID_CHANNEL n"
    and r: "received nd f" "length f = frame_length (is_stream_socket (sock_type e cl)) (length d)" "length d \<le> 16380"
    and hd: "rd16 (nd_data nd) 0 = Some (nswap16 n)" "rd16 (nd_data nd) 2 = Some (nswap16 (of_nat (length d)))"
      "take (length d) (drop 4 f) = d"
    and cl: "client_socket ss = Some cl" "\<not> is_tcp_relay ss"
    and ok: "is_allocation_valid (alloc ss)" "recv_ttl nd \<noteq> 0"
      "get_relay_socket (alloc ss) (sa_family (peer_addr (channel_at (alloc ss) c))) = Some s"
  shows "\<exists>ss'. read_channel_message e server ss nd =
    Some (Some (0, ss', [To_peer s (peer_addr (channel_at (alloc ss) c)) d (recv_ttl nd - 1) (recv_tos nd) False]))"
proof -
  have l: "4 + length d \<le> length f" "length f \<le> 65506"
    using frame_length_bounds [where n = "length d" and padding = "is_stream_socket (sock_type e cl)"] r(2,3) by linarith+
  have is_ch: "stun_is_channel_message_str (nd_data nd) (nd_size nd) (is_stream_socket (sock_type e cl)) =
      Some (True, 4 + length d, Some n)"
    using is_channel_message_in [OF hd(1,2) ch(2), of "is_stream_socket (sock_type e cl)"] received_size [OF r(1)] r(2,3) by simp
  have u: "unat (of_nat (4 + length d) :: u64) = 4 + length d"
    by (rule unat_of_nat_u64) (use r(3) in simp)
  then have pay: "payload (ioa_network_buffer_add_offset_size (ioa_network_buffer_set_size (nd_nbh nd) (of_nat (4 + length d))) 4 0
      (of_nat (4 + length d) - 4)) = d"
    using channel_payload [OF r(1) _ l(1,2)] hd(3) by simp
  have "\<exists>rc ss'. write_to_peerchannel e server ss n (nd\<lparr>nd_nbh := ioa_network_buffer_set_size (nd_nbh nd) (of_nat (4 + length d))\<rparr>) =
      (rc, ss', [To_peer s (peer_addr (channel_at (alloc ss) c)) d (recv_ttl nd - 1) (recv_tos nd) False])"
    using ch(1) ok pay u
    by (cases "send_data_from_ioa_socket_nbh e (Some s) (Some (peer_addr (channel_at (alloc ss) c))) d")
      (simp add: write_to_peerchannel_def Let_def ioa_network_buffer_get_size_def ioa_network_buffer_set_size_def)
  then show ?thesis using is_ch cl received_size [OF r(1)] l(1) by (auto simp: read_channel_message_def)
qed

lemma rd16_prefix: "p + 2 \<le> length (take l b) \<Longrightarrow> rd16 (take l b) p = rd16 b p"
  by (simp add: rd16_def)

lemma received_rd16: "received nd f \<Longrightarrow> p + 2 \<le> length f \<Longrightarrow> rd16 (nd_data nd) p = rd16 f p"
  using rd16_prefix [of p "length f" "nd_data nd"] received_data [of nd f]
  by (simp add: received_def nd_data_def ioa_network_buffer_data_def window_start_def)


definition peer_packet :: ioa_net_data where
  "peer_packet = \<lparr>src_addr = sample_peer,
     nd_nbh = \<lparr>sb_mem = replicate 4 0 @ [1, 2, 3, 4, 5] @ replicate 65502 0, sb_len = 5, sb_offset = 0, sb_coffset = 0\<rparr>,
     recv_ttl = 64, recv_tos = 0\<rparr>"

lemma bound_session_ready:
  "client_socket bound_session = Some 1 \<and> \<not> to_be_closed bound_session \<and> \<not> is_tcp_relay bound_session \<and>
   is_allocation_valid (alloc bound_session) \<and> rs_s (get_relay_session (alloc bound_session) AF_INET) = Some 2 \<and>
   get_relay_socket (alloc bound_session) AF_INET = Some 2"
  by code_simp


section \<open>Data indications\<close>

text \<open>One more attribute of a well-formed message.\<close>

definition extends :: "buffer \<Rightarrow> nat \<Rightarrow> buffer \<Rightarrow> nat \<Rightarrow> nat \<Rightarrow> nat \<Rightarrow> bool" where
  "extends b len b' len' t n \<longleftrightarrow> wf_msg b' len' \<and> length b' = length b \<and> len' \<le> len + n \<and>
     take 12 (drop 8 b') = take 12 (drop 8 b) \<and> (\<exists>as. attrs b' len' = attrs b len @ as \<and> (\<forall>a\<in>set as. fst a = t))"

lemma extends_refl: "wf_msg b len \<Longrightarrow> extends b len b len t n"
  by (simp add: extends_def)

lemma add_software_extends:
  assumes "wf_msg b len" "length sw \<le> 1000" "len + 1004 \<le> length b" "len + 1004 < 65507"
  shows "\<exists>b' len'. maybe_add_software_attribute sw server b len = Some (b', len') \<and>
    extends b len b' len' (unat STUN_ATTRIBUTE_SOFTWARE) 1004"
proof (cases "software_attribute server")
  case True
  have p: "pad4 (length sw) \<le> 1000" using assms(2) by (simp add: pad4_eq)
  obtain b' where "stun_attr_add_str b len STUN_ATTRIBUTE_SOFTWARE (Some sw) (int (length sw)) = Some (True, b', len + 4 + pad4 (length sw))"
      "wf_msg b' (len + 4 + pad4 (length sw))" "length b' = length b"
      "attrs b' (len + 4 + pad4 (length sw)) = attrs b len @ [(unat STUN_ATTRIBUTE_SOFTWARE, sw)]"
      "take 12 (drop 8 b') = take 12 (drop 8 b)"
    using add_field [OF assms(1) refl, where v = sw and t = STUN_ATTRIBUTE_SOFTWARE] assms(2-4) p by auto
  then show ?thesis using True p
    by (auto simp: maybe_add_software_attribute_def get_version_def extends_def)
next
  case False
  then show ?thesis using extends_refl [OF assms(1)] by (auto simp: maybe_add_software_attribute_def)
qed

lemma add_tlv4_extends:
  assumes "wf_msg b len" "length v = 4" "len + 8 \<le> length b" "len + 8 < 65507"
  shows "extends b len (add_tlv b len t v) (len + 8) (unat t) 8"
proof -
  note w = wf_msgD [OF assms(1)]
  have e: "len + 4 + pad4 (length v) = len + 8" using assms(2) by (simp add: pad4_def)
  note a = add_tlv_append [OF assms(1), where v = v and t = t, unfolded e]
  note n = add_tlv_nth [where len = len and v = v and b = b and t = t, unfolded e]
  have "wf_msg (add_tlv b len t v) (len + 8)" "attrs (add_tlv b len t v) (len + 8) = attrs b len @ [(unat t, v)]"
    "length (add_tlv b len t v) = length b" "\<And>i. i < len \<Longrightarrow> i \<noteq> 2 \<Longrightarrow> i \<noteq> 3 \<Longrightarrow> add_tlv b len t v ! i = b ! i"
    using a n assms(2-4) w by simp_all
  moreover from this have "take 12 (drop 8 (add_tlv b len t v)) = take 12 (drop 8 b)"
    by (intro nth_equalityI) (use w in auto)
  ultimately show ?thesis by (simp add: extends_def)
qed

lemma add_fingerprint_extends:
  assumes "wf_msg b len" "len + 8 \<le> length b" "len + 8 < 65507"
  shows "\<exists>b' len'. stun_attr_add_fingerprint_str b len = Some (True, b', len') \<and>
    extends b len b' len' (unat STUN_ATTRIBUTE_FINGERPRINT) 8"
  using add_fingerprint_tlv [OF assms] add_tlv4_extends [OF assms(1) _ assms(2,3)] by (metis length_bytes32)

text \<open>The attributes of the indication up to the peer address.\<close>

lemma indication_body:
  assumes "length b = 65507" "12 \<le> length rnd" "ilen \<le> length d" "ilen \<le> 16380" "good_public m a"
  obtains b0 b1 l1 b2 l2 where "stun_init_indication_str rnd STUN_METHOD_DATA b = Some (b0, 20)"
    "stun_attr_add_str b0 20 STUN_ATTRIBUTE_DATA (Some d) (int ilen) = Some (True, b1, l1)"
    "stun_attr_add_addr_str m b1 l1 STUN_ATTRIBUTE_XOR_PEER_ADDRESS a = Some (True, b2, l2)" "wf_msg b2 l2"
    "attrs b2 l2 = [(unat STUN_ATTRIBUTE_DATA, take ilen d),
       (unat STUN_ATTRIBUTE_XOR_PEER_ADDRESS, addr_wire (xor_attr (uint STUN_ATTRIBUTE_XOR_PEER_ADDRESS)) STUN_MAGIC_COOKIE
          (take 12 (drop 8 b2)) (map_addr_from_private_to_public m a))]"
    "length b2 = 65507" "l2 \<le> 16428"
proof -
  let ?t = "stun_make_indication STUN_METHOD_DATA"
  define b0 where "b0 = patch b 0 (header ?t STUN_MAGIC_COOKIE rnd)"
  have b0: "stun_init_indication_str rnd STUN_METHOD_DATA b = Some (b0, 20)" "wf_msg b0 20" "attrs b0 20 = []" "length b0 = 65507"
    using init_command_header [of b rnd ?t] header_wf [of b rnd] assms(1,2)
    by (simp_all add: stun_init_indication_str_def b0_def)
  have p: "pad4 ilen \<le> 16380" using assms(4) by (simp add: pad4_eq)
  obtain b1 where b1: "stun_attr_add_str b0 20 STUN_ATTRIBUTE_DATA (Some d) (int ilen) = Some (True, b1, 20 + 4 + pad4 ilen)"
      "wf_msg b1 (20 + 4 + pad4 ilen)" "length b1 = 65507" "attrs b1 (20 + 4 + pad4 ilen) = [(unat STUN_ATTRIBUTE_DATA, take ilen d)]"
    using add_str_append [OF b0(2) assms(3), of STUN_ATTRIBUTE_DATA] b0(3,4) p assms(4) by auto
  obtain b2 l2 where b2: "stun_attr_add_addr_str m b1 (20 + 4 + pad4 ilen) STUN_ATTRIBUTE_XOR_PEER_ADDRESS a = Some (True, b2, l2)"
      "wf_msg b2 l2" "attrs b2 l2 = attrs b1 (20 + 4 + pad4 ilen) @ [(unat STUN_ATTRIBUTE_XOR_PEER_ADDRESS,
         addr_wire (xor_attr (uint STUN_ATTRIBUTE_XOR_PEER_ADDRESS)) STUN_MAGIC_COOKIE (take 12 (drop 8 b1)) (map_addr_from_private_to_public m a))]"
      "length b2 = length b1" "l2 \<le> 20 + 4 + pad4 ilen + 24" "take 12 (drop 8 b2) = take 12 (drop 8 b1)"
    by (rule add_addr_field [OF b1(2) assms(5), of STUN_ATTRIBUTE_XOR_PEER_ADDRESS]) (use b1(3) p in simp_all)
  show ?thesis
    by (rule that [OF b0(1) b1(1) b2(1,2)]) (use b1(3,4) b2 p in simp_all)
qed



end
