(* ===== verification/Base64.thy ===== *)
theory Base64
  imports C_String
begin

unbundle bit_operations_syntax

text \<open>
  Base 64 (apputils.c) and the mobility tickets that the server writes with it (mobile_id_to_string
  and string_to_mobile_id of ns_turn_server.c).  The host is little endian and its char is signed.
  base64_decode is given the array that data points to and a length; a read outside the array, or
  outside the table of 256 entries, is a memory fault.
\<close>

section \<open>The tables\<close>

definition mod_table :: "nat list" where
  "mod_table = [0, 2, 1]"

definition encoding_table :: "u8 list" where
  "encoding_table = lit ''ABCDEFGHIJKLMNOPQRSTUVWXYZabcdefghijklmnopqrstuvwxyz0123456789+/''"

definition build_base64_decoding_table :: "u8 list" where
  "build_base64_decoding_table =
     foldl (\<lambda>table i. table[unat (encoding_table ! i) := of_nat i]) (replicate 256 0) [0..<64]"

abbreviation (input) pad_char :: u8 where "pad_char \<equiv> 0x3D"

section \<open>Encoding\<close>

definition encode_triple :: "u8 \<Rightarrow> u8 \<Rightarrow> u8 \<Rightarrow> u8 list" where
  "encode_triple a b c =
     (let triple = push_bit 0x10 (ucast a) + push_bit 0x08 (ucast b) + ucast c :: u32 in
      map (\<lambda>k. encoding_table ! unat (drop_bit k triple AND 0x3F)) [18, 12, 6, 0])"

fun encode_loop :: "u8 list \<Rightarrow> u8 list" where
  "encode_loop [] = []"
| "encode_loop [a] = encode_triple a 0 0"
| "encode_loop [a, b] = encode_triple a b 0"
| "encode_loop (a # b # c # rest) = encode_triple a b c @ encode_loop rest"

definition base64_encode :: "u8 list \<Rightarrow> u8 list" where
  "base64_encode data =
     (let output_length = 4 * ((length data + 2) div 3) in
      foldl (\<lambda>e i. e[output_length - 1 - i := pad_char]) (encode_loop data) [0..<mod_table ! (length data mod 3)])"

section \<open>Decoding\<close>

text \<open>A character indexes the table as a signed number: one with the high bit set is a negative index,
  before the start of the table.\<close>

definition sextet :: "u8 \<Rightarrow> u32 option" where
  "sextet c =
     (if c = pad_char then Some 0
      else if c < 0x80 then Some (ucast (build_base64_decoding_table ! unat c))
      else None)"

definition decode_triple :: "u8 \<Rightarrow> u8 \<Rightarrow> u8 \<Rightarrow> u8 \<Rightarrow> u8 list option" where
  "decode_triple c0 c1 c2 c3 = do {
     sextet_a \<leftarrow> sextet c0;
     sextet_b \<leftarrow> sextet c1;
     sextet_c \<leftarrow> sextet c2;
     sextet_d \<leftarrow> sextet c3;
     let triple = push_bit 18 sextet_a + push_bit 12 sextet_b + push_bit 6 sextet_c + sextet_d;
     Some (map (\<lambda>k. ucast (drop_bit k triple AND 0xFF)) [16, 8, 0])
   }"

text \<open>The loop stores a byte only while j is below the length of the result.\<close>

fun decode_loop :: "u8 list \<Rightarrow> nat \<Rightarrow> u8 list option" where
  "decode_loop (c0 # c1 # c2 # c3 # rest) left = do {
     t \<leftarrow> decode_triple c0 c1 c2 c3;
     r \<leftarrow> decode_loop rest (left - 3);
     Some (take left t @ r)
   }"
| "decode_loop _ left = Some []"

definition char_at :: "u8 list \<Rightarrow> int \<Rightarrow> u8 option" where
  "char_at data i = (if 0 \<le> i \<and> i < int (length data) then Some (data ! nat i) else None)"

text \<open>The inner option is the pointer that is returned.\<close>

definition base64_decode :: "u8 list \<Rightarrow> nat \<Rightarrow> u8 list option option" where
  "base64_decode data input_length =
     (if input_length mod 4 \<noteq> 0 then Some None
      else do {
        c1 \<leftarrow> char_at data (int input_length - 1);
        c2 \<leftarrow> char_at data (int input_length - 2);
        let output_length = input_length div 4 * 3 - (if c1 = pad_char then 1 else 0) - (if c2 = pad_char then 1 else 0);
        out \<leftarrow> decode_loop (take input_length data) output_length;
        Some (Some out)
      })"

section \<open>Mobility tickets\<close>

fun mobile_id_of_bytes :: "u8 list \<Rightarrow> u64" where
  "mobile_id_of_bytes [b0, b1, b2, b3, b4, b5, b6, b7] = host64 (host32 b0 b1 b2 b3) (host32 b4 b5 b6 b7)"
| "mobile_id_of_bytes _ = 0"

text \<open>The ticket and its length, or -1 when it does not fit.\<close>

definition mobile_id_to_string :: "u64 \<Rightarrow> nat \<Rightarrow> int \<times> u8 list" where
  "mobile_id_to_string mid dst_sz =
     (let s = base64_encode (bytes64 mid) in
      if length s = 0 \<or> length s + 1 > dst_sz then (- 1, []) else (int (length s), s @ [0]))"

definition string_to_mobile_id :: "u8 list \<Rightarrow> u64 option" where
  "string_to_mobile_id src = do {
     out \<leftarrow> base64_decode src (strlen src);
     case out of
       None \<Rightarrow> Some 0
     | Some out \<Rightarrow> Some (mobile_id_of_bytes out)
   }"

section \<open>Decoding undoes encoding\<close>

lemma encoding_table_facts:
  "length encoding_table = 64" "distinct encoding_table"
  "list_all (\<lambda>c. c \<noteq> 0 \<and> c \<noteq> pad_char \<and> c < 0x80) encoding_table"
  by (simp add: encoding_table_def lit_def) code_simp+

lemma encoding_table_at:
  assumes "i < 64"
  shows "encoding_table ! i \<noteq> 0" "encoding_table ! i \<noteq> pad_char" "encoding_table ! i < 0x80"
  using assms encoding_table_facts(1,3) by (auto simp: list_all_length)

lemma length_decoding_fold:
  "length (foldl (\<lambda>table i. table[f i := g i]) t is) = length t"
  by (induction "is" arbitrary: t) auto

lemma decoding_fold:
  assumes "i < n" "n \<le> 64"
  shows "foldl (\<lambda>table i. table[unat (encoding_table ! i) := of_nat i]) (replicate 256 (0 :: u8)) [0..<n] ! unat (encoding_table ! i) = of_nat i"
  using assms
proof (induction n)
  case (Suc n)
  have l: "unat (encoding_table ! n) < 256" using unat_u8 [of "encoding_table ! n"] by simp
  show ?case
  proof (cases "i = n")
    case True
    then show ?thesis using l by (simp add: length_decoding_fold)
  next
    case False
    then have "encoding_table ! n \<noteq> encoding_table ! i"
      using Suc.prems encoding_table_facts(1,2) by (simp add: nth_eq_iff_index_eq)
    then have "unat (encoding_table ! n) \<noteq> unat (encoding_table ! i)" by (simp add: word_unat_eq_iff)
    then show ?thesis using Suc False by simp
  qed
qed simp

lemma sextet_encoding: "i < 64 \<Longrightarrow> sextet (encoding_table ! i) = Some (of_nat i)"
  using encoding_table_at [of i] decoding_fold [of i 64] unat_u8 [of "encoding_table ! i"]
  by (simp add: sextet_def build_base64_decoding_table_def word_unat_eq_iff unsigned_ucast_eq unat_of_nat take_bit_nat_eq_self)

lemma unat_low6: "unat (w AND 0x3F :: u32) < 64"
proof -
  have "(0x3F :: u32) = mask 6" by (simp add: mask_eq_exp_minus_1)
  then have "unat (w AND 0x3F) = take_bit 6 (unat w)"
    using unsigned_take_bit_eq [of 6 w, where 'a = nat] by (simp only: take_bit_eq_mask)
  then show ?thesis using take_bit_nat_less_exp [of 6 "unat w"] by simp
qed

lemma sum4_or:
  fixes t :: u32
  shows "push_bit 18 (drop_bit 18 t AND 0x3F) + push_bit 12 (drop_bit 12 t AND 0x3F) + push_bit 6 (drop_bit 6 t AND 0x3F) + (t AND 0x3F) = t AND 0xFFFFFF"
proof -
  have m: "(0x3F :: u32) = mask 6" "(0xFFFFFF :: u32) = mask 24" by (simp_all add: mask_eq_exp_minus_1)
  have 1: "push_bit 18 (drop_bit 18 t AND 0x3F) + push_bit 12 (drop_bit 12 t AND 0x3F) =
      push_bit 18 (drop_bit 18 t AND 0x3F) OR push_bit 12 (drop_bit 12 t AND 0x3F)"
    by (rule disjunctive_add_eq_or, rule bit_word_eqI) (auto simp: m bit_simps)
  have 2: "(push_bit 18 (drop_bit 18 t AND 0x3F) OR push_bit 12 (drop_bit 12 t AND 0x3F)) + push_bit 6 (drop_bit 6 t AND 0x3F) =
      push_bit 18 (drop_bit 18 t AND 0x3F) OR push_bit 12 (drop_bit 12 t AND 0x3F) OR push_bit 6 (drop_bit 6 t AND 0x3F)"
    by (subst disjunctive_add_eq_or, rule bit_word_eqI) (auto simp: m bit_simps or.assoc)
  have 3: "(push_bit 18 (drop_bit 18 t AND 0x3F) OR push_bit 12 (drop_bit 12 t AND 0x3F) OR push_bit 6 (drop_bit 6 t AND 0x3F)) + (t AND 0x3F) =
      push_bit 18 (drop_bit 18 t AND 0x3F) OR push_bit 12 (drop_bit 12 t AND 0x3F) OR push_bit 6 (drop_bit 6 t AND 0x3F) OR (t AND 0x3F)"
    by (subst disjunctive_add_eq_or, rule bit_word_eqI) (auto simp: m bit_simps or.assoc)
  have "push_bit 18 (drop_bit 18 t AND 0x3F) OR push_bit 12 (drop_bit 12 t AND 0x3F) OR push_bit 6 (drop_bit 6 t AND 0x3F) OR (t AND 0x3F) = t AND 0xFFFFFF"
  proof (rule bit_word_eqI)
    fix n assume "n < LENGTH(32)"
    moreover have "n < 6 \<or> 6 \<le> n \<and> n < 12 \<or> 12 \<le> n \<and> n < 18 \<or> 18 \<le> n" by arith
    ultimately show "bit (push_bit 18 (drop_bit 18 t AND 0x3F) OR push_bit 12 (drop_bit 12 t AND 0x3F) OR
        push_bit 6 (drop_bit 6 t AND 0x3F) OR (t AND 0x3F)) n = bit (t AND 0xFFFFFF) n"
      by (auto simp: m bit_simps)
  qed
  with 1 2 3 show ?thesis by simp
qed

lemma triple_or:
  fixes a b c :: u8
  shows "push_bit 0x10 (ucast a) + push_bit 0x08 (ucast b) + ucast c = (push_bit 16 (ucast a) OR push_bit 8 (ucast b) OR ucast c :: u32)"
proof -
  have 1: "push_bit 0x10 (ucast a) + push_bit 0x08 (ucast b) = (push_bit 16 (ucast a) OR push_bit 8 (ucast b) :: u32)"
    by (rule disjunctive_add_eq_or, rule bit_word_eqI) (auto simp: bit_simps)
  have 2: "(push_bit 16 (ucast a) OR push_bit 8 (ucast b)) + ucast c = (push_bit 16 (ucast a) OR push_bit 8 (ucast b) OR ucast c :: u32)"
    by (subst disjunctive_add_eq_or, rule bit_word_eqI) (auto simp: bit_simps or.assoc)
  show ?thesis by (simp only: 1 2)
qed

lemma decode_of_sextets:
  fixes t :: u32
  defines "c k \<equiv> encoding_table ! unat (drop_bit k t AND 0x3F)"
  shows "decode_triple (c 18) (c 12) (c 6) (c 0) =
    Some (map (\<lambda>k. ucast (drop_bit k (t AND 0xFFFFFF) AND 0xFF)) [16, 8, 0])"
proof -
  have "sextet (c k) = Some (drop_bit k t AND 0x3F)" for k
    using sextet_encoding [OF unat_low6, of "drop_bit k t"] by (simp add: c_def del: drop_bit_and)
  then show ?thesis using sum4_or [of t] by (simp add: decode_triple_def Let_def del: drop_bit_and push_bit_and)
qed

lemma decode_encode_triple:
  "\<exists>c0 c1 c2 c3. encode_triple a b c = [c0, c1, c2, c3] \<and> decode_triple c0 c1 c2 c3 = Some [a, b, c] \<and>
     0 \<notin> {c0, c1, c2, c3} \<and> c2 \<noteq> pad_char \<and> c3 \<noteq> pad_char"
proof -
  define t :: u32 where "t = push_bit 16 (ucast a) OR push_bit 8 (ucast b) OR ucast c"
  have m: "(0xFF :: u32) = mask 8" "(0xFFFFFF :: u32) = mask 24" by (simp_all add: mask_eq_exp_minus_1)
  have "ucast (drop_bit 16 (t AND 0xFFFFFF) AND 0xFF) = a" "ucast (drop_bit 8 (t AND 0xFFFFFF) AND 0xFF) = b"
    "ucast (drop_bit 0 (t AND 0xFFFFFF) AND 0xFF) = c"
    by (rule bit_word_eqI; auto simp: t_def m bit_simps)+
  then have "decode_triple (encoding_table ! unat (drop_bit 18 t AND 0x3F)) (encoding_table ! unat (drop_bit 12 t AND 0x3F))
      (encoding_table ! unat (drop_bit 6 t AND 0x3F)) (encoding_table ! unat (drop_bit 0 t AND 0x3F)) = Some [a, b, c]"
    by (simp only: decode_of_sextets list.map)
  then show ?thesis
    using encoding_table_at(1,2) [OF unat_low6]
    by (simp add: encode_triple_def triple_or t_def [symmetric] Let_def)
qed

text \<open>The padding replaces characters whose sextets are zero.\<close>

lemma encode_triple_or:
  "encode_triple a b c =
     map (\<lambda>k. encoding_table ! unat (drop_bit k (push_bit 16 (ucast a) OR push_bit 8 (ucast b) OR ucast c :: u32) AND 0x3F)) [18, 12, 6, 0]"
  by (simp only: encode_triple_def triple_or Let_def)

lemma zero_sextets:
  "encode_triple a b 0 ! 3 = encoding_table ! 0" "encode_triple a 0 0 ! 2 = encoding_table ! 0"
proof -
  have m: "(0x3F :: u32) = mask 6" by (simp add: mask_eq_exp_minus_1)
  have "drop_bit 0 (push_bit 16 (ucast a) OR push_bit 8 (ucast b) OR ucast (0 :: u8)) AND 0x3F = (0 :: u32)"
    by (rule bit_word_eqI) (auto simp: m bit_simps)
  then show "encode_triple a b 0 ! 3 = encoding_table ! 0"
    by (simp only: encode_triple_or list.map nth_Cons_numeral) simp
  have "drop_bit 6 (push_bit 16 (ucast a) OR push_bit 8 (ucast (0 :: u8)) OR ucast (0 :: u8)) AND 0x3F = (0 :: u32)"
    by (rule bit_word_eqI) (auto simp: m bit_simps)
  then show "encode_triple a 0 0 ! 2 = encoding_table ! 0"
    by (simp only: encode_triple_or list.map nth_Cons_numeral) simp
qed

lemma decode_padded:
  "encode_triple a b 0 = [c0, c1, c2, c3] \<Longrightarrow> decode_triple c0 c1 c2 pad_char = Some [a, b, 0]"
  "encode_triple a 0 0 = [c0, c1, c2, c3] \<Longrightarrow> decode_triple c0 c1 pad_char pad_char = Some [a, 0, 0]"
proof -
  have s0: "sextet (encoding_table ! 0) = Some 0" "sextet pad_char = Some 0"
    using sextet_encoding [of 0] by (simp_all add: sextet_def)
  have d: "encode_triple a b c = [c0, c1, c2, c3] \<Longrightarrow> decode_triple c0 c1 c2 c3 = Some [a, b, c]" for a b c c0 c1 c2 c3
    using decode_encode_triple [of a b c] by auto
  show "decode_triple c0 c1 c2 pad_char = Some [a, b, 0]" if e: "encode_triple a b 0 = [c0, c1, c2, c3]"
    using d [OF e] s0 zero_sextets(1) [of a b] e by (simp add: decode_triple_def)
  show "decode_triple c0 c1 pad_char pad_char = Some [a, 0, 0]" if e: "encode_triple a 0 0 = [c0, c1, c2, c3]"
    using d [OF e] s0 zero_sextets(1) [of a 0] zero_sextets(2) [of a] e by (simp add: decode_triple_def)
qed

lemma length_triple [simp]: "length (encode_triple a b c) = 4"
  by (simp add: encode_triple_def Let_def)

lemma div3_step: "(5 + n) div 3 = Suc (Suc (Suc n) div (3 :: nat))"
  by presburger

lemma encode_small:
  "base64_encode [] = []"
  "base64_encode [a] = take 2 (encode_triple a 0 0) @ [pad_char, pad_char]"
  "base64_encode [a, b] = take 3 (encode_triple a b 0) @ [pad_char]"
  by (simp_all add: base64_encode_def mod_table_def encode_triple_def Let_def upt_rec numeral_2_eq_2)

lemma pad_end:
  "length t = 4 \<Longrightarrow> k \<le> n \<Longrightarrow>
   foldl (\<lambda>e i. e[n + 4 - 1 - i := p]) (t @ l) [0..<k] = t @ foldl (\<lambda>e i. e[n - 1 - i := p]) l [0..<k]"
proof (induction k)
  case (Suc k)
  then have "n + 4 - 1 - k = 4 + (n - 1 - k)" by arith
  moreover have "\<not> n + 4 - 1 - k < length t" using Suc.prems by arith
  ultimately show ?case using Suc by (simp add: list_update_append)
qed simp

lemma padding_fits: "mod_table ! (n mod 3) \<le> 4 * ((n + 2) div 3)"
proof -
  have "n mod 3 = 0 \<or> n mod 3 = 1 \<or> n mod 3 = 2" by presburger
  moreover have "n mod 3 \<noteq> 0 \<Longrightarrow> 1 \<le> (n + 2) div 3" by presburger
  ultimately show ?thesis by (auto simp: mod_table_def numeral_2_eq_2)
qed

lemma encode_rec: "base64_encode (a # b # c # rest) = encode_triple a b c @ base64_encode rest"
proof -
  define n where "n = 4 * ((length rest + 2) div 3)"
  have "4 * ((length (a # b # c # rest) + 2) div 3) = n + 4" "length (a # b # c # rest) mod 3 = length rest mod 3"
    by (simp_all add: n_def div3_step)
  then show ?thesis
    using pad_end [OF length_triple padding_fits [of "length rest", folded n_def]]
    by (simp only: base64_encode_def Let_def encode_loop.simps n_def [symmetric])
qed

lemma length_encode: "length (base64_encode data) = 4 * ((length data + 2) div 3)"
  by (induction data rule: encode_loop.induct) (simp_all add: encode_small encode_rec div3_step)

lemma decode_loop_encode: "decode_loop (base64_encode data) (length data) = Some data"
proof (induction data rule: encode_loop.induct)
  case (2 a)
  obtain c0 c1 c2 c3 where "encode_triple a 0 0 = [c0, c1, c2, c3]" using decode_encode_triple [of a 0 0] by blast
  then show ?case using decode_padded(2) by (simp add: encode_small)
next
  case (3 a b)
  obtain c0 c1 c2 c3 where "encode_triple a b 0 = [c0, c1, c2, c3]" using decode_encode_triple [of a b 0] by blast
  then show ?case using decode_padded(1) by (simp add: encode_small numeral_3_eq_3)
next
  case (4 a b c rest)
  obtain c0 c1 c2 c3 where "encode_triple a b c = [c0, c1, c2, c3]" "decode_triple c0 c1 c2 c3 = Some [a, b, c]"
    using decode_encode_triple [of a b c] by blast
  then show ?case using 4 by (simp add: encode_rec)
qed (simp add: encode_small)

lemma encode_chars:
  "0 \<notin> set (base64_encode data) \<and> (data \<noteq> [] \<longrightarrow> (\<exists>pre x y. base64_encode data = pre @ [x, y] \<and>
     (y = pad_char \<longleftrightarrow> length data mod 3 \<noteq> 0) \<and> (x = pad_char \<longleftrightarrow> length data mod 3 = 1)))"
proof (induction data rule: encode_loop.induct)
  case (2 a)
  obtain c0 c1 c2 c3 where "encode_triple a 0 0 = [c0, c1, c2, c3]" "0 \<notin> {c0, c1, c2, c3}" using decode_encode_triple [of a 0 0] by blast
  then show ?case by (auto simp: encode_small intro!: exI [of _ "[c0, c1]"])
next
  case (3 a b)
  obtain c0 c1 c2 c3 where "encode_triple a b 0 = [c0, c1, c2, c3]" "0 \<notin> {c0, c1, c2, c3}" "c2 \<noteq> pad_char"
    using decode_encode_triple [of a b 0] by blast
  then show ?case by (auto simp: encode_small intro!: exI [of _ "[c0, c1]"])
next
  case (4 a b c rest)
  obtain c0 c1 c2 c3 where e: "encode_triple a b c = [c0, c1, c2, c3]" "0 \<notin> {c0, c1, c2, c3}" "c2 \<noteq> pad_char" "c3 \<noteq> pad_char"
    using decode_encode_triple [of a b c] by blast
  show ?case
  proof (cases "rest = []")
    case True
    then show ?thesis using e by (auto simp: encode_rec encode_small intro!: exI [of _ "[c0, c1]"])
  next
    case False
    then obtain pre x y where "base64_encode rest = pre @ [x, y]" "(y = pad_char \<longleftrightarrow> length rest mod 3 \<noteq> 0)"
      "(x = pad_char \<longleftrightarrow> length rest mod 3 = 1)"
      using 4 by blast
    then show ?thesis using 4 e by (auto simp: encode_rec mod_Suc intro!: exI [of _ "c0 # c1 # c2 # c3 # pre"])
  qed
qed (simp add: encode_small)


lemma base64_roundtrip:
  assumes "data \<noteq> []"
  shows "base64_decode (base64_encode data @ rest) (length (base64_encode data)) = Some (Some data)"
proof -
  obtain pre x y where e: "base64_encode data = pre @ [x, y]" "(y = pad_char \<longleftrightarrow> length data mod 3 \<noteq> 0)"
    "(x = pad_char \<longleftrightarrow> length data mod 3 = 1)"
    using encode_chars [of data] assms by blast
  let ?n = "length (base64_encode data)"
  have c: "char_at (base64_encode data @ rest) (int ?n - 1) = Some y" "char_at (base64_encode data @ rest) (int ?n - 2) = Some x"
    by (auto simp: e(1) char_at_def nth_append nat_diff_distrib nat_add_distrib)
  have "?n div 4 * 3 - (if y = pad_char then 1 else 0) - (if x = pad_char then 1 else 0) = length data"
    unfolding e(2,3) length_encode by simp presburger
  then show ?thesis using c decode_loop_encode [of data] by (simp add: base64_decode_def length_encode [of data])
qed

text \<open>C19: A mobility ticket that the server has written into an array of at least 13 bytes has 12
  characters, and reading it back gives the number it was made from.\<close>

theorem mobility_ticket_roundtrip:
  assumes "13 \<le> dst_sz"
  shows "\<exists>ticket. mobile_id_to_string mid dst_sz = (12, ticket) \<and> string_to_mobile_id ticket = Some mid"
proof -
  let ?s = "base64_encode (bytes64 mid)"
  have l: "length (bytes64 mid) = 8" "bytes64 mid \<noteq> []" by (auto simp: bytes64_def bytes32_def)
  have n: "length ?s = 12" by (simp add: length_encode l)
  have "strlen (?s @ [0]) = 12"
    using encode_chars [of "bytes64 mid"] n by (simp add: strlen_def cstr_nonzero)
  moreover have "mobile_id_of_bytes (bytes64 mid) = mid" by (simp add: bytes64_def bytes32_def)
  ultimately have "string_to_mobile_id (?s @ [0]) = Some mid"
    using base64_roundtrip [OF l(2), of "[0]"] n by (simp add: string_to_mobile_id_def)
  moreover have "?s \<noteq> []" using n by auto
  ultimately show ?thesis using assms n by (simp add: mobile_id_to_string_def Let_def)
qed

theorem mobility_ticket_roundtrip_witness:
  "\<exists>ticket. mobile_id_to_string 0x0123456789ABCDEF 33 = (12, ticket) \<and> string_to_mobile_id ticket = Some 0x0123456789ABCDEF"
  by (rule mobility_ticket_roundtrip) simp

section \<open>Reads outside the arrays\<close>

lemma sextet_fault: "sextet c = None \<longleftrightarrow> 0x80 \<le> c"
  by (auto simp: sextet_def)

lemma decode_loop_fault:
  "length cs mod 4 = 0 \<Longrightarrow> decode_loop cs left = None \<longleftrightarrow> (\<exists>c\<in>set cs. 0x80 \<le> c)"
proof (induction cs left rule: decode_loop.induct)
  case (1 c0 c1 c2 c3 rest left)
  have "decode_triple c0 c1 c2 c3 = None \<longleftrightarrow> (\<exists>c\<in>{c0, c1, c2, c3}. 0x80 \<le> c)"
    by (auto simp: decode_triple_def sextet_fault [symmetric] Let_def bind_eq_None_conv)
  moreover have "length rest mod 4 = 0" using "1.prems" by (simp add: mod_Suc split: if_splits)
  ultimately show ?case using "1.IH" by (auto simp: bind_eq_None_conv)
qed auto

text \<open>C18: Reading the ticket of a refresh request makes a read outside its arrays exactly when the length
  of the string is a multiple of four and the string is empty or holds a character above 127: the
  empty string is read before its start, and such a character indexes the decoding table with a
  negative number.\<close>

theorem mobility_ticket_overread:
  "string_to_mobile_id src = None \<longleftrightarrow>
     strlen src mod 4 = 0 \<and> (strlen src = 0 \<or> (\<exists>c\<in>set (cstr src). 0x80 \<le> c))"
proof -
  let ?n = "strlen src"
  have t: "take ?n src = cstr src" "?n \<le> length src"
    by (simp_all add: strlen_def cstr_def takeWhile_eq_take [symmetric] length_takeWhile_le)
  have n: "?n mod 4 = 0 \<Longrightarrow> ?n \<noteq> 0 \<Longrightarrow> 4 \<le> ?n" by presburger
  have "string_to_mobile_id src = None \<longleftrightarrow> base64_decode src ?n = None"
    by (auto simp: string_to_mobile_id_def bind_eq_None_conv split: option.splits)
  also have "\<dots> \<longleftrightarrow> ?n mod 4 = 0 \<and> (?n = 0 \<or> (\<exists>c\<in>set (cstr src). 0x80 \<le> c))"
  proof (cases "?n mod 4 = 0 \<and> ?n \<noteq> 0")
    case True
    then have "\<exists>x. char_at src (int ?n - 1) = Some x" "\<exists>x. char_at src (int ?n - 2) = Some x"
      using n t(2) by (auto simp: char_at_def)
    then show ?thesis
      using True decode_loop_fault [of "cstr src"] t(1) by (auto simp: base64_decode_def bind_eq_None_conv strlen_def Let_def)
  qed (auto simp: base64_decode_def char_at_def)
  finally show ?thesis .
qed

end
