(* ===== verification/User_Db.thy ===== *)
theory User_Db
  imports Base64 Turn_Maps Stun_Integrity "HOL-Library.Multiset"
begin

text \<open>
  Realms, allocation quotas and user keys (userdb.c).  A realm is a structure that is found by name
  in the map realms; the structures are the elements of the list rparams and a pointer to one is its
  index, the default realm being the first.  The mutexes are not modelled: every operation is one
  step.  The counters of a realm count the allocations of each user and of all users.

  A database driver is a record of the functions that it provides.  get_user_key is modelled for
  servers without OAuth (in_oauth and *out_oauth are zero).
\<close>

section \<open>Realms\<close>

record perf_options =
  max_bps :: u64
  total_quota :: int
  user_quota :: int

record realm_options =
  ro_name :: "u8 list"
  ro_perf_options :: perf_options

record realm_status =
  total_current_allocs :: int
  alloc_counters :: "u64 ur_string_map"

record realm_params =
  is_default_realm :: bool
  rp_options :: realm_options
  rp_status :: realm_status

record user_db =
  realms :: "nat ur_string_map"
  rparams :: "realm_params list"
  realms_list :: "u8 list list"
  o_to_realm :: "u8 list ur_string_map"

definition map_put :: "'v ur_string_map \<Rightarrow> u8 list \<Rightarrow> 'v option \<Rightarrow> 'v ur_string_map" where
  "map_put m key v = snd (snd (ur_string_map_put m key v))"

definition map_del :: "'v ur_string_map \<Rightarrow> u8 list \<Rightarrow> 'v ur_string_map" where
  "map_del m key = snd (snd (ur_string_map_del m key))"

definition create_default_realm :: user_db where
  "create_default_realm =
     \<lparr>realms = ur_string_map_create False,
      rparams = [\<lparr>is_default_realm = True,
                  rp_options = \<lparr>ro_name = [], ro_perf_options = \<lparr>max_bps = 0, total_quota = 0, user_quota = 0\<rparr>\<rparr>,
                  rp_status = \<lparr>total_current_allocs = 0, alloc_counters = ur_string_map_create False\<rparr>\<rparr>],
      realms_list = [],
      o_to_realm = ur_string_map_create True\<rparr>"

text \<open>Reading and writing through a pointer to a realm.\<close>

definition realm_at :: "user_db \<Rightarrow> nat option \<Rightarrow> realm_params option" where
  "realm_at db p = do { i \<leftarrow> p; if i < length (rparams db) then Some (rparams db ! i) else None }"

definition put_realm :: "user_db \<Rightarrow> nat option \<Rightarrow> realm_params \<Rightarrow> user_db" where
  "put_realm db p rp = (case p of None \<Rightarrow> db | Some i \<Rightarrow> db\<lparr>rparams := (rparams db)[i := rp]\<rparr>)"

definition get_default_realm_options :: "user_db \<Rightarrow> realm_options option" where
  "get_default_realm_options db = map_option rp_options (realm_at db (Some 0))"

definition set_default_realm_name :: "user_db \<Rightarrow> u8 list \<Rightarrow> user_db option" where
  "set_default_realm_name db realm = do {
     rp \<leftarrow> realm_at db (Some 0);
     let rp = rp\<lparr>rp_options := (rp_options rp)\<lparr>ro_name := realm\<rparr>\<rparr>;
     Some ((put_realm db (Some 0) rp)\<lparr>realms := map_put (realms db) realm (Some 0), realms_list := realms_list db @ [realm]\<rparr>)
   }"

definition get_realm :: "user_db \<Rightarrow> u8 list \<Rightarrow> (nat option \<times> user_db) option" where
  "get_realm db name =
     (if name \<noteq> [] then
        (case ur_string_map_get (realms db) name of
           Some value \<Rightarrow> Some (value, db)
         | None \<Rightarrow> do {
             def \<leftarrow> realm_at db (Some 0);
             let ret = def\<lparr>rp_options := (rp_options def)\<lparr>ro_name := name\<rparr>,
                           rp_status := (rp_status def)\<lparr>alloc_counters := ur_string_map_create False\<rparr>\<rparr>;
             let p = length (rparams db);
             Some (Some p, db\<lparr>realms := map_put (realms db) name (Some p), rparams := rparams db @ [ret],
                             realms_list := realms_list db @ [name]\<rparr>)
           })
      else Some (Some 0, db))"

definition get_realm_options_by_name :: "user_db \<Rightarrow> u8 list \<Rightarrow> (realm_options \<times> user_db) option" where
  "get_realm_options_by_name db realm = do {
     (p, db) \<leftarrow> get_realm db realm;
     rp \<leftarrow> realm_at db p;
     Some (rp_options rp, db)
   }"

definition get_realm_options_by_origin :: "user_db \<Rightarrow> u8 list \<Rightarrow> (bool \<times> realm_options \<times> user_db) option" where
  "get_realm_options_by_origin db origin =
     (case ur_string_map_get (o_to_realm db) origin of
        Some (Some realm) \<Rightarrow> do {
          (ro, db) \<leftarrow> get_realm_options_by_name db realm;
          Some (True, ro, db)
        }
      | _ \<Rightarrow> do {
          ro \<leftarrow> get_default_realm_options db;
          Some (False, ro, db)
        })"

definition change_total_quota :: "user_db \<Rightarrow> u8 list \<Rightarrow> int \<Rightarrow> user_db option" where
  "change_total_quota db realm v = do {
     (p, db) \<leftarrow> get_realm db realm;
     rp \<leftarrow> realm_at db p;
     let ro = rp_options rp;
     Some (put_realm db p (rp\<lparr>rp_options := ro\<lparr>ro_perf_options := (ro_perf_options ro)\<lparr>total_quota := v\<rparr>\<rparr>\<rparr>))
   }"

definition change_user_quota :: "user_db \<Rightarrow> u8 list \<Rightarrow> int \<Rightarrow> user_db option" where
  "change_user_quota db realm v = do {
     (p, db) \<leftarrow> get_realm db realm;
     rp \<leftarrow> realm_at db p;
     let ro = rp_options rp;
     Some (put_realm db p (rp\<lparr>rp_options := ro\<lparr>ro_perf_options := (ro_perf_options ro)\<lparr>user_quota := v\<rparr>\<rparr>\<rparr>))
   }"

section \<open>User names that carry a time\<close>

definition strchr :: "u8 list \<Rightarrow> u8 \<Rightarrow> nat option" where
  "strchr s c =
     (let i = length (takeWhile (\<lambda>x. x \<noteq> c) s) in if i < length s \<or> c = 0 then Some i else None)"

definition isfigure :: "u8 \<Rightarrow> bool" where
  "isfigure c \<longleftrightarrow> 0x30 \<le> c \<and> c \<le> 0x39"

text \<open>atol with a 64-bit long; a value out of range gives the nearest one.\<close>

definition figures_val :: "u8 list \<Rightarrow> int" where
  "figures_val s = foldl (\<lambda>v c. 10 * v + uint (c - 0x30)) 0 (takeWhile isfigure s)"

definition atol :: "u8 list \<Rightarrow> int" where
  "atol s0 =
     (let s = dropWhile isspace s0 in
      case s of
        [] \<Rightarrow> 0
      | c # t \<Rightarrow>
          if c = 0x2D then max (- 9223372036854775808) (- figures_val t)
          else if c = 0x2B then min 9223372036854775807 (figures_val t)
          else min 9223372036854775807 (figures_val s))"

record turn_params =
  rest_api_separator :: u8
  use_auth_secret_with_timestamp :: bool
  static_auth_secrets :: "u8 list list"
  static_accounts :: "u8 list ur_string_map"
  users_number :: nat

definition get_rest_api_timestamp :: "turn_params \<Rightarrow> u8 list \<Rightarrow> turn_time_t" where
  "get_rest_api_timestamp tp usname =
     word_of_int
       (case strchr usname (rest_api_separator tp) of
          None \<Rightarrow> atol usname
        | Some col \<Rightarrow>
            if col = 0 then atol (drop 1 usname)
            else if \<not> list_all isfigure (take col usname) then atol (drop (col + 1) usname)
            else atol (take col usname))"

definition get_real_username :: "turn_params \<Rightarrow> u8 list \<Rightarrow> u8 list" where
  "get_real_username tp usname =
     (if usname \<noteq> [] \<and> use_auth_secret_with_timestamp tp then
        (case strchr usname (rest_api_separator tp) of
           None \<Rightarrow> usname
         | Some col \<Rightarrow>
             if col = 0 then drop 1 usname
             else if list_all isfigure (take col usname) then drop (col + 1) usname
             else take col usname)
      else usname)"

section \<open>Quotas\<close>

text \<open>A counter is stored as a pointer, zero being the null pointer.\<close>

definition counter_value :: "u64 option option \<Rightarrow> u64" where
  "counter_value v = (case v of Some (Some n) \<Rightarrow> n | _ \<Rightarrow> 0)"

definition as_pointer :: "u64 \<Rightarrow> u64 option" where
  "as_pointer n = (if n = 0 then None else Some n)"

definition quota_username :: "turn_params \<Rightarrow> u8 list option \<Rightarrow> bool \<Rightarrow> u8 list" where
  "quota_username tp user oauth = (if oauth then [] else case user of None \<Rightarrow> [] | Some u \<Rightarrow> get_real_username tp u)"

definition count_allocation :: "realm_params \<Rightarrow> u8 list \<Rightarrow> int \<times> realm_params" where
  "count_allocation rp username =
     (let po = ro_perf_options (rp_options rp); st = rp_status rp; total = total_current_allocs st;
          value = ur_string_map_get (alloc_counters st) username;
          counted = (\<lambda>n. rp\<lparr>rp_status := \<lparr>total_current_allocs = total + 1,
                                         alloc_counters = map_put (alloc_counters st) username (as_pointer n)\<rparr>\<rparr>)
      in
      if total_quota po \<noteq> 0 \<and> total \<ge> total_quota po then (- 1, rp)
      else if username \<noteq> [] then
        (if value = None then (0, counted 1)
         else if user_quota po \<noteq> 0 \<and> counter_value value \<ge> word_of_int (user_quota po) then (- 1, rp)
         else (0, counted (counter_value value + 1)))
      else (0, rp\<lparr>rp_status := st\<lparr>total_current_allocs := total + 1\<rparr>\<rparr>))"

definition check_new_allocation_quota ::
    "turn_params \<Rightarrow> user_db \<Rightarrow> u8 list option \<Rightarrow> bool \<Rightarrow> u8 list \<Rightarrow> (int \<times> user_db) option" where
  "check_new_allocation_quota tp db user oauth realm =
     (if user \<noteq> None \<or> oauth then do {
        let username = quota_username tp user oauth;
        (p, db) \<leftarrow> get_realm db realm;
        rp \<leftarrow> realm_at db p;
        let (ret, rp) = count_allocation rp username;
        Some (ret, put_realm db p rp)
      } else Some (0, db))"

definition uncount_allocation :: "realm_params \<Rightarrow> u8 list \<Rightarrow> realm_params" where
  "uncount_allocation rp username =
     (let st = rp_status rp;
          value = counter_value (ur_string_map_get (alloc_counters st) username);
          m = (if username \<noteq> [] \<and> value \<noteq> 0 then
                 (if value - 1 = 0 then map_del (alloc_counters st) username
                  else map_put (alloc_counters st) username (as_pointer (value - 1)))
               else alloc_counters st);
          total = total_current_allocs st
      in rp\<lparr>rp_status := \<lparr>total_current_allocs = (if total \<noteq> 0 then total - 1 else total), alloc_counters = m\<rparr>\<rparr>)"

definition release_allocation_quota ::
    "turn_params \<Rightarrow> user_db \<Rightarrow> u8 list option \<Rightarrow> bool \<Rightarrow> u8 list \<Rightarrow> user_db option" where
  "release_allocation_quota tp db user oauth realm =
     (if user \<noteq> None then do {
        let username = quota_username tp user oauth;
        (p, db) \<leftarrow> get_realm db realm;
        rp \<leftarrow> realm_at db p;
        Some (put_realm db p (uncount_allocation rp username))
      } else Some db)"

section \<open>Keys of users\<close>

record dbdriver =
  dbd_get_auth_secrets :: "(u8 list list \<Rightarrow> u8 list \<Rightarrow> int \<times> u8 list list) option"
  dbd_get_user_key :: "(u8 list \<Rightarrow> u8 list \<Rightarrow> u8 list \<Rightarrow> int \<times> u8 list) option"

definition get_auth_secrets :: "turn_params \<Rightarrow> dbdriver \<Rightarrow> u8 list \<Rightarrow> int \<times> u8 list list" where
  "get_auth_secrets tp dbd realm =
     (let sl = static_auth_secrets tp; ret = (if sl \<noteq> [] then 0 else - 1) in
      case dbd_get_auth_secrets dbd of None \<Rightarrow> (ret, sl) | Some f \<Rightarrow> f sl realm)"

text \<open>The loop over the secrets: the password of a secret is the code of the user name under it.\<close>

fun try_secrets ::
    "hmac_fn \<Rightarrow> digest_fn \<Rightarrow> buffer \<Rightarrow> nat \<Rightarrow> u8 list \<Rightarrow> u8 list \<Rightarrow> u8 list \<Rightarrow> u8 list list \<Rightarrow> (int \<times> u8 list) option" where
  "try_secrets hmac digest msg sz usname realm key [] = Some (- 1, key)"
| "try_secrets hmac digest msg sz usname realm key (secret # rest) = do {
     mac \<leftarrow> stun_calculate_hmac hmac usname (strlen usname) secret (strlen secret) SHATYPE_SHA1;
     case mac of
       None \<Rightarrow> try_secrets hmac digest msg sz usname realm key rest
     | Some m \<Rightarrow>
         let pwd = base64_encode m in
         if length pwd < 1 then try_secrets hmac digest msg sz usname realm key rest
         else do {
           (ok, key) \<leftarrow> stun_produce_integrity_key_str digest usname realm (pwd @ [0]) key SHATYPE_SHA1;
           (r, _) \<leftarrow> (if ok then stun_check_message_integrity_by_key_str hmac TURN_CREDENTIALS_LONG_TERM msg sz key [] SHATYPE_SHA1
                      else Some (- 1, msg));
           if r > 0 then Some (0, key) else try_secrets hmac digest msg sz usname realm key rest
         }
   }"

definition secret_user_key ::
    "hmac_fn \<Rightarrow> digest_fn \<Rightarrow> turn_params \<Rightarrow> dbdriver \<Rightarrow> turn_time_t \<Rightarrow> u8 list \<Rightarrow> u8 list \<Rightarrow> u8 list \<Rightarrow> buffer \<Rightarrow> nat \<Rightarrow>
     (int \<times> u8 list) option" where
  "secret_user_key hmac digest tp dbd now usname realm key msg sz =
     (let (rc, sl) = get_auth_secrets tp dbd realm in
      if rc < 0 then Some (- 1, key)
      else if turn_time_before (get_rest_api_timestamp tp usname) now then Some (- 1, key)
      else do {
        sar \<leftarrow> stun_attr_get_first_by_type_str msg sz STUN_ATTRIBUTE_MESSAGE_INTEGRITY;
        sarlen \<leftarrow> stun_attr_get_len msg sar;
        if sar = None \<or> sarlen \<noteq> 20 then Some (- 1, key)
        else try_secrets hmac digest msg sz usname realm key sl
      })"

definition get_user_key ::
    "hmac_fn \<Rightarrow> digest_fn \<Rightarrow> turn_params \<Rightarrow> dbdriver \<Rightarrow> turn_time_t \<Rightarrow> u8 list \<Rightarrow> u8 list \<Rightarrow> u8 list \<Rightarrow> buffer \<Rightarrow> nat \<Rightarrow>
     (int \<times> u8 list) option" where
  "get_user_key hmac digest tp dbd now usname realm key msg sz =
     (if use_auth_secret_with_timestamp tp then secret_user_key hmac digest tp dbd now usname realm key msg sz
      else
        (case ur_string_map_get (static_accounts tp) usname of
           Some ukey \<Rightarrow> do {
             v \<leftarrow> ukey;
             k \<leftarrow> load v 0 (get_hmackey_size SHATYPE_SHA1);
             key \<leftarrow> store key 0 k;
             Some (0, key)
           }
         | None \<Rightarrow>
             (case dbd_get_user_key dbd of
                None \<Rightarrow> Some (- 1, key)
              | Some f \<Rightarrow> Some (f usname realm key))))"


section \<open>The counters of a realm\<close>

lemmas map_laws = string_put_law [folded map_put_def] string_del_law [folded map_del_def]

definition counter :: "realm_params \<Rightarrow> u8 list \<Rightarrow> nat" where
  "counter rp u = unat (counter_value (ur_string_map_get (alloc_counters (rp_status rp)) u))"

text \<open>The counters of a realm account for the allocations held by the users in held; extra is what the
  counter of all users shows above their number.\<close>

definition accounts :: "int \<Rightarrow> u8 list multiset \<Rightarrow> realm_params \<Rightarrow> bool" where
  "accounts extra held rp \<longleftrightarrow>
     ur_string_map_valid (alloc_counters (rp_status rp)) \<and> 0 \<le> extra \<and>
     total_current_allocs (rp_status rp) = extra + int (size held) \<and>
     (\<forall>u. u \<noteq> [] \<longrightarrow> counter rp u = count held u)"

lemma counter_value_pointer [simp]: "counter_value (Some (as_pointer n)) = n"
  by (simp add: counter_value_def as_pointer_def)

lemma counter_value_None [simp]: "counter_value None = 0"
  by (simp add: counter_value_def)

lemma unat_suc_small: "unat (n :: u64) < 2147483647 \<Longrightarrow> unat (n + 1) = unat n + 1"
  by (subst unat_word_ariths) simp

lemma count_le_size: "count M x \<le> size M"
  by (induction M) auto

lemma count_allocation_accounts:
  assumes "accounts extra held rp" "size held < 2147483647" "count_allocation rp u = (rc, rp')"
  shows "(rc = 0 \<and> accounts extra (add_mset u held) rp' \<or> rc = - 1 \<and> rp' = rp) \<and> rp_options rp' = rp_options rp"
proof -
  have v: "ur_string_map_valid (alloc_counters (rp_status rp))"
    and c: "\<And>x. x \<noteq> [] \<Longrightarrow> unat (counter_value (ur_string_map_get (alloc_counters (rp_status rp)) x)) = count held x"
    using assms(1) by (auto simp: accounts_def counter_def)
  have s: "unat (counter_value (ur_string_map_get (alloc_counters (rp_status rp)) u) + 1) = count held u + 1" if "u \<noteq> []"
    using c [OF that] count_le_size [of held u] assms(2) by (simp add: unat_suc_small)
  have n: "ur_string_map_get (alloc_counters (rp_status rp)) u = None \<Longrightarrow> u \<noteq> [] \<Longrightarrow> count held u = 0"
    using c [of u] by (simp add: counter_value_def)
  show ?thesis
    using assms(1,3) map_laws(1) [OF v] s n c
    by (auto simp: count_allocation_def accounts_def counter_def Let_def split: if_splits)
qed

lemma count_allocation_bound:
  assumes "accounts extra held rp" "count_allocation rp u = (0, rp')"
  shows "total_quota (ro_perf_options (rp_options rp)) \<noteq> 0 \<longrightarrow>
      extra + int (size held) < total_quota (ro_perf_options (rp_options rp))"
    and "u \<noteq> [] \<longrightarrow> 0 < user_quota (ro_perf_options (rp_options rp)) \<longrightarrow> user_quota (ro_perf_options (rp_options rp)) < 2147483648 \<longrightarrow>
      int (count held u) < user_quota (ro_perf_options (rp_options rp))"
proof -
  show "total_quota (ro_perf_options (rp_options rp)) \<noteq> 0 \<longrightarrow>
      extra + int (size held) < total_quota (ro_perf_options (rp_options rp))"
    using assms by (auto simp: count_allocation_def accounts_def Let_def split: if_splits)
  let ?q = "user_quota (ro_perf_options (rp_options rp))"
  let ?v = "ur_string_map_get (alloc_counters (rp_status rp)) u"
  show "u \<noteq> [] \<longrightarrow> 0 < ?q \<longrightarrow> ?q < 2147483648 \<longrightarrow> int (count held u) < ?q"
  proof (intro impI)
    assume h: "u \<noteq> []" "0 < ?q" "?q < 2147483648"
    then have c: "unat (counter_value ?v) = count held u" using assms(1) by (simp add: accounts_def counter_def)
    show "int (count held u) < ?q"
    proof (cases ?v)
      case None
      then show ?thesis using c h by (simp add: counter_value_def)
    next
      case Some
      then have "counter_value ?v < word_of_int ?q"
        using assms(2) h by (auto simp: count_allocation_def Let_def split: if_splits)
      then have "uint (counter_value ?v) < ?q"
        using h by (simp add: word_less_def uint_word_of_int)
      then show ?thesis by (simp add: c [symmetric])
    qed
  qed
qed

lemma uncount_allocation_accounts:
  assumes "accounts extra held rp" "u \<in># held" "size held \<le> 2147483647"
  shows "accounts extra (held - {#u#}) (uncount_allocation rp u) \<and> rp_options (uncount_allocation rp u) = rp_options rp"
proof -
  let ?v = "counter_value (ur_string_map_get (alloc_counters (rp_status rp)) u)"
  have v: "ur_string_map_valid (alloc_counters (rp_status rp))"
    and c: "\<And>x. x \<noteq> [] \<Longrightarrow> unat (counter_value (ur_string_map_get (alloc_counters (rp_status rp)) x)) = count held x"
    using assms(1) by (auto simp: accounts_def counter_def)
  have pos: "0 < count held u" "size (held - {#u#}) = size held - 1" "0 < size held"
    using assms(2) by (auto simp: size_Diff_singleton nonempty_has_size [symmetric])
  have w: "u \<noteq> [] \<Longrightarrow> ?v \<noteq> 0 \<and> unat (?v - 1) = count held u - 1"
    using c [of u] pos(1) by (metis not_gr_zero unat_minus_one unat_0)
  have z: "u \<noteq> [] \<Longrightarrow> ?v - 1 = 0 \<Longrightarrow> count held u = 1"
    using w pos(1) by (metis One_nat_def Suc_leI diff_diff_cancel diff_zero unat_0)
  have "0 \<le> extra" "total_current_allocs (rp_status rp) = extra + int (size held)" using assms(1) by (auto simp: accounts_def)
  then show ?thesis
    using map_laws [OF v] w z c pos v
    by (auto simp: uncount_allocation_def accounts_def counter_def Let_def split: if_splits)
qed


section \<open>Runs of the quota functions\<close>

text \<open>The allocations that are held, each with its realm and the name it is counted under.  A run ends
  allocations that are held, and may read realms and change the default name and the quotas at any
  time.  As many allocations are held as an int can count.\<close>

type_synonym ledger = "(nat \<times> u8 list) multiset"

definition held_in :: "ledger \<Rightarrow> nat \<Rightarrow> u8 list multiset" where
  "held_in L i = image_mset snd (filter_mset (\<lambda>e. fst e = i) L)"

inductive quota_run :: "turn_params \<Rightarrow> user_db \<Rightarrow> ledger \<Rightarrow> bool" for tp where
  Start: "quota_run tp create_default_realm {#}"
| Name: "quota_run tp db L \<Longrightarrow> set_default_realm_name db n = Some db' \<Longrightarrow> quota_run tp db' L"
| Lookup: "quota_run tp db L \<Longrightarrow> get_realm db n = Some (p, db') \<Longrightarrow> quota_run tp db' L"
| Total: "quota_run tp db L \<Longrightarrow> change_total_quota db n v = Some db' \<Longrightarrow> quota_run tp db' L"
| User: "quota_run tp db L \<Longrightarrow> change_user_quota db n v = Some db' \<Longrightarrow> quota_run tp db' L"
| Acquire: "quota_run tp db L \<Longrightarrow> size L < 2147483647 \<Longrightarrow> user \<noteq> None \<or> oauth \<Longrightarrow>
    get_realm db realm = Some (Some i, d) \<Longrightarrow> check_new_allocation_quota tp db user oauth realm = Some (0, db') \<Longrightarrow>
    quota_run tp db' (add_mset (i, quota_username tp user oauth) L)"
| Refuse: "quota_run tp db L \<Longrightarrow> size L < 2147483647 \<Longrightarrow> check_new_allocation_quota tp db user oauth realm = Some (- 1, db') \<Longrightarrow>
    quota_run tp db' L"
| Release: "quota_run tp db L \<Longrightarrow> get_realm db realm = Some (Some i, d) \<Longrightarrow> user \<noteq> None \<Longrightarrow>
    (i, quota_username tp user oauth) \<in># L \<Longrightarrow> release_allocation_quota tp db user oauth realm = Some db' \<Longrightarrow>
    quota_run tp db' (L - {#(i, quota_username tp user oauth)#})"

definition pointers_ok :: "nat \<Rightarrow> nat ur_string_map \<Rightarrow> bool" where
  "pointers_ok n m \<longleftrightarrow> ur_string_map_valid m \<and> (\<forall>k v. ur_string_map_get m k = Some v \<longrightarrow> (\<exists>i<n. v = Some i))"

definition ledger_ok :: "ledger \<Rightarrow> realm_params list \<Rightarrow> bool" where
  "ledger_ok L rps \<longleftrightarrow> rps \<noteq> [] \<and> size L \<le> 2147483647 \<and> (\<forall>e \<in># L. fst e < length rps) \<and>
     (\<forall>i < length rps. \<exists>extra. accounts extra (held_in L i) (rps ! i) \<and> (i = 0 \<longrightarrow> extra = 0))"

definition db_ok :: "ledger \<Rightarrow> user_db \<Rightarrow> bool" where
  "db_ok L db \<longleftrightarrow> pointers_ok (length (rparams db)) (realms db) \<and> ledger_ok L (rparams db)"

lemma pointers_put: "pointers_ok n m \<Longrightarrow> n \<le> k \<Longrightarrow> i < k \<Longrightarrow> pointers_ok k (map_put m key (Some i))"
  using map_laws(1) [of m key "Some i"] by (fastforce simp: pointers_ok_def)

lemma ledger_update:
  assumes "ledger_ok L rps" "size L' \<le> 2147483647" "\<forall>e \<in># L'. fst e < length rps" "i < length rps"
    "\<And>extra. accounts extra (held_in L i) (rps ! i) \<Longrightarrow> accounts extra (held_in L' i) rp"
    "\<And>j. j \<noteq> i \<Longrightarrow> held_in L' j = held_in L j"
  shows "ledger_ok L' (rps[i := rp])"
proof -
  have "\<exists>extra. accounts extra (held_in L' j) (rps[i := rp] ! j) \<and> (j = 0 \<longrightarrow> extra = 0)" if j: "j < length rps" for j
  proof -
    obtain extra where "accounts extra (held_in L j) (rps ! j)" "j = 0 \<longrightarrow> extra = 0"
      using assms(1) j by (auto simp: ledger_ok_def)
    then show ?thesis using assms(4,5,6) j by (cases "j = i") auto
  qed
  then show ?thesis using assms(1-4) by (simp add: ledger_ok_def)
qed

lemma held_in_simps [simp]:
  "held_in {#} i = {#}"
  "held_in (add_mset (j, u) L) i = (if i = j then add_mset u (held_in L i) else held_in L i)"
  by (simp_all add: held_in_def)

lemma held_in_diff: "(j, u) \<in># L \<Longrightarrow> held_in (L - {#(j, u)#}) i = (if i = j then held_in L i - {#u#} else held_in L i)"
  by (auto dest!: multi_member_split simp: held_in_def)

lemma held_in_mem: "(j, u) \<in># L \<Longrightarrow> u \<in># held_in L j"
  by (force simp: held_in_def)

lemma held_in_size: "size (held_in L i) \<le> size L"
  by (simp add: held_in_def size_filter_mset_lesseq)

lemma held_in_none: "\<forall>e \<in># L. fst e < n \<Longrightarrow> held_in L n = {#}"
  by (auto simp: held_in_def filter_mset_eq_conv dest: less_irrefl_nat intro!: filter_mset_False)

text \<open>A realm that is looked up exists afterwards.\<close>

lemma new_realm_ledger:
  assumes "ledger_ok L rps"
  shows "ledger_ok L (rps @ [(rps ! 0)\<lparr>rp_options := ro, rp_status := (rp_status (rps ! 0))\<lparr>alloc_counters := ur_string_map_create False\<rparr>\<rparr>])"
proof -
  have "accounts 0 (held_in L 0) (rps ! 0)" using assms by (auto simp: ledger_ok_def)
  then have "accounts (int (size (held_in L 0))) {#}
      ((rps ! 0)\<lparr>rp_options := ro, rp_status := (rp_status (rps ! 0))\<lparr>alloc_counters := ur_string_map_create False\<rparr>\<rparr>)"
    by (simp add: accounts_def counter_def string_create_valid string_create_get)
  moreover have "held_in L (length rps) = {#}" using assms by (intro held_in_none) (simp add: ledger_ok_def)
  ultimately show ?thesis using assms by (auto simp: ledger_ok_def nth_append less_Suc_eq)
qed

lemma get_realm_ok:
  assumes "db_ok L db"
  shows "\<exists>i db'. get_realm db n = Some (Some i, db') \<and> i < length (rparams db') \<and> db_ok L db'"
proof (cases "n = [] \<or> ur_string_map_get (realms db) n \<noteq> None")
  case True
  then show ?thesis using assms by (fastforce simp: get_realm_def db_ok_def pointers_ok_def ledger_ok_def)
next
  case False
  have "realm_at db (Some 0) = Some (rparams db ! 0)" using assms by (simp add: realm_at_def db_ok_def ledger_ok_def)
  then show ?thesis
    using False assms new_realm_ledger [of L "rparams db"] pointers_put [of "length (rparams db)" "realms db" "length (rparams db) + 1"]
    by (auto simp: get_realm_def db_ok_def Let_def)
qed

lemma put_realm_ok:
  assumes "db_ok L db" "size L' \<le> 2147483647" "i < length (rparams db)" "\<forall>e \<in># L'. fst e < length (rparams db)"
    "\<And>extra. accounts extra (held_in L i) (rparams db ! i) \<Longrightarrow> accounts extra (held_in L' i) rp"
    "\<And>j. j \<noteq> i \<Longrightarrow> held_in L' j = held_in L j"
  shows "db_ok L' (put_realm db (Some i) rp)"
  using assms ledger_update [of L "rparams db" L' i rp] by (simp add: db_ok_def put_realm_def)

lemma options_accounts: "accounts extra L (rp\<lparr>rp_options := ro\<rparr>) = accounts extra L rp"
  by (simp add: accounts_def counter_def)

lemma put_options_ok:
  assumes "db_ok L db" "i < length (rparams db)"
  shows "db_ok L (put_realm db (Some i) ((rparams db ! i)\<lparr>rp_options := ro\<rparr>))"
  using assms by (intro put_realm_ok [where L = L]) (auto simp: options_accounts db_ok_def ledger_ok_def)

lemma quota_change_ok:
  assumes "db_ok L db" "change_total_quota db n v = Some db' \<or> change_user_quota db n v = Some db'"
  shows "db_ok L db'"
proof -
  obtain i d where g: "get_realm db n = Some (Some i, d)" "i < length (rparams d)" "db_ok L d"
    using get_realm_ok [OF assms(1)] by blast
  from assms(2) show ?thesis
    using g put_options_ok [OF g(3,2)] by (auto simp: change_total_quota_def change_user_quota_def realm_at_def Let_def)
qed

lemma default_name_ok:
  assumes "db_ok L db" "set_default_realm_name db n = Some db'"
  shows "db_ok L db'"
proof -
  have l: "0 < length (rparams db)" using assms(1) by (simp add: db_ok_def ledger_ok_def)
  have "pointers_ok (length (rparams db)) (map_put (realms db) n (Some 0))"
    using assms(1) l by (intro pointers_put [of "length (rparams db)"]) (auto simp: db_ok_def)
  then show ?thesis
    using assms l put_options_ok [OF assms(1) l] by (auto simp: set_default_realm_name_def realm_at_def db_ok_def put_realm_def Let_def)
qed

text \<open>What an admission did.\<close>

lemma check_quota_cases:
  assumes "db_ok L db" "size L < 2147483647" "user \<noteq> None \<or> oauth" "check_new_allocation_quota tp db user oauth realm = Some (rc, db')"
  shows "\<exists>i d rp. get_realm db realm = Some (Some i, d) \<and> db_ok L d \<and> i < length (rparams d) \<and>
    count_allocation (rparams d ! i) (quota_username tp user oauth) = (rc, rp) \<and> db' = put_realm d (Some i) rp \<and>
    db_ok (if rc = 0 then add_mset (i, quota_username tp user oauth) L else L) db'"
proof -
  obtain i d where g: "get_realm db realm = Some (Some i, d)" "i < length (rparams d)" "db_ok L d"
    using get_realm_ok [OF assms(1)] by blast
  let ?u = "quota_username tp user oauth"
  obtain rc' rp where c: "count_allocation (rparams d ! i) ?u = (rc', rp)" by fastforce
  then have eq: "rc' = rc" "db' = put_realm d (Some i) rp"
    using assms(3,4) g by (auto simp: check_new_allocation_quota_def realm_at_def)
  have s: "size (held_in L i) < 2147483647" using held_in_size [of L i] assms(2) by linarith
  have a: "accounts extra (held_in L i) (rparams d ! i) \<Longrightarrow>
      (rc = 0 \<and> accounts extra (add_mset ?u (held_in L i)) rp \<or> rc = - 1 \<and> rp = rparams d ! i)" for extra
    using count_allocation_accounts [OF _ s c] eq by auto
  have "db_ok (if rc = 0 then add_mset (i, ?u) L else L) db'"
    unfolding eq using g assms(2) a by (intro put_realm_ok [OF g(3)]) (auto simp: db_ok_def ledger_ok_def)
  then show ?thesis using g c eq by blast
qed

lemma release_ok:
  assumes "db_ok L db" "get_realm db realm = Some (Some i, d)" "user \<noteq> None" "(i, quota_username tp user oauth) \<in># L"
    "release_allocation_quota tp db user oauth realm = Some db'"
  shows "db_ok (L - {#(i, quota_username tp user oauth)#}) db'"
proof -
  let ?u = "quota_username tp user oauth"
  have g: "i < length (rparams d)" "db_ok L d" using get_realm_ok [OF assms(1), of realm] assms(2) by auto
  have eq: "db' = put_realm d (Some i) (uncount_allocation (rparams d ! i) ?u)"
    using assms g by (auto simp: release_allocation_quota_def realm_at_def)
  have "size (held_in L i) \<le> 2147483647" using held_in_size [of L i] assms(1) by (simp add: db_ok_def ledger_ok_def)
  then show ?thesis
    unfolding eq using g assms(4) uncount_allocation_accounts [OF _ held_in_mem [OF assms(4)]]
    by (intro put_realm_ok [OF g(2)]) (auto simp: db_ok_def ledger_ok_def held_in_diff size_Diff_singleton dest: in_diffD)
qed

lemma quota_run_ok: "quota_run tp db L \<Longrightarrow> db_ok L db"
proof (induction rule: quota_run.induct)
  case Start
  show ?case
    by (simp add: db_ok_def pointers_ok_def ledger_ok_def create_default_realm_def accounts_def counter_def counter_value_def string_create_valid string_create_get)
next
  case (Lookup db L n p db')
  then show ?case using get_realm_ok [of L db n] by auto
next
  case (Acquire db L user oauth realm i d db')
  then show ?case using check_quota_cases [of L db user oauth tp realm 0 db'] by auto
next
  case (Refuse db L user oauth realm db')
  then show ?case
    using check_quota_cases [of L db user oauth tp realm "- 1" db']
    by (cases "user \<noteq> None \<or> oauth") (auto simp: check_new_allocation_quota_def)
next
  case (Release db L realm i d user oauth db')
  then show ?case using release_ok by blast
qed (auto intro: default_name_ok quota_change_ok)


definition total_in :: "user_db \<Rightarrow> nat \<Rightarrow> int" where
  "total_in db i = total_current_allocs (rp_status (rparams db ! i))"

definition quotas_of :: "user_db \<Rightarrow> nat \<Rightarrow> perf_options" where
  "quotas_of db i = ro_perf_options (rp_options (rparams db ! i))"


text \<open>C6: The counters are exact: in every state of a run the counter of each user in each realm is the
  number of allocations that the user holds there, the counter of all users is never below the number
  held in the realm, and for the default realm it is equal to it; so it is back at zero when every
  allocation has been released.\<close>

theorem quota_counters_exact:
  assumes "quota_run tp db L" "i < length (rparams db)"
  shows "(\<forall>u. u \<noteq> [] \<longrightarrow> counter (rparams db ! i) u = count (held_in L i) u) \<and>
    int (size (held_in L i)) \<le> total_in db i \<and> (i = 0 \<longrightarrow> total_in db i = int (size (held_in L i)))"
  using quota_run_ok [OF assms(1)] assms(2) by (auto simp: db_ok_def ledger_ok_def accounts_def total_in_def)

text \<open>C17: A realm that is named for the first time starts with the counter of the default realm: when
  the default realm has reached its total quota, the first allocation in a new realm is refused,
  although nobody holds one there.\<close>

theorem new_realm_inherits_count:
  assumes "quota_run tp db L" "size L < 2147483647" "realm \<noteq> []" "ur_string_map_get (realms db) realm = None"
    and "user \<noteq> None \<or> oauth" "total_quota (quotas_of db 0) \<noteq> 0" "total_quota (quotas_of db 0) \<le> total_in db 0"
  shows "\<exists>d db'. get_realm db realm = Some (Some (length (rparams db)), d) \<and> held_in L (length (rparams db)) = {#} \<and>
    total_in d (length (rparams db)) = total_in db 0 \<and> check_new_allocation_quota tp db user oauth realm = Some (- 1, db')"
proof -
  have ok: "db_ok L db" using assms(1) by (rule quota_run_ok)
  have "held_in L (length (rparams db)) = {#}" using ok by (intro held_in_none) (simp add: db_ok_def ledger_ok_def)
  moreover have "realm_at db (Some 0) = Some (rparams db ! 0)" using ok by (simp add: realm_at_def db_ok_def ledger_ok_def)
  ultimately show ?thesis
    using assms(3-7)
    by (simp add: get_realm_def check_new_allocation_quota_def realm_at_def total_in_def quotas_of_def count_allocation_def nth_append Let_def)
qed


section \<open>A sample run\<close>

definition sample_params :: turn_params where
  "sample_params = \<lparr>rest_api_separator = 0x3A, use_auth_secret_with_timestamp = False, static_auth_secrets = [],
     static_accounts = ur_string_map_create False, users_number = 0\<rparr>"

text \<open>The default realm with a total quota of one, before and after an allocation of the user a.\<close>

definition one_quota :: user_db where
  "one_quota = (case change_total_quota create_default_realm [] 1 of Some db \<Rightarrow> db | None \<Rightarrow> create_default_realm)"

definition one_held :: user_db where
  "one_held = (case check_new_allocation_quota sample_params one_quota (Some (lit ''a'')) False [] of
     Some (_, db) \<Rightarrow> db | None \<Rightarrow> one_quota)"

lemma one_quota_run: "quota_run sample_params one_quota {#}"
  by (rule quota_run.Total [OF quota_run.Start, where n = "[]" and v = 1])
    (simp add: one_quota_def change_total_quota_def get_realm_def realm_at_def create_default_realm_def)

lemma one_held_eq: "check_new_allocation_quota sample_params one_quota (Some (lit ''a'')) False [] = Some (0, one_held)"
  by (simp add: one_held_def one_quota_def change_total_quota_def get_realm_def realm_at_def create_default_realm_def put_realm_def
      check_new_allocation_quota_def count_allocation_def quota_username_def get_real_username_def sample_params_def
      string_create_get lit_def Let_def)

lemma one_held_run: "quota_run sample_params one_held {#(0, lit ''a'')#}"
proof -
  have "quota_run sample_params one_held (add_mset (0, quota_username sample_params (Some (lit ''a'')) False) {#})"
    by (rule quota_run.Acquire [OF one_quota_run _ _ _ one_held_eq, of 0 one_quota]) (simp_all add: get_realm_def)
  then show ?thesis by (simp add: quota_username_def get_real_username_def sample_params_def)
qed

lemma one_held_facts:
  "total_quota (quotas_of one_held 0) = 1" "total_in one_held 0 = 1" "rparams one_held \<noteq> []"
  "ur_string_map_get (realms one_held) (lit ''b'') = None"
  by (simp_all add: one_held_def one_quota_def change_total_quota_def get_realm_def realm_at_def create_default_realm_def put_realm_def
      check_new_allocation_quota_def count_allocation_def quota_username_def get_real_username_def sample_params_def
      string_create_get lit_def quotas_of_def total_in_def Let_def)


theorem quota_counters_exact_witness:
  "quota_run sample_params one_held {#(0, lit ''a'')#} \<and> counter (rparams one_held ! 0) (lit ''a'') = 1 \<and> total_in one_held 0 = 1"
  using quota_counters_exact [OF one_held_run, of 0] one_held_facts(3) one_held_run by (simp add: lit_def)

theorem new_realm_inherits_count_witness:
  "\<exists>db'. check_new_allocation_quota sample_params one_held (Some (lit ''c'')) False (lit ''b'') = Some (- 1, db') \<and>
     held_in {#(0, lit ''a'')#} (length (rparams one_held)) = {#}"
  using new_realm_inherits_count [OF one_held_run, of "lit ''b''" "Some (lit ''c'')" False] one_held_facts
  by (auto simp: lit_def)

section \<open>Passwords that expire\<close>

text \<open>The password of a user under a shared secret, and the key made of a password.\<close>

definition secret_password :: "hmac_fn \<Rightarrow> u8 list \<Rightarrow> u8 list \<Rightarrow> u8 list option" where
  "secret_password hmac usname secret = map_option base64_encode (hmac EVP_sha1 (cstr secret) (cstr usname))"

definition long_term_key :: "digest_fn \<Rightarrow> u8 list \<Rightarrow> u8 list \<Rightarrow> u8 list \<Rightarrow> u8 list" where
  "long_term_key digest usname realm password =
     digest EVP_md5 (cstr usname @ lit '':'' @ cstr realm @ lit '':'' @ password)"

text \<open>The message is signed with the key of one of the secrets.\<close>

definition signed_with ::
    "hmac_fn \<Rightarrow> digest_fn \<Rightarrow> buffer \<Rightarrow> nat \<Rightarrow> u8 list \<Rightarrow> u8 list \<Rightarrow> u8 list \<Rightarrow> bool" where
  "signed_with hmac digest msg sz usname realm secret \<longleftrightarrow>
     (case secret_password hmac usname secret of
        None \<Rightarrow> False
      | Some p \<Rightarrow> integrity_verdict hmac TURN_CREDENTIALS_LONG_TERM msg sz (long_term_key digest usname realm p) [] SHATYPE_SHA1 = 1)"

lemma verdict_key: "take 16 key = take 16 key' \<Longrightarrow>
    integrity_verdict hmac TURN_CREDENTIALS_LONG_TERM msg sz key [] SHATYPE_SHA1 =
    integrity_verdict hmac TURN_CREDENTIALS_LONG_TERM msg sz key' [] SHATYPE_SHA1"
proof -
  assume "take 16 key = take 16 key'"
  then have "mac_key TURN_CREDENTIALS_LONG_TERM key [] SHATYPE_SHA1 = mac_key TURN_CREDENTIALS_LONG_TERM key' [] SHATYPE_SHA1"
    by (simp add: mac_key_def get_hmackey_size_def)
  then show ?thesis unfolding integrity_verdict_def by (rule ssubst) (rule refl)
qed

lemma verdict_bound: "integrity_verdict hmac ct msg sz key pwd sha > 0 \<longleftrightarrow> integrity_verdict hmac ct msg sz key pwd sha = 1"
  by (auto simp: integrity_verdict_def split: option.splits)

lemma cstr_encoded: "cstr (base64_encode m @ [0]) = base64_encode m"
  using encode_chars [of m] by (simp add: cstr_nonzero)

text \<open>The documented size of the digests of MD5.\<close>

definition digest_sized :: "digest_fn \<Rightarrow> bool" where
  "digest_sized digest \<longleftrightarrow> (\<forall>x. length (digest EVP_md5 x) = 16)"

lemma try_secrets_spec:
  assumes h: "hmac_sized hmac SHATYPE_SHA1" and d0: "digest_sized digest" and sz: "sz \<le> length msg"
  shows "16 \<le> length key \<Longrightarrow> \<exists>rc key'. try_secrets hmac digest msg sz usname realm key sl = Some (rc, key') \<and> length key' = length key \<and>
     (rc = 0 \<and> (\<exists>s\<in>set sl. signed_with hmac digest msg sz usname realm s \<and>
         Some (take 16 key') = map_option (long_term_key digest usname realm) (secret_password hmac usname s)) \<or>
      rc = - 1 \<and> \<not> (\<exists>s\<in>set sl. signed_with hmac digest msg sz usname realm s))"
proof (induction sl arbitrary: key)
  case (Cons s sl)
  have d: "\<And>x. length (digest EVP_md5 x) = 16" using d0 by (simp add: digest_sized_def)
  show ?case
  proof (cases "hmac EVP_sha1 (cstr s) (cstr usname)")
    case None
    then show ?thesis
      using Cons.IH [OF Cons.prems] by (auto simp: stun_calculate_hmac_def hmac_md_def take_strlen load_def signed_with_def secret_password_def)
  next
    case (Some m)
    let ?k = "digest EVP_md5 (cstr usname @ lit '':'' @ cstr realm @ lit '':'' @ base64_encode m)"
    have "length m = 20" using h Some by (auto simp: hmac_sized_def hmac_md_def shasize_of_def)
    then have m: "base64_encode m \<noteq> []" using length_encode [of m] by auto
    have p: "stun_produce_integrity_key_str digest usname realm (base64_encode m @ [0]) key SHATYPE_SHA1 = Some (True, ?k @ drop 16 key)"
      using d Cons.prems by (simp add: stun_produce_integrity_key_str_def store_def patch_def cstr_encoded)
    have v: "stun_check_message_integrity_by_key_str hmac TURN_CREDENTIALS_LONG_TERM msg sz (?k @ drop 16 key) [] SHATYPE_SHA1 =
        Some (integrity_verdict hmac TURN_CREDENTIALS_LONG_TERM msg sz ?k [] SHATYPE_SHA1, msg)"
      using d check_integrity_verdict [OF sz _ h, of TURN_CREDENTIALS_LONG_TERM "?k @ drop 16 key" "[]"]
        verdict_key [of "?k @ drop 16 key" ?k]
      by (simp add: key_ok_def get_hmackey_size_def)
    have s: "signed_with hmac digest msg sz usname realm s \<longleftrightarrow>
        integrity_verdict hmac TURN_CREDENTIALS_LONG_TERM msg sz ?k [] SHATYPE_SHA1 = 1"
      using Some by (simp add: signed_with_def secret_password_def long_term_key_def)
    have ih: "length (?k @ drop 16 key) = length key" using d Cons.prems by simp
    show ?thesis
    proof (cases "integrity_verdict hmac TURN_CREDENTIALS_LONG_TERM msg sz ?k [] SHATYPE_SHA1 = 1")
      case True
      then show ?thesis
        using Some m p v s ih d
        by (simp add: stun_calculate_hmac_def hmac_md_def take_strlen load_def secret_password_def long_term_key_def)
    next
      case False
      then show ?thesis
        using Some m p v s ih Cons.IH [of "?k @ drop 16 key"] Cons.prems
        by (auto simp: stun_calculate_hmac_def hmac_md_def take_strlen load_def verdict_bound)
    qed
  qed
qed simp


text \<open>C7: A server with shared secrets accepts a user name that carries a time exactly when it has
  secrets, the time is not past, and the request is signed with the key made of the user name, the
  realm and the password that one of the secrets gives for the user name.  The key it returns is then
  the key of such a secret; otherwise it answers -1.  The sizes of the outputs of the hash functions
  are those documented.\<close>

theorem secret_credentials_exact:
  assumes "hmac_sized hmac SHATYPE_SHA1" "digest_sized digest" "sz \<le> length msg" "16 \<le> length key"
    and "use_auth_secret_with_timestamp tp"
  shows "\<exists>rc key'. get_user_key hmac digest tp dbd now usname realm key msg sz = Some (rc, key') \<and> rc \<in> {0, - 1} \<and>
    (rc = 0 \<longleftrightarrow> 0 \<le> fst (get_auth_secrets tp dbd realm) \<and> \<not> turn_time_before (get_rest_api_timestamp tp usname) now \<and>
       (\<exists>s\<in>set (snd (get_auth_secrets tp dbd realm)). signed_with hmac digest msg sz usname realm s)) \<and>
    (rc = 0 \<longrightarrow> (\<exists>s\<in>set (snd (get_auth_secrets tp dbd realm)). signed_with hmac digest msg sz usname realm s \<and>
       Some (take 16 key') = map_option (long_term_key digest usname realm) (secret_password hmac usname s)))"
proof -
  let ?mi = "STUN_ATTRIBUTE_MESSAGE_INTEGRITY" and ?sl = "snd (get_auth_secrets tp dbd realm)"
  have first: "stun_attr_get_first_by_type_str msg sz ?mi = Some (find (\<lambda>p. atype msg p = unat ?mi) (attr_offsets msg sz))"
    by (rule get_first_by_type_in [OF assms(3)])
  have no: "\<not> signed_with hmac digest msg sz usname realm s"
    if "case find (\<lambda>p. atype msg p = unat ?mi) (attr_offsets msg sz) of None \<Rightarrow> True | Some p \<Rightarrow> alen msg p \<noteq> 20" for s
    using that by (auto simp: signed_with_def integrity_verdict_def shasize_of_def split: option.splits)
  have len: "stun_attr_get_len msg (Some p) = Some (int (alen msg p))"
    if "find (\<lambda>p. atype msg p = unat ?mi) (attr_offsets msg sz) = Some p" for p
    using that attr_offsets_bounds [of p msg sz] assms(3) by (intro get_len_in) (auto simp: find_Some_iff)
  obtain rc key' where t: "try_secrets hmac digest msg sz usname realm key ?sl = Some (rc, key')"
    "rc = 0 \<and> (\<exists>s\<in>set ?sl. signed_with hmac digest msg sz usname realm s \<and>
         Some (take 16 key') = map_option (long_term_key digest usname realm) (secret_password hmac usname s)) \<or>
      rc = - 1 \<and> \<not> (\<exists>s\<in>set ?sl. signed_with hmac digest msg sz usname realm s)"
    using try_secrets_spec [OF assms(1-4), of usname realm ?sl] by blast
  show ?thesis
  proof (cases "fst (get_auth_secrets tp dbd realm) < 0 \<or> turn_time_before (get_rest_api_timestamp tp usname) now \<or>
      (case find (\<lambda>p. atype msg p = unat ?mi) (attr_offsets msg sz) of None \<Rightarrow> True | Some p \<Rightarrow> alen msg p \<noteq> 20)")
    case True
    have "get_user_key hmac digest tp dbd now usname realm key msg sz = Some (- 1, key)"
      using True first len assms(5)
      by (auto simp: get_user_key_def secret_user_key_def stun_attr_get_len_def split_beta split: option.splits)
    then show ?thesis using True no by auto
  next
    case False
    then obtain p where "find (\<lambda>p. atype msg p = unat ?mi) (attr_offsets msg sz) = Some p" "alen msg p = 20"
      by (auto split: option.splits)
    then have "get_user_key hmac digest tp dbd now usname realm key msg sz = Some (rc, key')"
      using False first len t assms(5) by (simp add: get_user_key_def secret_user_key_def split_beta)
    then show ?thesis using False t by auto
  qed
qed


text \<open>A message signed by a code that is always the same.\<close>

definition signed_message :: buffer where
  "signed_message = [0, 3, 0, 24, 0x21, 0x12, 0xA4, 0x42] @ replicate 12 7 @ [0, 8, 0, 20] @ replicate 20 1"

definition secret_params :: turn_params where
  "secret_params = sample_params\<lparr>use_auth_secret_with_timestamp := True, static_auth_secrets := [lit ''north'']\<rparr>"

definition no_driver :: dbdriver where
  "no_driver = \<lparr>dbd_get_auth_secrets = None, dbd_get_user_key = None\<rparr>"

lemma signed_message_ok:
  "signed_with (\<lambda>_ _ _. Some (replicate 20 1)) (\<lambda>_ _. replicate 16 0) signed_message 44 (lit ''1000:u'') (lit ''r'') (lit ''north'')"
  by code_simp

lemma secret_params_facts:
  "get_auth_secrets secret_params no_driver (lit ''r'') = (0, [lit ''north''])"
  "\<not> turn_time_before (get_rest_api_timestamp secret_params (lit ''1000:u'')) 900"
  by code_simp+

theorem secret_credentials_exact_witness:
  "\<exists>key'. get_user_key (\<lambda>_ _ _. Some (replicate 20 1)) (\<lambda>_ _. replicate 16 0) secret_params no_driver 900 (lit ''1000:u'') (lit ''r'')
     (replicate 64 0) signed_message 44 = Some (0, key') \<and> take 16 key' = replicate 16 0"
proof -
  let ?h = "\<lambda>_ _ _. Some (replicate 20 1)" and ?d = "\<lambda>_ _. replicate 16 0"
  have "hmac_sized ?h SHATYPE_SHA1" "digest_sized ?d" "44 \<le> length signed_message"
    by (simp_all add: hmac_sized_def shasize_of_def digest_sized_def signed_message_def)
  then show ?thesis
    using secret_credentials_exact [of ?h ?d 44 signed_message "replicate 64 0" secret_params no_driver 900 "lit ''1000:u''" "lit ''r''"]
      signed_message_ok secret_params_facts
    by (auto simp: secret_params_def secret_password_def long_term_key_def)
qed

end
