(* ===== verification/Turn_Auth.thy ===== *)
theory Turn_Auth
  imports Turn_Bindings User_Db
begin

text \<open>
  Authentication of requests (check_stun_auth and its callees in ns_turn_server.c, is_secure_string
  of ns_turn_utils.c, start_user_check of userdb.c and the auth server of netengine.c).  With long-term
  credentials a request passes when it carries the realm, the user name and the current nonce of the
  session and a MESSAGE-INTEGRITY under the key of the session.  A session without a key asks the auth
  server for it and the request is processed again when the answer arrives.  Strings of the session
  are their characters without the terminating zero; the key and the password are the arrays.  Of the
  options of its realm a session has the name.

  The nonce is made of two random numbers, as on a host whose long has eight bytes.
\<close>

declare split_paired_All [simp del] split_paired_Ex [simp del]
declare addr_eq_no_port.simps [simp del] addr_hash_no_port.simps [simp del] addr_get_port.simps [simp del] addr_eq.simps [simp del]

section \<open>Strings\<close>

definition contains :: "u8 list \<Rightarrow> u8 list \<Rightarrow> bool" where
  "contains pat s \<longleftrightarrow> (\<exists>i\<in>set [0..<length s + 1]. take (length pat) (drop i s) = pat)"

definition is_secure_string :: "u8 list \<Rightarrow> bool \<Rightarrow> bool" where
  "is_secure_string str sanitizesql =
     (let s = map tolower (cstr str) in
      \<not> (\<exists>c\<in>set [0x20, 0x09, 0x27, 0x22, 0x0A, 0x0D, 0x5C]. c \<in> set s) \<and>
      \<not> (sanitizesql \<and> contains (lit ''union'') s \<and> contains (lit ''select'') s))"

text \<open>The conversion %08lx of a random number, cut to the room that is left.\<close>

definition hex16 :: "u64 \<Rightarrow> u8 list" where
  "hex16 w = map (\<lambda>i. hexdigit (unat (drop_bit (4 * (15 - i)) w AND 0xF))) [0..<16]"

definition hex08 :: "u64 \<Rightarrow> u8 list" where
  "hex08 w = (let ds = hex16 w in drop (min 8 (length (takeWhile (\<lambda>c. c = 0x30) ds))) ds)"

definition nonce_string :: "u64 \<times> u64 \<Rightarrow> u8 list" where
  "nonce_string r = take 8 (hex08 (fst r)) @ take 8 (hex08 (snd r))"

section \<open>Challenges\<close>

definition need_stun_authentication :: "turn_turnserver \<Rightarrow> bool" where
  "need_stun_authentication server \<longleftrightarrow> srv_ct server = TURN_CREDENTIALS_LONG_TERM"

definition create_challenge_response ::
    "u8 list \<Rightarrow> turn_turnserver \<Rightarrow> super_session \<Rightarrow> stun_tid \<Rightarrow> u16 \<Rightarrow> handler \<Rightarrow> handler option" where
  "create_challenge_response rnd server ss tid meth h = do {
     (b, len) \<leftarrow> stun_init_error_response_str rnd meth (nbh_data h) (word_of_int (err_code h)) (reason h) (Some tid)
                    (include_reason_string server);
     (_, b, len) \<leftarrow> stun_attr_add_str b len STUN_ATTRIBUTE_NONCE (Some (nonce ss)) 16;
     (_, b, len) \<leftarrow> stun_attr_add_str b len STUN_ATTRIBUTE_REALM (Some (realm_name ss)) (int (length (realm_name ss)));
     (b, len) \<leftarrow>
       (if srv_oauth server then do {
          let server_name = (if oauth_server_name server \<noteq> [] then oauth_server_name server else realm_name ss);
          (_, b, len) \<leftarrow> stun_attr_add_str b len STUN_ATTRIBUTE_THIRD_PARTY_AUTHORIZATION (Some server_name) (int (length server_name));
          Some (b, len)
        } else Some (b, len));
     Some (h\<lparr>resp_constructed := True, nbh_data := b, nbh_size := len\<rparr>)
   }"

text \<open>The first block of check_stun_auth: a nonce is made when there is none or when it is stale.  The
  first component says that there was none.\<close>

definition refresh_nonce :: "u64 \<times> u64 \<Rightarrow> turn_turnserver \<Rightarrow> super_session \<Rightarrow> bool \<times> super_session" where
  "refresh_nonce r server ss =
     (let new_nonce = (nonce ss = []);
          stale = (stale_nonce server \<noteq> 0 \<and> turn_time_before (nonce_expiration_time ss) (ctime server))
      in (new_nonce,
          if new_nonce \<or> stale
          then ss\<lparr>nonce := nonce_string r, nonce_expiration_time := ctime server + word_of_int (stale_nonce server)\<rparr>
          else ss))"

section \<open>The check\<close>

text \<open>A string attribute, copied to an array of maxlen + 1 characters.\<close>

definition string_attr :: "ioa_net_data \<Rightarrow> u16 \<Rightarrow> nat \<Rightarrow> u8 list option option" where
  "string_attr nd t maxlen = do {
     sar \<leftarrow> stun_attr_get_first_by_type_str (nd_data nd) (nd_size nd) t;
     case sar of
       None \<Rightarrow> Some None
     | Some p \<Rightarrow> do {
         l \<leftarrow> stun_attr_get_len (nd_data nd) sar;
         v \<leftarrow> load (nd_data nd) (p + 4) (min (nat l) maxlen);
         Some (Some (cstr v))
       }
   }"

text \<open>A message to the auth server; the buffer of the request moves into it.\<close>

record auth_message =
  am_ct :: turn_credential_type
  am_in_oauth :: bool
  am_out_oauth :: bool
  am_max_session_time :: int
  am_username :: "u8 list"
  am_realm :: "u8 list"
  am_key :: "u8 list"
  am_pwd :: "u8 list"
  am_in_buffer :: ioa_net_data
  am_ctxkey :: u64
  am_success :: bool

definition start_user_check ::
    "turn_credential_type \<Rightarrow> bool \<Rightarrow> bool \<Rightarrow> u8 list \<Rightarrow> u8 list \<Rightarrow> ioa_net_data \<Rightarrow> u64 \<Rightarrow> auth_message" where
  "start_user_check ct in_oauth out_oauth usname realm nd ctxkey =
     \<lparr>am_ct = ct, am_in_oauth = in_oauth, am_out_oauth = out_oauth, am_max_session_time = 0, am_username = usname,
      am_realm = realm, am_key = replicate 64 0, am_pwd = replicate 257 0, am_in_buffer = nd, am_ctxkey = ctxkey,
      am_success = False\<rparr>"

text \<open>The variables of the caller: those of the handler, the session, the realms, message_integrity, and the
  message that was sent when the reply is postponed.\<close>

record auth_vars =
  au_h :: handler
  au_ss :: super_session
  au_db :: user_db
  message_integrity :: bool
  postponed :: "auth_message option"

definition set_h :: "(handler \<Rightarrow> handler) \<Rightarrow> auth_vars \<Rightarrow> auth_vars" where
  "set_h f v = v\<lparr>au_h := f (au_h v)\<rparr>"

definition challenge :: "u8 list \<Rightarrow> turn_turnserver \<Rightarrow> stun_tid \<Rightarrow> u16 \<Rightarrow> auth_vars \<Rightarrow> auth_vars option" where
  "challenge rnd server tid meth v = do {
     h \<leftarrow> create_challenge_response rnd server (au_ss v) tid meth (au_h v);
     Some (v\<lparr>au_h := h\<rparr>)
   }"

text \<open>The steps of check_stun_auth: a step returns, or goes on with the values of its local variables.\<close>

datatype 'a verdict = Return auth_vars | Go 'a auth_vars

definition check_realm :: "u16 \<Rightarrow> u8 list \<Rightarrow> auth_vars \<Rightarrow> u8 list verdict option" where
  "check_realm meth realm v =
     (if \<not> is_secure_string realm False then Some (Return (set_h (\<lambda>h. h\<lparr>err_code := 400\<rparr>) v))
      else if meth = STUN_METHOD_CONNECTION_BIND then do {
        (ro, db) \<leftarrow> get_realm_options_by_name (au_db v) realm;
        Some (Go realm (v\<lparr>au_db := db, au_ss := (au_ss v)\<lparr>realm_name := ro_name ro\<rparr>\<rparr>))
      }
      else if realm = realm_name (au_ss v) then Some (Go realm v)
      else if oauth (au_ss v) then Some (Go (realm_name (au_ss v)) v)
      else if meth = STUN_METHOD_ALLOCATE
      then Some (Return (set_h (set_error 437 ''Allocation mismatch: wrong credentials: the realm value is incorrect'') v))
      else Some (Return (set_h (set_error 441 ''Wrong credentials: the realm value is incorrect'') v)))"

definition check_username :: "u16 \<Rightarrow> u8 list \<Rightarrow> auth_vars \<Rightarrow> unit verdict" where
  "check_username meth usname v =
     (let ss = au_ss v in
      if \<not> is_secure_string usname True then Return (set_h (\<lambda>h. h\<lparr>err_code := 400\<rparr>) v)
      else if username ss = [] then Go () (v\<lparr>au_ss := ss\<lparr>username := usname\<rparr>\<rparr>)
      else if username ss = usname then Go () v
      else if oauth ss then Go () (v\<lparr>au_ss := ss\<lparr>hmackey_set := False, username := usname\<rparr>\<rparr>)
      else if meth = STUN_METHOD_ALLOCATE then Return (set_h (set_error 437 ''Allocation mismatch: wrong credentials'') v)
      else Return (set_h (\<lambda>h. h\<lparr>err_code := 441\<rparr>) v))"

text \<open>Asking for the key of the user: the reply is postponed, or the request refused.\<close>

definition ask_for_key ::
    "u8 list \<Rightarrow> turn_turnserver \<Rightarrow> stun_tid \<Rightarrow> ioa_net_data \<Rightarrow> u16 \<Rightarrow> bool \<Rightarrow> u8 list \<Rightarrow> u8 list \<Rightarrow> auth_vars \<Rightarrow> auth_vars option" where
  "ask_for_key rnd server tid nd meth can_resume usname realm v =
     (if can_resume then
        Some (v\<lparr>postponed := Some (start_user_check (srv_ct server) (srv_oauth server) (oauth (au_ss v)) usname realm nd
                                     (ss_id (au_ss v)))\<rparr>)
      else challenge rnd server tid meth (set_h (\<lambda>h. h\<lparr>err_code := 401\<rparr>) v))"

definition check_integrity ::
    "hmac_fn \<Rightarrow> u8 list \<Rightarrow> turn_turnserver \<Rightarrow> stun_tid \<Rightarrow> ioa_net_data \<Rightarrow> u16 \<Rightarrow> bool \<Rightarrow> u8 list \<Rightarrow> u8 list \<Rightarrow> auth_vars \<Rightarrow> auth_vars option" where
  "check_integrity hmac rnd server tid nd meth can_resume usname realm v =
     (if \<not> hmackey_set (au_ss v) \<and> cstr (pwd (au_ss v)) = [] then ask_for_key rnd server tid nd meth can_resume usname realm v
      else do {
        (r, _) \<leftarrow> stun_check_message_integrity_by_key_str hmac (srv_ct server) (nd_data nd) (nd_size nd)
                    (hmackey (au_ss v)) (pwd (au_ss v)) SHATYPE_SHA1;
        if r < 1 then ask_for_key rnd server tid nd meth can_resume usname realm v
        else Some (v\<lparr>message_integrity := True\<rparr>)
      })"

definition check_nonce ::
    "hmac_fn \<Rightarrow> u8 list \<Rightarrow> turn_turnserver \<Rightarrow> stun_tid \<Rightarrow> ioa_net_data \<Rightarrow> u16 \<Rightarrow> bool \<Rightarrow> bool \<Rightarrow> u8 list \<Rightarrow> u8 list \<Rightarrow> auth_vars \<Rightarrow> auth_vars option" where
  "check_nonce hmac rnd server tid nd meth can_resume new_nonce usname realm v = do {
     n \<leftarrow> string_attr nd STUN_ATTRIBUTE_NONCE 127;
     case n of
       None \<Rightarrow> Some (set_h (\<lambda>h. h\<lparr>err_code := 400\<rparr>) v)
     | Some received \<Rightarrow>
         if new_nonce then challenge rnd server tid meth (set_h (set_error 438 ''Wrong nonce'') v)
         else if nonce (au_ss v) \<noteq> received then challenge rnd server tid meth (set_h (set_error 438 ''Stale nonce'') v)
         else check_integrity hmac rnd server tid nd meth can_resume usname realm v
   }"

definition check_user ::
    "hmac_fn \<Rightarrow> u8 list \<Rightarrow> turn_turnserver \<Rightarrow> stun_tid \<Rightarrow> ioa_net_data \<Rightarrow> u16 \<Rightarrow> bool \<Rightarrow> bool \<Rightarrow> u8 list \<Rightarrow> auth_vars \<Rightarrow> auth_vars option" where
  "check_user hmac rnd server tid nd meth can_resume new_nonce realm v = do {
     usname \<leftarrow> string_attr nd STUN_ATTRIBUTE_USERNAME 512;
     case usname of
       None \<Rightarrow> Some (set_h (\<lambda>h. h\<lparr>err_code := 400\<rparr>) v)
     | Some usname \<Rightarrow>
         (case check_username meth usname v of
            Return v \<Rightarrow> Some v
          | Go _ v \<Rightarrow> check_nonce hmac rnd server tid nd meth can_resume new_nonce usname realm v)
   }"

definition check_stun_auth ::
    "hmac_fn \<Rightarrow> u8 list \<Rightarrow> u64 \<times> u64 \<Rightarrow> turn_turnserver \<Rightarrow> stun_tid \<Rightarrow> ioa_net_data \<Rightarrow> u16 \<Rightarrow> bool \<Rightarrow> auth_vars \<Rightarrow> auth_vars option" where
  "check_stun_auth hmac rnd r server tid nd meth can_resume v =
     (if \<not> need_stun_authentication server then Some v else do {
        let (new_nonce, ss) = refresh_nonce r server (au_ss v);
        let v = v\<lparr>au_ss := ss\<rparr>;
        sar \<leftarrow> stun_attr_get_first_by_type_str (nd_data nd) (nd_size nd) STUN_ATTRIBUTE_MESSAGE_INTEGRITY;
        sarlen \<leftarrow> stun_attr_get_len (nd_data nd) sar;
        if sar = None \<or> sarlen \<noteq> 20 then challenge rnd server tid meth (set_h (\<lambda>h. h\<lparr>err_code := 401\<rparr>) v)
        else do {
          realm \<leftarrow> string_attr nd STUN_ATTRIBUTE_REALM 127;
          case realm of
            None \<Rightarrow> Some (set_h (\<lambda>h. h\<lparr>err_code := 400\<rparr>) v)
          | Some realm \<Rightarrow> do {
              c \<leftarrow> check_realm meth realm v;
              case c of
                Return v \<Rightarrow> Some v
              | Go realm v \<Rightarrow> check_user hmac rnd server tid nd meth can_resume new_nonce realm v
            }
        }
      })"

section \<open>The answer of the auth server\<close>

text \<open>Both ways to the auth server, the inline call and the message queue, do the same.\<close>

definition auth_server_receive_message ::
    "hmac_fn \<Rightarrow> digest_fn \<Rightarrow> turn_params \<Rightarrow> dbdriver \<Rightarrow> turn_time_t \<Rightarrow> auth_message \<Rightarrow> auth_message option" where
  "auth_server_receive_message hmac digest tp dbd now am = do {
     (rc, key) \<leftarrow> get_user_key hmac digest tp dbd now (am_username am) (am_realm am) (am_key am)
                    (nd_data (am_in_buffer am)) (nd_size (am_in_buffer am));
     Some (am\<lparr>am_key := key, am_success := \<not> rc < 0\<rparr>)
   }"

definition inc_quota :: "turn_params \<Rightarrow> turn_turnserver \<Rightarrow> u8 list \<Rightarrow> super_session \<times> user_db \<Rightarrow> (int \<times> super_session \<times> user_db) option" where
  "inc_quota tp server user s = do {
     let (ss, db) = s;
     if \<not> quota_used ss then
       (if srv_ct server = TURN_CREDENTIALS_LONG_TERM \<and> \<not> origin_set ss then Some (- 1, ss, db)
        else do {
          (rc, db) \<leftarrow> check_new_allocation_quota tp db (Some user) (oauth ss) (realm_name ss);
          if rc < 0 then Some (- 1, ss, db)
          else Some (0, ss\<lparr>username := user, quota_used := True\<rparr>, db)
        })
     else Some (0, ss, db)
   }"

definition dec_quota :: "turn_params \<Rightarrow> super_session \<times> user_db \<Rightarrow> (super_session \<times> user_db) option" where
  "dec_quota tp s = do {
     let (ss, db) = s;
     if quota_used ss then do {
       db \<leftarrow> release_allocation_quota tp db (Some (username ss)) (oauth ss) (realm_name ss);
       Some (ss\<lparr>quota_used := False\<rparr>, db)
     } else Some (ss, db)
   }"

text \<open>What the answer changes in the session before the request is read again.\<close>

definition resume_session ::
    "turn_params \<Rightarrow> turn_turnserver \<Rightarrow> auth_message \<Rightarrow> super_session \<times> user_db \<Rightarrow> (super_session \<times> user_db) option" where
  "resume_session tp server am s = do {
     let (ss, db) = s;
     if am_success am then do {
       let ss = ss\<lparr>hmackey := am_key am, hmackey_set := True, oauth := am_out_oauth am,
                   max_session_time_auth := word_of_int (am_max_session_time am), pwd := am_pwd am\<rparr>;
       if am_realm am \<noteq> [] \<and> am_realm am \<noteq> realm_name ss then do {
         (ss, db) \<leftarrow> dec_quota tp (ss, db);
         (ro, db) \<leftarrow> get_realm_options_by_name db (am_realm am);
         (_, ss, db) \<leftarrow> inc_quota tp server (username ss) (ss\<lparr>realm_name := ro_name ro\<rparr>, db);
         Some (ss, db)
       } else Some (ss, db)
     } else Some (ss, db)
   }"


section \<open>What the steps compute\<close>

definition attr_string :: "ioa_net_data \<Rightarrow> u16 \<Rightarrow> nat \<Rightarrow> u8 list option" where
  "attr_string nd t maxlen = map_option (\<lambda>v. cstr (take maxlen v)) (map_of (attrs (nd_data nd) (nd_size nd)) (unat t))"

lemma string_attr_in:
  assumes "nd_ok nd"
  shows "string_attr nd t maxlen = Some (attr_string nd t maxlen)"
proof (cases "map_of (attrs (nd_data nd) (nd_size nd)) (unat t)")
  case None
  then show ?thesis using attr_absent [of "nd_size nd" "nd_data nd" t] assms by (simp add: string_attr_def attr_string_def nd_ok_def)
next
  case (Some v)
  obtain p where p: "stun_attr_get_first_by_type_str (nd_data nd) (nd_size nd) t = Some (Some p)"
    "stun_attr_get_len (nd_data nd) (Some p) = Some (int (length v))"
    "p + 4 + length v \<le> length (nd_data nd)" "take (length v) (drop (p + 4) (nd_data nd)) = v"
    using attr_found [OF _ Some] assms by (auto simp: nd_ok_def)
  have "take (min (length v) maxlen) (drop (p + 4) (nd_data nd)) = take maxlen v"
    using p(4) by (metis min.commute take_take)
  then show ?thesis using p Some by (simp add: string_attr_def attr_string_def load_def)
qed

text \<open>A challenge holds the code, the nonce and the realm of the session.\<close>

lemma length_hex08: "8 \<le> length (hex08 w)"
  by (simp add: hex08_def hex16_def Let_def)

lemma length_nonce_string [simp]: "length (nonce_string r) = 16"
  using length_hex08 [of "fst r"] length_hex08 [of "snd r"] by (simp add: nonce_string_def min_absorb2)

lemma hexdigit_nonzero: "hexdigit (unat (x AND 0xF :: u64)) \<noteq> 0"
proof -
  have "(0xF :: u64) = mask 4" by (simp add: mask_eq_exp_minus_1)
  then have "unat (x AND 0xF) = take_bit 4 (unat x)"
    using unsigned_take_bit_eq [of 4 x, where 'a = nat] by (simp only: take_bit_eq_mask)
  then have "unat (x AND 0xF) < 16" using take_bit_nat_less_exp [of 4 "unat x"] by simp
  then show ?thesis by (rule hexdigit_props)
qed

lemma nonce_string_nonzero: "0 \<notin> set (nonce_string r)"
proof -
  have "0 \<notin> set (hex08 w)" for w
    using hexdigit_nonzero by (auto simp: hex08_def hex16_def Let_def dest!: in_set_dropD)
  then show ?thesis by (auto simp: nonce_string_def dest: in_set_takeD)
qed

text \<open>The strings of a session and of the server as the code keeps them.\<close>

definition strings_ok :: "turn_turnserver \<Rightarrow> super_session \<Rightarrow> bool" where
  "strings_ok server ss \<longleftrightarrow> (nonce ss = [] \<or> length (nonce ss) = 16) \<and> 0 \<notin> set (nonce ss) \<and>
     length (realm_name ss) \<le> 127 \<and> 0 \<notin> set (realm_name ss) \<and> length (oauth_server_name server) \<le> 1024"

definition buffer_large :: "handler \<Rightarrow> u8 list \<Rightarrow> stun_tid \<Rightarrow> bool" where
  "buffer_large h rnd tid \<longleftrightarrow> 2000 \<le> length (nbh_data h) \<and> 12 \<le> length rnd \<and> 12 \<le> length tid"

lemma add_string:
  assumes "wf_msg b len" "length v \<le> 1024" "len + length v + 7 \<le> length b" "len + length v + 7 < 65507"
  obtains b' len' where "stun_attr_add_str b len t (Some v) (int (length v)) = Some (True, b', len')" "wf_msg b' len'"
    "length b' = length b" "len' \<le> len + length v + 7" "attrs b' len' = attrs b len @ [(unat t, v)]"
    "take 12 (drop 8 b') = take 12 (drop 8 b)" "rd16 b' 0 = rd16 b 0"
proof -
  have pad: "pad4 (length v) \<le> length v + 3" unfolding pad4_eq by presburger
  obtain b' where b': "stun_attr_add_str b len t (Some v) (int (length v)) = Some (True, b', len + 4 + pad4 (length v))"
      "wf_msg b' (len + 4 + pad4 (length v))" "length b' = length b"
      "attrs b' (len + 4 + pad4 (length v)) = attrs b len @ [(unat t, v)]"
      "\<And>i. i < len \<Longrightarrow> i \<noteq> 2 \<Longrightarrow> i \<noteq> 3 \<Longrightarrow> b' ! i = b ! i"
    using add_str_append [OF assms(1), of "length v" v t] assms pad by auto
  have "take 12 (drop 8 b') = take 12 (drop 8 b)"
    by (rule nth_equalityI) (use wf_msgD [OF assms(1)] b'(3,5) in auto)
  moreover have "rd16 b' 0 = rd16 b 0" using wf_msgD(4) [OF assms(1)] b'(3,5) by (simp add: rd16_def)
  ultimately show ?thesis using that b'(1-4) pad by auto
qed

text \<open>A challenge is a message with the given attributes.\<close>

definition is_challenge :: "super_session \<Rightarrow> stun_tid \<Rightarrow> u16 \<Rightarrow> u16 \<Rightarrow> buffer \<Rightarrow> nat \<Rightarrow> bool" where
  "is_challenge ss tid meth code b len \<longleftrightarrow> wf_msg b len \<and> take 12 (drop 8 b) = take 12 tid \<and>
     rd16 b 0 = Some (nswap16 (stun_make_error_response meth AND 0x3FFF)) \<and>
     (\<exists>v rest. error_value code v \<and> attrs b len = (unat STUN_ATTRIBUTE_ERROR_CODE, v) # (unat STUN_ATTRIBUTE_NONCE, nonce ss) #
        (unat STUN_ATTRIBUTE_REALM, realm_name ss) # rest)"

lemma challenge_in:
  assumes "strings_ok server ss" "nonce ss \<noteq> []" "buffer_large h rnd tid"
  shows "\<exists>b len. create_challenge_response rnd server ss tid meth h =
      Some (h\<lparr>resp_constructed := True, nbh_data := b, nbh_size := len\<rparr>) \<and>
    length b = length (nbh_data h) \<and> is_challenge ss tid meth (word_of_int (err_code h)) b len"
proof -
  have n: "length (nonce ss) = 16" using assms(1,2) by (simp add: strings_ok_def)
  have s: "600 \<le> length (nbh_data h)" "12 \<le> length rnd" "12 \<le> length tid" "2000 \<le> length (nbh_data h)"
    "length (realm_name ss) \<le> 127" "length (oauth_server_name server) \<le> 1024"
    using assms by (auto simp: buffer_large_def strings_ok_def)
  obtain b0 len0 v where b0: "stun_init_error_response_str rnd meth (nbh_data h) (word_of_int (err_code h)) (reason h) (Some tid)
      (include_reason_string server) = Some (b0, len0)" "wf_msg b0 len0" "length b0 = length (nbh_data h)" "len0 \<le> 536"
    "attrs b0 len0 = [(unat STUN_ATTRIBUTE_ERROR_CODE, v)]" "error_value (word_of_int (err_code h)) v"
    "take 12 (drop 8 b0) = take 12 tid" "rd16 b0 0 = Some (nswap16 (stun_make_error_response meth AND 0x3FFF))"
    using error_response_in [OF s(1-3)] by blast
  obtain b1 len1 where b1: "stun_attr_add_str b0 len0 STUN_ATTRIBUTE_NONCE (Some (nonce ss)) 16 = Some (True, b1, len1)"
    "wf_msg b1 len1" "length b1 = length b0" "len1 \<le> 23 + len0" "attrs b1 len1 = attrs b0 len0 @ [(unat STUN_ATTRIBUTE_NONCE, nonce ss)]"
    "take 12 (drop 8 b1) = take 12 (drop 8 b0)" "rd16 b1 0 = rd16 b0 0"
    using add_string [OF b0(2), of "nonce ss" STUN_ATTRIBUTE_NONCE] n b0(3,4) s(4) by auto
  obtain b2 len2 where b2: "stun_attr_add_str b1 len1 STUN_ATTRIBUTE_REALM (Some (realm_name ss)) (int (length (realm_name ss))) = Some (True, b2, len2)"
    "wf_msg b2 len2" "length b2 = length b1" "len2 \<le> len1 + length (realm_name ss) + 7" "attrs b2 len2 = attrs b1 len1 @ [(unat STUN_ATTRIBUTE_REALM, realm_name ss)]"
    "take 12 (drop 8 b2) = take 12 (drop 8 b1)" "rd16 b2 0 = rd16 b1 0"
    by (rule add_string [OF b1(2), of "realm_name ss"]) (use b1(3,4) b0(3,4) s in linarith)+
  show ?thesis
  proof (cases "srv_oauth server")
    case False
    then show ?thesis using b0 b1 b2 by (auto simp: create_challenge_response_def is_challenge_def)
  next
    case True
    define name where "name = (if oauth_server_name server \<noteq> [] then oauth_server_name server else realm_name ss)"
    have name: "length name \<le> 1024" using s(5,6) by (simp add: name_def)
    obtain b3 len3 where b3: "stun_attr_add_str b2 len2 STUN_ATTRIBUTE_THIRD_PARTY_AUTHORIZATION (Some name) (int (length name)) = Some (True, b3, len3)"
      "wf_msg b3 len3" "length b3 = length b2" "len3 \<le> len2 + length name + 7"
      "attrs b3 len3 = attrs b2 len2 @ [(unat STUN_ATTRIBUTE_THIRD_PARTY_AUTHORIZATION, name)]"
      "take 12 (drop 8 b3) = take 12 (drop 8 b2)" "rd16 b3 0 = rd16 b2 0"
      by (rule add_string [OF b2(2), of name]) (use name b2(3,4) b1(3,4) b0(3,4) s in linarith)+
    then show ?thesis
      using True b0 b1 b2 by (auto simp: create_challenge_response_def is_challenge_def name_def [symmetric] Let_def)
  qed
qed


section \<open>Who is authenticated\<close>

text \<open>The nonce of the session is neither missing nor stale.\<close>

definition nonce_current :: "turn_turnserver \<Rightarrow> super_session \<Rightarrow> bool" where
  "nonce_current server ss \<longleftrightarrow> nonce ss \<noteq> [] \<and>
     \<not> (stale_nonce server \<noteq> 0 \<and> turn_time_before (nonce_expiration_time ss) (ctime server))"

text \<open>The request names the realm and the user of the session and echoes its nonce.\<close>

definition names_user :: "ioa_net_data \<Rightarrow> super_session \<Rightarrow> bool" where
  "names_user nd ss \<longleftrightarrow>
     (case attr_string nd STUN_ATTRIBUTE_USERNAME 512 of
        None \<Rightarrow> False
      | Some u \<Rightarrow> is_secure_string u True \<and> (username ss = [] \<or> username ss = u))"

definition names_session :: "ioa_net_data \<Rightarrow> super_session \<Rightarrow> bool" where
  "names_session nd ss \<longleftrightarrow>
     attr_string nd STUN_ATTRIBUTE_REALM 127 = Some (realm_name ss) \<and> is_secure_string (realm_name ss) False \<and>
     names_user nd ss \<and> attr_string nd STUN_ATTRIBUTE_NONCE 127 = Some (nonce ss)"

definition signed_by_session :: "hmac_fn \<Rightarrow> turn_turnserver \<Rightarrow> ioa_net_data \<Rightarrow> super_session \<Rightarrow> bool" where
  "signed_by_session hmac server nd ss \<longleftrightarrow> (hmackey_set ss \<or> cstr (pwd ss) \<noteq> []) \<and>
     integrity_verdict hmac (srv_ct server) (nd_data nd) (nd_size nd) (hmackey ss) (pwd ss) SHATYPE_SHA1 = 1"

definition authentic :: "hmac_fn \<Rightarrow> turn_turnserver \<Rightarrow> ioa_net_data \<Rightarrow> super_session \<Rightarrow> bool" where
  "authentic hmac server nd ss \<longleftrightarrow> nonce_current server ss \<and> names_session nd ss \<and> signed_by_session hmac server nd ss"

text \<open>The request is stopped: it has an error, its answer is complete, or it waits for the auth server.\<close>

definition stopped :: "auth_vars \<Rightarrow> bool" where
  "stopped v \<longleftrightarrow> err_code (au_h v) \<noteq> 0 \<or> postponed v \<noteq> None"

text \<open>The hypotheses of the check: the request and the buffers are as the server allocates them.\<close>

definition auth_ready :: "hmac_fn \<Rightarrow> turn_turnserver \<Rightarrow> u8 list \<Rightarrow> stun_tid \<Rightarrow> ioa_net_data \<Rightarrow> u16 \<Rightarrow> auth_vars \<Rightarrow> bool" where
  "auth_ready hmac server rnd tid nd meth v \<longleftrightarrow>
     nd_ok nd \<and> hmac_sized hmac SHATYPE_SHA1 \<and> 16 \<le> length (hmackey (au_ss v)) \<and> strings_ok server (au_ss v) \<and>
     buffer_large (au_h v) rnd tid \<and> need_stun_authentication server \<and> meth \<noteq> STUN_METHOD_CONNECTION_BIND \<and>
     \<not> oauth (au_ss v) \<and> err_code (au_h v) = 0 \<and> \<not> message_integrity v \<and> postponed v = None"

lemma set_h_simps [simp]:
  "au_ss (set_h f v) = au_ss v" "au_db (set_h f v) = au_db v" "message_integrity (set_h f v) = message_integrity v"
  "postponed (set_h f v) = postponed v" "au_h (set_h f v) = f (au_h v)"
  by (simp_all add: set_h_def)

text \<open>What is common to the results of the steps.\<close>

definition refused :: "auth_vars \<Rightarrow> auth_vars \<Rightarrow> bool" where
  "refused v v' \<longleftrightarrow> stopped v' \<and> message_integrity v' = message_integrity v \<and> au_ss v' = au_ss v \<and> au_db v' = au_db v"

lemma challenge_refuses:
  assumes "strings_ok server (au_ss v)" "nonce (au_ss v) \<noteq> []" "buffer_large (au_h v) rnd tid" "err_code (au_h v) \<noteq> 0"
  shows "\<exists>v'. challenge rnd server tid meth v = Some v' \<and> refused v v'"
  using challenge_in [OF assms(1-3), of meth] assms(4) by (auto simp: challenge_def refused_def stopped_def)

lemma buffer_large_h [simp]:
  "buffer_large (h\<lparr>err_code := c\<rparr>) rnd tid = buffer_large h rnd tid" "buffer_large (set_error c t h) rnd tid = buffer_large h rnd tid"
  by (simp_all add: buffer_large_def set_error_def)

lemma ask_for_key_refuses:
  assumes "strings_ok server (au_ss v)" "nonce (au_ss v) \<noteq> []" "buffer_large (au_h v) rnd tid"
  shows "\<exists>v'. ask_for_key rnd server tid nd meth can_resume usname realm v = Some v' \<and> refused v v'"
proof (cases can_resume)
  case True
  then show ?thesis by (simp add: ask_for_key_def refused_def stopped_def)
next
  case False
  let ?v = "set_h (\<lambda>h. h\<lparr>err_code := 401\<rparr>) v"
  obtain v' where "challenge rnd server tid meth ?v = Some v'" "refused ?v v'"
    using challenge_refuses [of server ?v rnd tid meth] assms by auto
  then show ?thesis using False by (auto simp: ask_for_key_def refused_def)
qed

lemma check_integrity_exact:
  assumes "strings_ok server (au_ss v)" "nonce (au_ss v) \<noteq> []" "buffer_large (au_h v) rnd tid" "nd_ok nd"
    "hmac_sized hmac SHATYPE_SHA1" "16 \<le> length (hmackey (au_ss v))"
  shows "\<exists>v'. check_integrity hmac rnd server tid nd meth can_resume usname realm v = Some v' \<and>
    (if signed_by_session hmac server nd (au_ss v) then v' = v\<lparr>message_integrity := True\<rparr> else refused v v')"
proof (cases "signed_by_session hmac server nd (au_ss v)")
  case True
  then show ?thesis
    using check_integrity_verdict [OF _ _ assms(5), of "nd_size nd" "nd_data nd" "srv_ct server" "hmackey (au_ss v)" "pwd (au_ss v)"] assms(4,6)
    by (auto simp: check_integrity_def signed_by_session_def nd_ok_def key_ok_def get_hmackey_size_def)
next
  case False
  have "integrity_verdict hmac ct msg sz key p sha < 1 \<longleftrightarrow> integrity_verdict hmac ct msg sz key p sha \<noteq> 1" for ct msg sz key p sha
    by (auto simp: integrity_verdict_def split: option.splits)
  then have "check_integrity hmac rnd server tid nd meth can_resume usname realm v = ask_for_key rnd server tid nd meth can_resume usname realm v"
    using False assms(4,6)
      check_integrity_verdict [OF _ _ assms(5), of "nd_size nd" "nd_data nd" "srv_ct server" "hmackey (au_ss v)" "pwd (au_ss v)"]
    by (auto simp: check_integrity_def signed_by_session_def nd_ok_def key_ok_def get_hmackey_size_def)
  then show ?thesis using False ask_for_key_refuses [OF assms(1-3)] by auto
qed


lemma signed_username [simp]: "signed_by_session hmac server nd (ss\<lparr>username := u\<rparr>) = signed_by_session hmac server nd ss"
  by (simp add: signed_by_session_def)

lemma strings_username [simp]: "strings_ok server (ss\<lparr>username := u\<rparr>) = strings_ok server ss"
  by (simp add: strings_ok_def)

text \<open>A step lets the request pass, or stops it and leaves the allocation alone.\<close>

definition passes :: "bool \<Rightarrow> auth_vars \<Rightarrow> auth_vars \<Rightarrow> bool" where
  "passes ok v v' \<longleftrightarrow> alloc (au_ss v') = alloc (au_ss v) \<and> au_db v' = au_db v \<and>
     (if ok then message_integrity v' \<and> au_h v' = au_h v \<and> postponed v' = postponed v
      else stopped v' \<and> message_integrity v' = message_integrity v)"

lemma refused_passes: "refused v v' \<Longrightarrow> passes False v v'"
  by (simp add: refused_def passes_def)

lemma passes_cong:
  "passes ok v0 v' \<Longrightarrow> au_h v0 = au_h v \<or> \<not> ok \<Longrightarrow> alloc (au_ss v0) = alloc (au_ss v) \<Longrightarrow> au_db v0 = au_db v \<Longrightarrow>
   message_integrity v0 = message_integrity v \<Longrightarrow> postponed v0 = postponed v \<Longrightarrow> passes ok v v'"
  by (auto simp: passes_def)

definition step_ready :: "hmac_fn \<Rightarrow> turn_turnserver \<Rightarrow> u8 list \<Rightarrow> stun_tid \<Rightarrow> ioa_net_data \<Rightarrow> auth_vars \<Rightarrow> bool" where
  "step_ready hmac server rnd tid nd v \<longleftrightarrow>
     strings_ok server (au_ss v) \<and> nonce (au_ss v) \<noteq> [] \<and> buffer_large (au_h v) rnd tid \<and> nd_ok nd \<and>
     hmac_sized hmac SHATYPE_SHA1 \<and> 16 \<le> length (hmackey (au_ss v)) \<and> \<not> oauth (au_ss v)"

lemma challenge_passes:
  assumes "step_ready hmac server rnd tid nd v" "err_code (f (au_h v)) \<noteq> 0" "buffer_large (f (au_h v)) rnd tid"
  shows "\<exists>v'. challenge rnd server tid meth (set_h f v) = Some v' \<and> passes False v v'"
  using challenge_refuses [of server "set_h f v" rnd tid meth] assms
  by (auto simp: step_ready_def refused_def passes_def)

lemma check_nonce_exact:
  assumes "step_ready hmac server rnd tid nd v"
  shows "\<exists>v'. check_nonce hmac rnd server tid nd meth can_resume new_nonce usname realm v = Some v' \<and>
    passes (\<not> new_nonce \<and> attr_string nd STUN_ATTRIBUTE_NONCE 127 = Some (nonce (au_ss v)) \<and>
      signed_by_session hmac server nd (au_ss v)) v v'"
proof -
  have nd: "nd_ok nd" using assms by (simp add: step_ready_def)
  show ?thesis
  proof (cases "attr_string nd STUN_ATTRIBUTE_NONCE 127")
    case None
    then show ?thesis using string_attr_in [OF nd] by (simp add: check_nonce_def passes_def stopped_def)
  next
    case (Some n)
    show ?thesis
    proof (cases "new_nonce \<or> nonce (au_ss v) \<noteq> n")
      case True
      have "buffer_large (au_h v) rnd tid" using assms by (simp add: step_ready_def)
      then show ?thesis
        using True Some string_attr_in [OF nd] challenge_passes [OF assms, of "set_error 438 ''Wrong nonce''" meth]
          challenge_passes [OF assms, of "set_error 438 ''Stale nonce''" meth]
        by (auto simp: check_nonce_def)
    next
      case False
      obtain v' where "check_integrity hmac rnd server tid nd meth can_resume usname realm v = Some v'"
        "if signed_by_session hmac server nd (au_ss v) then v' = v\<lparr>message_integrity := True\<rparr> else refused v v'"
        using check_integrity_exact [of server v rnd tid nd hmac meth can_resume usname realm] assms
        by (auto simp: step_ready_def)
      then show ?thesis
        using False Some string_attr_in [OF nd] refused_passes by (auto simp: check_nonce_def passes_def split: if_splits)
    qed
  qed
qed

lemma check_user_exact:
  assumes "step_ready hmac server rnd tid nd v"
  shows "\<exists>v'. check_user hmac rnd server tid nd meth can_resume new_nonce realm v = Some v' \<and>
    passes (\<not> new_nonce \<and> names_user nd (au_ss v) \<and> attr_string nd STUN_ATTRIBUTE_NONCE 127 = Some (nonce (au_ss v)) \<and> signed_by_session hmac server nd (au_ss v)) v v'"
proof -
  have nd: "nd_ok nd" and noauth: "\<not> oauth (au_ss v)" using assms by (auto simp: step_ready_def)
  show ?thesis
  proof (cases "attr_string nd STUN_ATTRIBUTE_USERNAME 512")
    case None
    then show ?thesis using string_attr_in [OF nd] by (simp add: check_user_def names_user_def passes_def stopped_def)
  next
    case (Some u)
    let ?v = "v\<lparr>au_ss := (au_ss v)\<lparr>username := u\<rparr>\<rparr>"
    have r: "step_ready hmac server rnd tid nd ?v" using assms by (simp add: step_ready_def)
    have same: "username (au_ss v) = u \<Longrightarrow> ?v = v" by simp
    obtain v' where v': "check_nonce hmac rnd server tid nd meth can_resume new_nonce u realm ?v = Some v'"
      "passes (\<not> new_nonce \<and> attr_string nd STUN_ATTRIBUTE_NONCE 127 = Some (nonce (au_ss v)) \<and>
        signed_by_session hmac server nd (au_ss v)) ?v v'"
      using check_nonce_exact [OF r, of meth can_resume new_nonce u realm] by auto
    note p = passes_cong [OF v'(2), of v, simplified]
    show ?thesis
    proof (cases "is_secure_string u True \<and> (username (au_ss v) = [] \<or> username (au_ss v) = u)")
      case True
      then show ?thesis
        using Some string_attr_in [OF nd] v'(1) p same by (auto simp: check_user_def check_username_def names_user_def Let_def)
    next
      case False
      then show ?thesis
        using Some string_attr_in [OF nd] noauth by (auto simp: check_user_def check_username_def names_user_def passes_def stopped_def Let_def)
    qed
  qed
qed


lemma refresh_nonce_facts:
  assumes "refresh_nonce r server ss = (new_nonce, ss')" "strings_ok server ss"
  shows "strings_ok server ss'" "nonce ss' \<noteq> []" "alloc ss' = alloc ss" "hmackey ss' = hmackey ss" "oauth ss' = oauth ss"
    "nonce_current server ss \<Longrightarrow> \<not> new_nonce \<and> ss' = ss"
    "\<not> nonce_current server ss \<Longrightarrow> nonce ss' = nonce_string r"
proof -
  have "nonce_string r \<noteq> []" using length_nonce_string [of r] by (metis list.size(3) zero_neq_numeral)
  then show "strings_ok server ss'" "nonce ss' \<noteq> []" "alloc ss' = alloc ss" "hmackey ss' = hmackey ss" "oauth ss' = oauth ss"
    "nonce_current server ss \<Longrightarrow> \<not> new_nonce \<and> ss' = ss"
    "\<not> nonce_current server ss \<Longrightarrow> nonce ss' = nonce_string r"
    using assms nonce_string_nonzero [of r] by (auto simp: refresh_nonce_def strings_ok_def nonce_current_def Let_def split: if_splits)
qed

lemma verdict_without_integrity:
  assumes "case map_of (attrs b len) (unat STUN_ATTRIBUTE_MESSAGE_INTEGRITY) of None \<Rightarrow> True | Some v \<Rightarrow> length v \<noteq> 20" "len \<le> length b"
  shows "integrity_verdict hmac ct b len key pw SHATYPE_SHA1 \<noteq> 1"
proof
  let ?mi = "unat STUN_ATTRIBUTE_MESSAGE_INTEGRITY"
  assume "integrity_verdict hmac ct b len key pw SHATYPE_SHA1 = 1"
  then obtain p where p: "find (\<lambda>p. atype b p = ?mi) (attr_offsets b len) = Some p" "alen b p = 20"
    by (auto simp: integrity_verdict_def shasize_of_def split: option.splits if_splits)
  then have "p \<in> set (attr_offsets b len)" by (auto simp: find_Some_iff)
  then have "length (avalue b p) = 20" using offsets_inside(4) [of p b len] assms(2) p(2) by (simp add: avalue_def)
  moreover have "map_of (attrs b len) ?mi = Some (avalue b p)" using p(1) map_of_attrs_find by blast
  ultimately show False using assms(1) by simp
qed

lemma unsigned_without_integrity:
  "case map_of (attrs (nd_data nd) (nd_size nd)) (unat STUN_ATTRIBUTE_MESSAGE_INTEGRITY) of None \<Rightarrow> True | Some v \<Rightarrow> length v \<noteq> 20 \<Longrightarrow>
   nd_ok nd \<Longrightarrow> \<not> signed_by_session hmac server nd ss"
  using verdict_without_integrity by (auto simp: signed_by_session_def nd_ok_def)

lemma integrity_attr:
  assumes "nd_ok nd"
  shows "\<exists>sar l. stun_attr_get_first_by_type_str (nd_data nd) (nd_size nd) t = Some sar \<and> stun_attr_get_len (nd_data nd) sar = Some l \<and>
    (sar = None \<or> l \<noteq> 20 \<longleftrightarrow> (case map_of (attrs (nd_data nd) (nd_size nd)) (unat t) of None \<Rightarrow> True | Some v \<Rightarrow> length v \<noteq> 20))"
proof (cases "map_of (attrs (nd_data nd) (nd_size nd)) (unat t)")
  case None
  then show ?thesis using attr_absent [of "nd_size nd" "nd_data nd" t] assms by (simp add: nd_ok_def stun_attr_get_len_def)
next
  case (Some w)
  obtain p where "stun_attr_get_first_by_type_str (nd_data nd) (nd_size nd) t = Some (Some p)"
    "stun_attr_get_len (nd_data nd) (Some p) = Some (int (length w))"
    using attr_found [OF _ Some] assms unfolding nd_ok_def by blast
  then show ?thesis using Some by simp
qed

lemma check_realm_exact:
  assumes "meth \<noteq> STUN_METHOD_CONNECTION_BIND" "\<not> oauth (au_ss v)"
  shows "\<exists>v'. passes False v v' \<and> check_realm meth realm v =
    Some (if is_secure_string realm False \<and> realm = realm_name (au_ss v) then Go realm v else Return v')"
proof (cases "is_secure_string realm False \<and> realm = realm_name (au_ss v)")
  case True
  then show ?thesis using assms by (auto simp: check_realm_def passes_def stopped_def intro: exI [of _ "set_h (\<lambda>h. h\<lparr>err_code := 400\<rparr>) v"])
next
  case False
  then show ?thesis using assms by (auto simp: check_realm_def passes_def stopped_def)
qed

lemma check_auth_spec:
  assumes "auth_ready hmac server rnd tid nd meth v" "attr_string nd STUN_ATTRIBUTE_NONCE 127 \<noteq> Some (nonce_string r)"
  shows "\<exists>v'. check_stun_auth hmac rnd r server tid nd meth can_resume v = Some v' \<and>
    (message_integrity v' \<longleftrightarrow> authentic hmac server nd (au_ss v)) \<and>
    (authentic hmac server nd (au_ss v) \<longrightarrow> au_h v' = au_h v \<and> postponed v' = None) \<and>
    (\<not> authentic hmac server nd (au_ss v) \<longrightarrow> stopped v') \<and>
    alloc (au_ss v') = alloc (au_ss v) \<and> au_db v' = au_db v"
proof -
  obtain new_nonce ss where r: "refresh_nonce r server (au_ss v) = (new_nonce, ss)" by fastforce
  have a: "nd_ok nd" "strings_ok server (au_ss v)" "need_stun_authentication server" "\<not> oauth (au_ss v)" "\<not> message_integrity v"
    "postponed v = None" "buffer_large (au_h v) rnd tid" "meth \<noteq> STUN_METHOD_CONNECTION_BIND"
    using assms(1) by (auto simp: auth_ready_def)
  note n = refresh_nonce_facts [OF r a(2)]
  let ?v = "v\<lparr>au_ss := ss\<rparr>" and ?mi = "STUN_ATTRIBUTE_MESSAGE_INTEGRITY"
  have ready: "step_ready hmac server rnd tid nd ?v" using assms(1) n by (simp add: auth_ready_def step_ready_def)
  define ok where "ok \<longleftrightarrow> \<not> new_nonce \<and> names_session nd ss \<and> signed_by_session hmac server nd ss"
  have "\<exists>v'. check_stun_auth hmac rnd r server tid nd meth can_resume v = Some v' \<and> passes ok ?v v'"
  proof (cases "case map_of (attrs (nd_data nd) (nd_size nd)) (unat ?mi) of None \<Rightarrow> True | Some w \<Rightarrow> length w \<noteq> 20")
    case True
    have "\<not> ok" using unsigned_without_integrity [OF True a(1)] by (simp add: ok_def)
    moreover obtain sar l where "stun_attr_get_first_by_type_str (nd_data nd) (nd_size nd) ?mi = Some sar"
      "stun_attr_get_len (nd_data nd) sar = Some l" "sar = None \<or> l \<noteq> 20"
      using integrity_attr [OF a(1), of ?mi] True by blast
    ultimately show ?thesis
      using challenge_passes [OF ready, of "\<lambda>h. h\<lparr>err_code := 401\<rparr>" meth] a(3,7) r by (auto simp: check_stun_auth_def)
  next
    case False
    then obtain p where p: "stun_attr_get_first_by_type_str (nd_data nd) (nd_size nd) ?mi = Some (Some p)"
      "stun_attr_get_len (nd_data nd) (Some p) = Some 20"
      using integrity_attr [OF a(1), of ?mi] by auto
    show ?thesis
    proof (cases "attr_string nd STUN_ATTRIBUTE_REALM 127")
      case None
      then show ?thesis
        using p r a(3) string_attr_in [OF a(1)] by (simp add: check_stun_auth_def ok_def names_session_def passes_def stopped_def)
    next
      case (Some realm)
      obtain v' where v': "check_user hmac rnd server tid nd meth can_resume new_nonce realm ?v = Some v'"
        "passes (\<not> new_nonce \<and> names_user nd ss \<and> attr_string nd STUN_ATTRIBUTE_NONCE 127 = Some (nonce ss) \<and> signed_by_session hmac server nd ss) ?v v'"
        using check_user_exact [OF ready, of meth can_resume new_nonce realm] by auto
      obtain u where u: "passes False ?v u" "check_realm meth realm ?v =
          Some (if is_secure_string realm False \<and> realm = realm_name ss then Go realm ?v else Return u)"
        using check_realm_exact [of meth ?v realm] a(4,8) n(5) by auto
      then have "check_stun_auth hmac rnd r server tid nd meth can_resume v =
          Some (if is_secure_string realm False \<and> realm = realm_name ss then v' else u)"
        using p r a(3) Some string_attr_in [OF a(1)] v'(1)
        by (cases "is_secure_string realm False \<and> realm = realm_name ss") (auto simp: check_stun_auth_def)
      moreover have "passes ok ?v v'" if "is_secure_string realm False \<and> realm = realm_name ss"
        using v'(2) that Some by (auto simp: ok_def names_session_def)
      moreover have "\<not> ok" if "\<not> (is_secure_string realm False \<and> realm = realm_name ss)"
        using that Some by (auto simp: ok_def names_session_def)
      ultimately show ?thesis using u(1) by (cases "is_secure_string realm False \<and> realm = realm_name ss") simp_all
    qed
  qed
  moreover have "ok \<longleftrightarrow> authentic hmac server nd (au_ss v)"
    using n(6,7) assms(2) by (cases "nonce_current server (au_ss v)") (auto simp: ok_def authentic_def names_session_def)
  ultimately show ?thesis using a(5,6) n(3) by (auto simp: passes_def)
qed



text \<open>A session of the user u in the realm r, and a ChannelBind request that the key signs when every
  authentication code is twenty ones.\<close>

definition user_session :: super_session where
  "user_session = sample_session\<lparr>nonce := lit ''0123456789abcdef'', nonce_expiration_time := 700, realm_name := lit ''r'',
     username := lit ''u'', hmackey := replicate 64 5, hmackey_set := True\<rparr>"

definition user_request :: ioa_net_data where
  "user_request = packet ([0, 9, 0, 80, 0x21, 0x12, 0xA4, 0x42, 1, 2, 3, 4, 5, 6, 7, 8, 9, 10, 11, 12,
       0, 0x0C, 0, 4, 0x40, 0, 0, 0, 0, 0x12, 0, 8, 0, 1, 0x33, 0x26, 0x20, 0x10, 0xA7, 0x46] @
     [0, 0x14, 0, 1] @ lit ''r'' @ [0, 0, 0] @ [0, 6, 0, 1] @ lit ''u'' @ [0, 0, 0] @
     [0, 0x15, 0, 16] @ lit ''0123456789abcdef'' @ [0, 8, 0, 20] @ replicate 20 1)"

definition auth_vars0 :: auth_vars where
  "auth_vars0 = \<lparr>au_h = sample_handler\<lparr>nbh_data := replicate 2048 0\<rparr>, au_ss = user_session, au_db = create_default_realm,
     message_integrity = False, postponed = None\<rparr>"

lemma user_request_authentic:
  "attr_string user_request STUN_ATTRIBUTE_NONCE 127 = Some (lit ''0123456789abcdef'')"
  "authentic (\<lambda>_ _ _. Some (replicate 20 1)) sample_server user_request user_session"
  by code_simp+



section \<open>Logging in\<close>

text \<open>C20: A challenge tells the client what it needs for its next request: the client's reader takes
  it as a challenge of the transaction and finds the code, the realm and the nonce of the session.\<close>

theorem challenge_readable:
  assumes "strings_ok server ss" "nonce ss \<noteq> []" "realm_name ss \<noteq> []" "buffer_large h rnd tid" "err_code h \<in> {401, 438}"
    and "ch_err_msg out = None" "ch_server_name out = None" "128 \<le> length (ch_realm out)" "128 \<le> length (ch_nonce out)"
  shows "\<exists>h' out'. create_challenge_response rnd server ss tid meth h = Some h' \<and> resp_constructed h' \<and>
    stun_is_challenge_response_str (nbh_data h') (nbh_size h') 0 out = Some (True, out') \<and>
    ch_err_code out' = err_code h \<and> cstr (ch_realm out') = realm_name ss \<and> cstr (ch_nonce out') = nonce ss \<and>
    stun_tid_from_message_str (nbh_data h') (nbh_size h') = Some (take 12 tid)"
proof -
  obtain b len where b: "create_challenge_response rnd server ss tid meth h =
      Some (h\<lparr>resp_constructed := True, nbh_data := b, nbh_size := len\<rparr>)" "length b = length (nbh_data h)"
    "is_challenge ss tid meth (word_of_int (err_code h)) b len"
    using challenge_in [OF assms(1,2,4)] by blast
  obtain v rest where c: "wf_msg b len" "take 12 (drop 8 b) = take 12 tid"
    "rd16 b 0 = Some (nswap16 (stun_make_error_response meth AND 0x3FFF))" "error_value (word_of_int (err_code h)) v"
    "attrs b len = (unat STUN_ATTRIBUTE_ERROR_CODE, v) # (unat STUN_ATTRIBUTE_NONCE, nonce ss) #
        (unat STUN_ATTRIBUTE_REALM, realm_name ss) # rest"
    using b(3) unfolding is_challenge_def by blast
  have code: "(word_of_int (err_code h) :: u16) \<in> {401, 438}" "uint (word_of_int (err_code h) :: u16) = err_code h"
    using assms(5) by auto
  have "stun_tid_from_message_str b len = Some (take 12 tid)"
    using c(2) b(2) assms(4) by (simp add: stun_tid_from_message_str_def load_def buffer_large_def)
  moreover have "\<exists>out'. stun_is_challenge_response_str b len 0 out = Some (True, out') \<and>
      ch_err_code out' = uint (word_of_int (err_code h) :: u16) \<and> cstr (ch_realm out') = realm_name ss \<and> cstr (ch_nonce out') = nonce ss"
    using assms c wf_msgD [OF c(1)] code(1)
    by (intro challenge_read [where v = v and meth = meth]) (auto simp: strings_ok_def)
  ultimately show ?thesis using b(1) code(2) by simp
qed

text \<open>The request names the session and is signed with the key k that the session does not know yet.\<close>

lemma asks_for_key:
  assumes "auth_ready hmac server rnd tid nd meth v" "nonce_current server (au_ss v)" "names_session nd (au_ss v)"
    and "attr_string nd STUN_ATTRIBUTE_USERNAME 512 = Some u" "\<not> hmackey_set (au_ss v)" "cstr (pwd (au_ss v)) = []"
    and "integrity_verdict hmac ct (nd_data nd) (nd_size nd) k pw SHATYPE_SHA1 = 1"
  shows "check_stun_auth hmac rnd r server tid nd meth True v =
    Some (v\<lparr>au_ss := (au_ss v)\<lparr>username := u\<rparr>,
      postponed := Some (start_user_check (srv_ct server) (srv_oauth server) False u (realm_name (au_ss v)) nd (ss_id (au_ss v)))\<rparr>)"
proof -
  have a: "nd_ok nd" "strings_ok server (au_ss v)" "need_stun_authentication server" "\<not> oauth (au_ss v)" "meth \<noteq> STUN_METHOD_CONNECTION_BIND"
    using assms(1) by (auto simp: auth_ready_def)
  obtain new_nonce ss where r: "refresh_nonce r server (au_ss v) = (new_nonce, ss)" by fastforce
  have n: "\<not> new_nonce" "ss = au_ss v" using refresh_nonce_facts(6) [OF r a(2)] assms(2) by auto
  obtain p where p: "stun_attr_get_first_by_type_str (nd_data nd) (nd_size nd) STUN_ATTRIBUTE_MESSAGE_INTEGRITY = Some (Some p)"
    "stun_attr_get_len (nd_data nd) (Some p) = Some 20"
    using integrity_attr [OF a(1), of STUN_ATTRIBUTE_MESSAGE_INTEGRITY] assms(7) verdict_without_integrity a(1) by (auto simp: nd_ok_def)
  have s: "attr_string nd STUN_ATTRIBUTE_REALM 127 = Some (realm_name (au_ss v))" "is_secure_string (realm_name (au_ss v)) False"
    "is_secure_string u True" "username (au_ss v) = [] \<or> username (au_ss v) = u" "attr_string nd STUN_ATTRIBUTE_NONCE 127 = Some (nonce (au_ss v))"
    using assms(3,4) by (auto simp: names_session_def names_user_def)
  have "check_user hmac rnd server tid nd meth True False (realm_name (au_ss v)) v =
      check_nonce hmac rnd server tid nd meth True False u (realm_name (au_ss v)) (v\<lparr>au_ss := (au_ss v)\<lparr>username := u\<rparr>\<rparr>)"
    using s(3,4) assms(4) string_attr_in [OF a(1)] by (auto simp: check_user_def check_username_def Let_def)
  also have "\<dots> = Some (v\<lparr>au_ss := (au_ss v)\<lparr>username := u\<rparr>,
      postponed := Some (start_user_check (srv_ct server) (srv_oauth server) False u (realm_name (au_ss v)) nd (ss_id (au_ss v)))\<rparr>)"
    using s(5) assms(5,6) a(4) string_attr_in [OF a(1)] by (simp add: check_nonce_def check_integrity_def ask_for_key_def)
  finally show ?thesis
    using a n r p s(1,2) string_attr_in [OF a(1)] by (simp add: check_stun_auth_def check_realm_def)
qed



theorem challenge_readable_witness:
  "\<exists>h' out'. create_challenge_response (replicate 12 0) sample_server user_session (replicate 12 3) STUN_METHOD_ALLOCATE
     (sample_handler\<lparr>nbh_data := replicate 2048 0, err_code := 401\<rparr>) = Some h' \<and>
     stun_is_challenge_response_str (nbh_data h') (nbh_size h') 0
       \<lparr>ch_err_code = 0, ch_err_msg = None, ch_realm = replicate 128 0, ch_nonce = replicate 128 0, ch_server_name = None, ch_oauth = False\<rparr> =
     Some (True, out') \<and> ch_err_code out' = 401 \<and> cstr (ch_realm out') = lit ''r''"
  using challenge_readable [of sample_server user_session "sample_handler\<lparr>nbh_data := replicate 2048 0, err_code := 401\<rparr>"
      "replicate 12 0" "replicate 12 3"
      "\<lparr>ch_err_code = 0, ch_err_msg = None, ch_realm = replicate 128 0, ch_nonce = replicate 128 0, ch_server_name = None, ch_oauth = False\<rparr>"
      STUN_METHOD_ALLOCATE]
  by (auto simp: strings_ok_def user_session_def lit_def sample_server_def buffer_large_def)

text \<open>The session before it has its key, and a server that has an account for the user.\<close>

definition keyless_vars :: auth_vars where
  "keyless_vars = auth_vars0\<lparr>au_ss := user_session\<lparr>hmackey_set := False\<rparr>\<rparr>"

definition account_params :: turn_params where
  "account_params = sample_params\<lparr>static_accounts := map_put (ur_string_map_create False) (lit ''u'') (Some (replicate 64 5))\<rparr>"

lemma keyless_facts:
  "nonce_current sample_server (user_session\<lparr>hmackey_set := False\<rparr>)" "names_session user_request (user_session\<lparr>hmackey_set := False\<rparr>)"
  "attr_string user_request STUN_ATTRIBUTE_USERNAME 512 = Some (lit ''u'')"
  "integrity_verdict (\<lambda>_ _ _. Some (replicate 20 1)) TURN_CREDENTIALS_LONG_TERM (nd_data user_request) (nd_size user_request) (replicate 64 5) [] SHATYPE_SHA1 = 1"
  by code_simp+


end
