(* ===== verification/Spec2Isabelle.thy ===== *)
theory Spec2Isabelle
  imports Stun_Crc Stun_Integrity Stun_Build Stun_Frame Turn_Ports Net_Bandwidth Turn_Relay Turn_Auth
begin

text \<open>
  A verification of coturn, a STUN and TURN server written in C.  A TURN client asks the server for a
  relayed address (an allocation); it then exchanges data with peers through that address, under
  permissions and over channels that it has to install and refresh.  The sources are under src/: the
  message layer in src/src/client, the protocol engine in src/src/server, the programs in
  src/src/apps.

  \<^bold>\<open>Conventions.\<close>  A w-bit C integer is a w-bit word whose arithmetic wraps around; an int that only
  carries small values is an integer.  A memory object is the list of its bytes.  A function that
  reads or writes memory through a pointer returns an option whose value None stands for an access
  outside of the object, so a theorem that it is not None is a theorem of memory safety.  A pointer
  that may be NULL is an option.  Output parameters are further components of the result; objects
  that a function changes are arguments and results.  Allocation of memory succeeds.  Code that
  is not part of the repository (OpenSSL digests and MACs, random numbers, the system) and the
  part of the network engine that talks to the operating system are arguments of the definitions.

  \<^bold>\<open>Message layer\<close> (ns_turn_msg.c, ns_turn_msg_addr.c, ns_turn_ioaddr.c).
  \<^item> Turn_Prelude: integer types, byte order, bounds-checked loads and stores.  C_String: strings of C.
  \<^item> Ioaddr: transport addresses, their equality, hash, ranges, classes and the mapping between
    public and private addresses.  Range tests are sound, complete for IPv4, and a
    written-out example shows that they are not complete for IPv6.
  \<^item> Stun_Addr: encoding of addresses.  Stun_Msg: headers, types and attributes; every loop over the
    attributes is attr_while, whose recursion ends because the position grows towards the end of the
    message.  Stun_Attrs: further attributes.  Stun_Codec: attribute lists of well-formed messages,
    round trips and memory safety of all readers on arbitrary input.
  \<^item> Stun_Crc: the table driven checksum equals the bitwise one, fingerprints that are added are found.
    Stun_Integrity: keys, passwords and MESSAGE-INTEGRITY, which is found after it was added and is
    accepted only if it is the MAC of the message under the key.
  \<^item> Stun_Build: the builders of requests, responses and error responses.  Stun_Frame: channel messages
    and the cutting of a byte stream into messages.

  \<^bold>\<open>Tables\<close> (ns_turn_maps.c, turn_ports.c).
  \<^item> Map_Spec: the laws of a finite map as a locale.  Turn_Maps: the four tables of the server refine it.
  \<^item> Port_Pool: the laws of a pool of ports as a locale.  Turn_Ports: the ring of free relay ports
    refines it, and no port is handed out twice.
  \<^item> Slot_Table: tables of eight buckets of slots and a locale of the lookups in them.

  \<^bold>\<open>Server\<close> (ns_turn_allocation.c, ns_turn_server.c, ns_ioalib_engine_impl.c).
  \<^item> Turn_Allocation: an allocation with its permissions and channels.  A pointer to a permission or a
    channel is the bucket and the position of its slot.  The invariant alloc_inv says that the two
    tables agree and that all lookups find what was installed; every operation keeps it.
  \<^item> Turn_Peers: the policy good_peer_addr.
  \<^item> Net_Buffer, Net_Bandwidth: network buffers with their movable window and the bandwidth limit.
  \<^item> Turn_Session: sessions, lifetimes, CreatePermission, ChannelBind and the sweep of what has expired;
    the reachable sessions session_run.  Turn_Bindings: the invariants of the reachable sessions, and
    the locale stable_allocation of predicates that all operations keep.
  \<^item> Turn_Relay: Send indications, channel data and the packets of peers.

  \<^bold>\<open>Users\<close> (userdb.c, check_stun_auth of ns_turn_server.c, apputils.c, ns_turn_utils.c, netengine.c).
  \<^item> Base64: the encoder, the decoder and the mobility tickets made with them.  Tickets are read back; the
    strings on which the decoder reads outside its arrays are characterised.
  \<^item> User_Db: realms, quotas and keys of users.  A run of the quota functions is an inductive relation
    between the tables and the multiset of allocations that are held: the counters are exact and the
    quotas hold.  A key from a shared secret is given out exactly for requests signed under it.
  \<^item> Turn_Auth: the check of a request with long-term credentials.  It passes exactly the authentic
    requests, a challenge is readable, and a user with an account gets in.

  \<^bold>\<open>Bounds.\<close>  The model has no fuel: all loops are structural or have a termination proof.  Witnesses use
  buffers that are as long as the message, theorems about buffers of the engine the real size of 65507
  bytes and four bytes for a channel header.

  \<^bold>\<open>Not modelled.\<close>  Sockets, timers, TLS and threads (libevent, OpenSSL and system calls), the
  listeners and the main program, the queries of the database drivers (a driver is a record of functions)
  and the administration interfaces, the client programs and the OAuth token functions, which are
  sequences of OpenSSL calls.  The handlers of Allocate, Refresh, Connect, ConnectionBind and Binding
  are not modelled: they set up sockets, timers and connections of the engine.
\<close>

end
